theory Spec2Isabelle
  imports Complex_Main "HOL-Library.Multiset"
begin

section \<open>Geomechanics calculator: the normalisation and derivation pipeline of script.js\<close>

text \<open>
  The development embeds the four core functions of \<^verbatim>\<open>src/script.js\<close>:
  \<^verbatim>\<open>detectColumns\<close>, \<^verbatim>\<open>detectUnitMultiplier\<close>, \<^verbatim>\<open>validateAndPrepare\<close> and
  \<^verbatim>\<open>computeParameters\<close>.

  Numbers. A JavaScript number is modelled as a real number or one of the three special
  values \<open>Infinity\<close>, \<open>-Infinity\<close> and \<open>NaN\<close>. The special values follow IEEE 754 as
  ECMAScript prescribes (\<open>Infinity - Infinity = NaN\<close>, \<open>0 * Infinity = NaN\<close>, every
  comparison with \<open>NaN\<close> is false); the sign of zero is not modelled. \<^verbatim>\<open>computeParameters\<close> is
  embedded twice. The first embedding computes on finite values exactly, without the
  rounding of doubles and without the overflow of finite operands to an infinity; the
  statements that name a formula are made on it. The second embedding takes the arithmetic
  of doubles as a parameter, of which only properties of the rounding to the nearest double
  are assumed, so that rounding and overflow are part of it; the statements on exact values
  and on the fields that are the sentinel or a real number are made on it.
\<close>

subsection \<open>JavaScript numbers\<close>

datatype jsnum = Fin real | PInf | NInf | NaN

fun jneg :: "jsnum \<Rightarrow> jsnum" where
  "jneg (Fin x) = Fin (- x)"
| "jneg PInf = NInf"
| "jneg NInf = PInf"
| "jneg NaN = NaN"

text \<open>\<^verbatim>\<open>a + b\<close> on numbers.\<close>

fun jadd :: "jsnum \<Rightarrow> jsnum \<Rightarrow> jsnum" where
  "jadd (Fin x) (Fin y) = Fin (x + y)"
| "jadd (Fin x) PInf = PInf"
| "jadd (Fin x) NInf = NInf"
| "jadd PInf (Fin y) = PInf"
| "jadd PInf PInf = PInf"
| "jadd PInf NInf = NaN"
| "jadd NInf (Fin y) = NInf"
| "jadd NInf NInf = NInf"
| "jadd NInf PInf = NaN"
| "jadd NaN b = NaN"
| "jadd a NaN = NaN"

text \<open>\<^verbatim>\<open>a - b\<close> on numbers.\<close>

definition jsub :: "jsnum \<Rightarrow> jsnum \<Rightarrow> jsnum" where
  "jsub a b = jadd a (jneg b)"

text \<open>The product of an infinity (positive when \<open>pos\<close>) with the finite value \<open>x\<close>.\<close>

definition inf_times :: "bool \<Rightarrow> real \<Rightarrow> jsnum" where
  "inf_times pos x = (if x = 0 then NaN else if (0 < x) = pos then PInf else NInf)"

text \<open>\<^verbatim>\<open>a * b\<close> on numbers.\<close>

fun jmul :: "jsnum \<Rightarrow> jsnum \<Rightarrow> jsnum" where
  "jmul (Fin x) (Fin y) = Fin (x * y)"
| "jmul (Fin x) PInf = inf_times True x"
| "jmul (Fin x) NInf = inf_times False x"
| "jmul PInf (Fin y) = inf_times True y"
| "jmul NInf (Fin y) = inf_times False y"
| "jmul PInf PInf = PInf"
| "jmul PInf NInf = NInf"
| "jmul NInf PInf = NInf"
| "jmul NInf NInf = PInf"
| "jmul NaN b = NaN"
| "jmul a NaN = NaN"

text \<open>
  \<^verbatim>\<open>a / b\<close> on numbers. A finite non-zero value divided by zero is an infinity whose sign
  is taken from the numerator (the zero is read as \<open>+0\<close>); every division of the source is
  guarded against a zero denominator, so this branch is never reached by the functions below.
\<close>

fun jdiv :: "jsnum \<Rightarrow> jsnum \<Rightarrow> jsnum" where
  "jdiv (Fin x) (Fin y) =
     (if y = 0 then (if x = 0 then NaN else if 0 < x then PInf else NInf) else Fin (x / y))"
| "jdiv (Fin x) PInf = Fin 0"
| "jdiv (Fin x) NInf = Fin 0"
| "jdiv PInf (Fin y) = (if 0 \<le> y then PInf else NInf)"
| "jdiv NInf (Fin y) = (if 0 \<le> y then NInf else PInf)"
| "jdiv PInf PInf = NaN"
| "jdiv PInf NInf = NaN"
| "jdiv NInf PInf = NaN"
| "jdiv NInf NInf = NaN"
| "jdiv NaN b = NaN"
| "jdiv a NaN = NaN"

text \<open>\<^verbatim>\<open>Math.pow(x, 2)\<close>.\<close>

fun Math_pow2 :: "jsnum \<Rightarrow> jsnum" where
  "Math_pow2 (Fin x) = Fin (x * x)"
| "Math_pow2 PInf = PInf"
| "Math_pow2 NInf = PInf"
| "Math_pow2 NaN = NaN"

text \<open>\<^verbatim>\<open>Math.abs(x)\<close>.\<close>

fun Math_abs :: "jsnum \<Rightarrow> jsnum" where
  "Math_abs (Fin x) = Fin \<bar>x\<bar>"
| "Math_abs PInf = PInf"
| "Math_abs NInf = PInf"
| "Math_abs NaN = NaN"

text \<open>\<^verbatim>\<open>a < b\<close> on numbers.\<close>

fun jlt :: "jsnum \<Rightarrow> jsnum \<Rightarrow> bool" where
  "jlt (Fin x) (Fin y) = (x < y)"
| "jlt (Fin x) PInf = True"
| "jlt NInf (Fin y) = True"
| "jlt NInf PInf = True"
| "jlt a b = False"

text \<open>\<^verbatim>\<open>Number.isFinite\<close>, \<^verbatim>\<open>Number.isNaN\<close>, the truth value of a number in a condition,
  and \<^verbatim>\<open>a === b\<close> on numbers.\<close>

fun isFinite :: "jsnum \<Rightarrow> bool" where
  "isFinite (Fin x) = True"
| "isFinite a = False"

fun isNaN :: "jsnum \<Rightarrow> bool" where
  "isNaN NaN = True"
| "isNaN a = False"

fun truthy :: "jsnum \<Rightarrow> bool" where
  "truthy (Fin x) = (x \<noteq> 0)"
| "truthy NaN = False"
| "truthy a = True"

definition strict_eq :: "jsnum \<Rightarrow> jsnum \<Rightarrow> bool" where
  "strict_eq a b = (a \<noteq> NaN \<and> b \<noteq> NaN \<and> a = b)"

text \<open>\<^verbatim>\<open>Math.min(...xs)\<close> and \<^verbatim>\<open>Math.max(...xs)\<close>: the fold of the two-argument
  operation from \<open>Infinity\<close>, respectively \<open>-Infinity\<close>; a \<open>NaN\<close> argument makes the result
  \<open>NaN\<close>.\<close>

definition jmin :: "jsnum \<Rightarrow> jsnum \<Rightarrow> jsnum" where
  "jmin a b = (if isNaN a \<or> isNaN b then NaN else if jlt b a then b else a)"

definition jmax :: "jsnum \<Rightarrow> jsnum \<Rightarrow> jsnum" where
  "jmax a b = (if isNaN a \<or> isNaN b then NaN else if jlt a b then b else a)"

definition Math_min :: "jsnum list \<Rightarrow> jsnum" where
  "Math_min xs = fold (\<lambda>x m. jmin m x) xs PInf"

definition Math_max :: "jsnum list \<Rightarrow> jsnum" where
  "Math_max xs = fold (\<lambda>x m. jmax m x) xs NInf"

subsection \<open>Arrays\<close>

text \<open>
  An array of numbers is a list. Reading \<^verbatim>\<open>xs[i]\<close> beyond the end yields
  \<^verbatim>\<open>undefined\<close>, which every arithmetic operator converts to \<open>NaN\<close>; the only such
  read of the source is \<^verbatim>\<open>depths[i+1]\<close> in a one-element input. \<^verbatim>\<open>xs.map((x, i) => f)\<close>
  is \<open>mapi\<close>.
\<close>

definition arr_at :: "jsnum list \<Rightarrow> nat \<Rightarrow> jsnum" where
  "arr_at xs i = (if i < length xs then xs ! i else NaN)"

definition mapi :: "('a \<Rightarrow> nat \<Rightarrow> 'b) \<Rightarrow> 'a list \<Rightarrow> 'b list" where
  "mapi f xs = map (\<lambda>i. f (xs ! i) i) [0..<length xs]"

subsection \<open>Samples\<close>

record sample =
  depth :: jsnum
  density :: jsnum
  vp :: jsnum
  vs :: jsnum

record derived = sample +
  vertical_stress_pa :: jsnum
  shear_modulus_pa :: jsnum
  bulk_modulus_pa :: jsnum
  lame_lambda_pa :: jsnum
  youngs_modulus_pa :: jsnum
  poisson_ratio :: jsnum
  acoustic_impedance :: jsnum
  shear_impedance :: jsnum
  p_modulus_pa :: jsnum
  vp_vs_ratio :: jsnum
  impedance_gradient_per_m :: jsnum
  delta_impedance_prev :: jsnum
  lambda_over_mu :: jsnum
  poisson_from_moduli :: jsnum
  brittleness_e :: jsnum

subsection \<open>computeParameters\<close>

text \<open>\<^verbatim>\<open>const g = 9.81;\<close>\<close>

definition g :: jsnum where
  "g = Fin (981 / 100)"

text \<open>
  The body of the loop \<^verbatim>\<open>for(let i=1;i<n;i++)\<close> that integrates the density; the state is
  the accumulator \<^verbatim>\<open>acc\<close> and the array \<^verbatim>\<open>sigma_v\<close>.
\<close>

definition sigma_step :: "jsnum list \<Rightarrow> jsnum list \<Rightarrow> nat \<Rightarrow> jsnum \<times> jsnum list \<Rightarrow> jsnum \<times> jsnum list" where
  "sigma_step depths rho i st =
     (let acc = fst st; sigma_v = snd st;
          dz = jsub (arr_at depths i) (arr_at depths (i - 1));
          area = jmul (jmul (Fin (1 / 2)) (jadd (arr_at rho i) (arr_at rho (i - 1)))) dz;
          acc' = jadd acc area
      in (acc', sigma_v[i := jmul acc' g]))"

text \<open>
  \<^verbatim>\<open>new Array(n).fill(0)\<close> followed by \<^verbatim>\<open>sigma_v[0] = 0\<close> (which gives an empty array
  one element), then the loop.
\<close>

definition sigma_v_of :: "jsnum list \<Rightarrow> jsnum list \<Rightarrow> jsnum list" where
  "sigma_v_of depths rho =
     (let n = length depths;
          sigma_v0 = (if n = 0 then [Fin 0] else (replicate n (Fin 0))[0 := Fin 0])
      in snd (fold (sigma_step depths rho) [1..<n] (Fin 0, sigma_v0)))"

text \<open>The body of the loop that fills \<^verbatim>\<open>impedanceGrad\<close>.\<close>

definition grad_step :: "jsnum list \<Rightarrow> jsnum list \<Rightarrow> nat \<Rightarrow> jsnum list \<Rightarrow> jsnum list" where
  "grad_step depths acousticZ i impedanceGrad =
     (let n = length depths in
      if i = 0 then
        (let dz = jsub (arr_at depths (i + 1)) (arr_at depths i)
         in impedanceGrad[i := (if truthy dz then jdiv (jsub (arr_at acousticZ 1) (arr_at acousticZ 0)) dz else NaN)])
      else if i = n - 1 then
        (let dz = jsub (arr_at depths i) (arr_at depths (i - 1))
         in impedanceGrad[i := (if truthy dz then jdiv (jsub (arr_at acousticZ i) (arr_at acousticZ (i - 1))) dz else NaN)])
      else
        (let dz = jsub (arr_at depths (i + 1)) (arr_at depths (i - 1))
         in impedanceGrad[i := (if truthy dz then jdiv (jsub (arr_at acousticZ (i + 1)) (arr_at acousticZ (i - 1))) dz else NaN)]))"

definition impedanceGrad_of :: "jsnum list \<Rightarrow> jsnum list \<Rightarrow> jsnum list" where
  "impedanceGrad_of depths acousticZ =
     (let n = length depths
      in fold (grad_step depths acousticZ) [0..<n] (replicate n NaN))"

text \<open>The loop \<^verbatim>\<open>for(let i=1;i<n;i++) deltaZPrev[i] = acousticZ[i]-acousticZ[i-1]\<close>.\<close>

definition deltaZPrev_of :: "jsnum list \<Rightarrow> jsnum list" where
  "deltaZPrev_of acousticZ =
     (let n = length acousticZ
      in fold (\<lambda>i deltaZPrev. deltaZPrev[i := jsub (arr_at acousticZ i) (arr_at acousticZ (i - 1))])
           [1..<n] (replicate n (Fin 0)))"

definition poisson_of :: "jsnum list \<Rightarrow> jsnum list \<Rightarrow> jsnum list" where
  "poisson_of vpa vsa =
     mapi (\<lambda>vpi i.
       (let denom = jmul (Fin 2) (jsub (Math_pow2 vpi) (Math_pow2 (arr_at vsa i)))
        in if jlt (Math_abs denom) (Fin (1 / 10 ^ 12)) then NaN
           else jdiv (jsub (Math_pow2 vpi) (jmul (Fin 2) (Math_pow2 (arr_at vsa i)))) denom)) vpa"

definition young_of :: "jsnum list \<Rightarrow> jsnum list \<Rightarrow> jsnum list" where
  "young_of shearModulus poisson =
     mapi (\<lambda>G i.
       (let nu = arr_at poisson i
        in if \<not> isFinite nu then NaN else jmul (jmul (Fin 2) G) (jadd (Fin 1) nu))) shearModulus"

definition poisson_from_moduli_of :: "jsnum list \<Rightarrow> jsnum list \<Rightarrow> jsnum list" where
  "poisson_from_moduli_of bulkModulus shearModulus =
     mapi (\<lambda>K i.
       (let G = arr_at shearModulus i;
            denom = jmul (Fin 2) (jadd (jmul (Fin 3) K) G)
        in if jlt (Math_abs denom) (Fin (1 / 10 ^ 12)) then NaN
           else jdiv (jsub (jmul (Fin 3) K) (jmul (Fin 2) G)) denom)) bulkModulus"

definition Evals_of :: "jsnum list \<Rightarrow> jsnum list \<Rightarrow> jsnum list" where
  "Evals_of shearModulus poisson =
     filter isFinite
       (mapi (\<lambda>G i.
          (let nu = arr_at poisson i
           in if isFinite nu then jmul (jmul (Fin 2) G) (jadd (Fin 1) nu) else NaN)) shearModulus)"

definition brittlenessE_of :: "jsnum list \<Rightarrow> jsnum list \<Rightarrow> jsnum list" where
  "brittlenessE_of young Evals =
     (let E_min = (if length Evals \<noteq> 0 then Math_min Evals else NaN);
          E_max = (if length Evals \<noteq> 0 then Math_max Evals else NaN)
      in mapi (\<lambda>E i.
           if \<not> isFinite E \<or> \<not> isFinite E_min \<or> strict_eq E_max E_min then NaN
           else jdiv (jsub E E_min) (jsub E_max E_min)) young)"

definition computeParameters :: "sample list \<Rightarrow> derived list" where
  "computeParameters rows =
     (let depths = map depth rows;
          rho = map density rows;
          vpa = map vp rows;
          vsa = map vs rows;
          sigma_v = sigma_v_of depths rho;
          shearModulus = mapi (\<lambda>r i. jmul r (Math_pow2 (arr_at vsa i))) rho;
          bulkModulus = mapi (\<lambda>r i. jmul r (jsub (Math_pow2 (arr_at vpa i))
                                   (jmul (Fin (4 / 3)) (Math_pow2 (arr_at vsa i))))) rho;
          lambda = mapi (\<lambda>r i. jmul r (jsub (Math_pow2 (arr_at vpa i))
                                   (jmul (Fin 2) (Math_pow2 (arr_at vsa i))))) rho;
          poisson = poisson_of vpa vsa;
          young = young_of shearModulus poisson;
          acousticZ = mapi (\<lambda>r i. jmul r (arr_at vpa i)) rho;
          shearZ = mapi (\<lambda>r i. jmul r (arr_at vsa i)) rho;
          pModulus = mapi (\<lambda>r i. jmul r (Math_pow2 (arr_at vpa i))) rho;
          vpVsRatio = mapi (\<lambda>vpi i. if \<not> strict_eq (arr_at vsa i) (Fin 0) then jdiv vpi (arr_at vsa i) else NaN) vpa;
          impedanceGrad = impedanceGrad_of depths acousticZ;
          deltaZPrev = deltaZPrev_of acousticZ;
          lambdaOverMu = mapi (\<lambda>lam i. if truthy (arr_at shearModulus i)
                                         then jdiv lam (arr_at shearModulus i) else NaN) lambda;
          poisson_from_modulia = poisson_from_moduli_of bulkModulus shearModulus;
          brittlenessE = brittlenessE_of young (Evals_of shearModulus poisson)
      in mapi (\<lambda>row i.
           \<lparr> depth = depth row, density = density row, vp = vp row, vs = vs row,
             vertical_stress_pa = arr_at sigma_v i,
             shear_modulus_pa = arr_at shearModulus i,
             bulk_modulus_pa = arr_at bulkModulus i,
             lame_lambda_pa = arr_at lambda i,
             youngs_modulus_pa = arr_at young i,
             poisson_ratio = arr_at poisson i,
             acoustic_impedance = arr_at acousticZ i,
             shear_impedance = arr_at shearZ i,
             p_modulus_pa = arr_at pModulus i,
             vp_vs_ratio = arr_at vpVsRatio i,
             impedance_gradient_per_m = arr_at impedanceGrad i,
             delta_impedance_prev = arr_at deltaZPrev i,
             lambda_over_mu = arr_at lambdaOverMu i,
             poisson_from_moduli = arr_at poisson_from_modulia i,
             brittleness_e = arr_at brittlenessE i \<rparr>) rows)"

subsection \<open>Strings and header normalisation\<close>

text \<open>
  A string is a list of code units, taken below 256. \<^verbatim>\<open>toLowerCase\<close> is modelled on
  the letters \<open>A\<close> to \<open>Z\<close>; no other code unit below 256 becomes one of \<open>[a-z0-9]\<close> by it,
  and every code unit outside \<open>[a-z0-9]\<close> is turned into a space right afterwards.
  \<^verbatim>\<open>trim\<close> removes the white space and line terminators of ECMAScript that lie below 256.
\<close>

definition is_ws :: "char \<Rightarrow> bool" where
  "is_ws c = (c \<in> set [CHR 0x09, CHR 0x0A, CHR 0x0B, CHR 0x0C, CHR 0x0D, CHR '' '', CHR 0xA0])"

definition trim :: "string \<Rightarrow> string" where
  "trim s = rev (dropWhile is_ws (rev (dropWhile is_ws s)))"

definition lower_char :: "char \<Rightarrow> char" where
  "lower_char c =
     (case map_of (zip ''ABCDEFGHIJKLMNOPQRSTUVWXYZ'' ''abcdefghijklmnopqrstuvwxyz'') c of
        None \<Rightarrow> c | Some d \<Rightarrow> d)"

definition toLowerCase :: "string \<Rightarrow> string" where
  "toLowerCase s = map lower_char s"

text \<open>The character class \<^verbatim>\<open>[a-z0-9]\<close> and the word characters \<^verbatim>\<open>\w\<close> of \<^verbatim>\<open>\b\<close>.\<close>

definition is_lower_alnum :: "char \<Rightarrow> bool" where
  "is_lower_alnum c = (c \<in> set ''abcdefghijklmnopqrstuvwxyz0123456789'')"

definition is_word :: "char \<Rightarrow> bool" where
  "is_word c = (c \<in> set ''abcdefghijklmnopqrstuvwxyz0123456789ABCDEFGHIJKLMNOPQRSTUVWXYZ_'')"

text \<open>
  A header, a mapped column or a hint that may be absent is a \<open>string option\<close>;
  \<^verbatim>\<open>!x\<close> holds of the absent and of the empty string.
\<close>

definition falsy :: "string option \<Rightarrow> bool" where
  "falsy x = (x = None \<or> x = Some [])"

text \<open>\<^verbatim>\<open>String(name||'').trim().toLowerCase()\<close>\<close>

definition normalizeHeader :: "string option \<Rightarrow> string" where
  "normalizeHeader name = toLowerCase (trim (case name of None \<Rightarrow> [] | Some s \<Rightarrow> s))"

text \<open>
  \<^verbatim>\<open>.replace(/[^a-z0-9]+/g, ' ')\<close>: every maximal run of characters outside
  \<^verbatim>\<open>[a-z0-9]\<close> becomes one space. The flag tells that the previous character belonged
  to such a run, whose space has been written.
\<close>

fun replace_runs :: "bool \<Rightarrow> string \<Rightarrow> string" where
  "replace_runs in_run [] = []"
| "replace_runs in_run (c # cs) =
     (if is_lower_alnum c then c # replace_runs False cs
      else if in_run then replace_runs True cs
      else CHR '' '' # replace_runs True cs)"

definition cleaned_of :: "string \<Rightarrow> string" where
  "cleaned_of n = replace_runs False n"

subsection \<open>Regular expressions\<close>

text \<open>
  The fragment of regular expressions that the source uses: characters, the assertions
  \<^verbatim>\<open>\b\<close> and \<^verbatim>\<open>^\<close>, sequence, alternation and the optional \<^verbatim>\<open>?\<close>. A position in the
  subject is the character before it (if any) and the rest of the subject. \<open>rmatch r\<close>
  lists the positions at which a match of \<open>r\<close> that starts at the given position can end,
  and \<^verbatim>\<open>r.test(s)\<close> holds when a match starts at some position of \<open>s\<close>.
\<close>

datatype re = Eps | Chr char | Bnd | Bol | Seq re re | Alt re re | Opt re

type_synonym pos = "char option \<times> string"

definition word_before :: "pos \<Rightarrow> bool" where
  "word_before p = (case fst p of None \<Rightarrow> False | Some c \<Rightarrow> is_word c)"

definition word_after :: "pos \<Rightarrow> bool" where
  "word_after p = (case snd p of [] \<Rightarrow> False | c # cs \<Rightarrow> is_word c)"

fun rmatch :: "re \<Rightarrow> pos \<Rightarrow> pos list" where
  "rmatch Eps p = [p]"
| "rmatch (Chr c) p = (case snd p of [] \<Rightarrow> [] | d # ds \<Rightarrow> if d = c then [(Some d, ds)] else [])"
| "rmatch Bnd p = (if word_before p \<noteq> word_after p then [p] else [])"
| "rmatch Bol p = (if fst p = None then [p] else [])"
| "rmatch (Seq a b) p = concat (map (rmatch b) (rmatch a p))"
| "rmatch (Alt a b) p = rmatch a p @ rmatch b p"
| "rmatch (Opt a) p = rmatch a p @ [p]"

fun positions :: "char option \<Rightarrow> string \<Rightarrow> pos list" where
  "positions prev [] = [(prev, [])]"
| "positions prev (c # cs) = (prev, c # cs) # positions (Some c) cs"

definition test :: "re \<Rightarrow> string \<Rightarrow> bool" where
  "test r s = list_ex (\<lambda>p. rmatch r p \<noteq> []) (positions None s)"

text \<open>A literal string, and a pattern between two \<^verbatim>\<open>\b\<close>.\<close>

definition lit :: "string \<Rightarrow> re" where
  "lit s = foldr (\<lambda>c r. Seq (Chr c) r) s Eps"

definition bounded :: "re \<Rightarrow> re" where
  "bounded r = Seq Bnd (Seq r Bnd)"

text \<open>The patterns of \<^verbatim>\<open>detectColumns\<close>, in the order of the source.\<close>

definition re_depth1 :: re where
  "re_depth1 = bounded (lit ''depth'')"

definition re_depth2 :: re where
  "re_depth2 = bounded (Alt (lit ''depthm'') (Alt (lit ''depth m'') (lit ''depth'')))"

definition re_density :: re where
  "re_density = bounded (Alt (lit ''dens'') (Alt (lit ''density'') (Alt (lit ''rho'') (lit ''kg m''))))"

definition re_vp :: re where
  "re_vp = Alt (bounded (lit ''vp'')) (Alt (bounded (lit ''p vel'')) (Alt (bounded (lit ''p velocity''))
             (Alt (bounded (lit '' p velocity'')) (Alt (bounded (lit ''pwave'')) (bounded (lit ''p-wave''))))))"

definition re_vp_start :: re where
  "re_vp_start = Seq Bol (Seq (lit ''vp'') Bnd)"

definition re_vs :: re where
  "re_vs = Alt (bounded (lit ''vs'')) (Alt (bounded (lit ''s vel'')) (Alt (bounded (lit ''s velocity''))
             (bounded (lit ''shear''))))"

definition re_vs_start :: re where
  "re_vs_start = Seq Bol (Seq (lit ''vs'') Bnd)"

text \<open>The patterns of \<^verbatim>\<open>detectUnitMultiplier\<close>.\<close>

definition re_km_velocity :: re where
  "re_km_velocity = Alt (bounded (lit ''km'')) (Alt (bounded (lit ''km s'')) (bounded (lit ''km/s'')))"

definition re_m_per_s :: re where
  "re_m_per_s = Alt (bounded (lit ''m/s'')) (Alt (bounded (lit ''m s'')) (bounded (lit ''mpersec'')))"

definition re_km :: re where
  "re_km = bounded (lit ''km'')"

definition re_g_per_cc :: re where
  "re_g_per_cc = Alt (Seq (Chr CHR ''g'') (Seq (Opt (Chr CHR ''/'')) (lit ''cc'')))
                   (Alt (lit ''g cm3'') (lit ''gcm3''))"

subsection \<open>detectColumns\<close>

text \<open>
  The mapping under construction is a JavaScript object with the keys \<^verbatim>\<open>depth\<close>,
  \<^verbatim>\<open>density\<close>, \<^verbatim>\<open>vp\<close> and \<^verbatim>\<open>vs\<close>: a map from the key to the header. \<open>detect_step\<close> is
  the body of the loop over the headers, its seven conditional assignments in order.
\<close>

type_synonym colmap = "string \<rightharpoonup> string"

definition detect_step :: "string \<Rightarrow> colmap \<Rightarrow> colmap" where
  "detect_step h m =
     (let raw = h;
          n = normalizeHeader (Some raw);
          cleaned = cleaned_of n;
          m1 = (if test re_depth1 cleaned then m(''depth'' \<mapsto> raw) else m);
          m2 = (if test re_depth2 cleaned then m1(''depth'' \<mapsto> raw) else m1);
          m3 = (if test re_density cleaned then m2(''density'' \<mapsto> raw) else m2);
          m4 = (if test re_vp cleaned then m3(''vp'' \<mapsto> raw) else m3);
          m5 = (if falsy (m4 ''vp'') \<and> test re_vp_start cleaned then m4(''vp'' \<mapsto> raw) else m4);
          m6 = (if test re_vs cleaned then m5(''vs'' \<mapsto> raw) else m5);
          m7 = (if falsy (m6 ''vs'') \<and> test re_vs_start cleaned then m6(''vs'' \<mapsto> raw) else m6)
      in m7)"

definition detectColumns :: "string list \<Rightarrow> colmap" where
  "detectColumns headers = fold detect_step headers Map.empty"

subsection \<open>detectUnitMultiplier\<close>

definition detectUnitMultiplier :: "string option \<Rightarrow> string \<Rightarrow> jsnum" where
  "detectUnitMultiplier header hint =
     (if falsy header then Fin 1
      else
        (let s = cleaned_of (normalizeHeader header) in
         if test re_km_velocity s then Fin 1000
         else if test re_m_per_s s then Fin 1
         else if hint = ''depth'' then (if test re_km s then Fin 1000 else Fin 1)
         else if hint = ''density'' then (if test re_g_per_cc s then Fin 1000 else Fin 1)
         else Fin 1))"

subsection \<open>validateAndPrepare\<close>

text \<open>
  A cell of a raw row is a number, a string, a boolean or \<^verbatim>\<open>null\<close>; a row is an object,
  a map from the header to the cell, and a header without a cell reads \<^verbatim>\<open>undefined\<close>.
  \<^verbatim>\<open>Number(v)\<close> converts: the number itself, \<open>1\<close> and \<open>0\<close> for the booleans, \<open>0\<close> for
  \<^verbatim>\<open>null\<close>, \<open>NaN\<close> for \<^verbatim>\<open>undefined\<close>. The conversion of a string, the StringToNumber of
  ECMAScript, is the parameter \<open>str_num\<close> of the model: every statement below holds for each
  such function.
\<close>

datatype cell = CNum jsnum | CStr string | CBool bool | CNull | CUndefined

type_synonym raw_row = "string \<rightharpoonup> cell"

fun Number :: "(string \<Rightarrow> jsnum) \<Rightarrow> cell option \<Rightarrow> jsnum" where
  "Number str_num None = NaN"
| "Number str_num (Some CUndefined) = NaN"
| "Number str_num (Some CNull) = Fin 0"
| "Number str_num (Some (CBool b)) = (if b then Fin 1 else Fin 0)"
| "Number str_num (Some (CNum x)) = x"
| "Number str_num (Some (CStr s)) = str_num s"

text \<open>An exception \<^verbatim>\<open>new Error(message)\<close>.\<close>

datatype error = Error string

text \<open>\<^verbatim>\<open>xs.join(sep)\<close>\<close>

fun join :: "string \<Rightarrow> string list \<Rightarrow> string" where
  "join sep [] = []"
| "join sep [x] = x"
| "join sep (x # y # ys) = x @ sep @ join sep (y # ys)"

text \<open>
  \<^verbatim>\<open>row[cols.k]\<close>: the property key of an absent header would be the string
  \<^verbatim>\<open>undefined\<close>; the loop runs only when all four headers are present.
\<close>

definition cell_of :: "raw_row \<Rightarrow> string option \<Rightarrow> cell option" where
  "cell_of row header = row (case header of None \<Rightarrow> ''undefined'' | Some h \<Rightarrow> h)"

text \<open>
  The body of the loop over the rows: \<open>None\<close> is the \<^verbatim>\<open>continue\<close> of a skipped row,
  \<open>Some\<close> the sample pushed. The four values are numbers, so of the three tests of the
  source (\<^verbatim>\<open>=== null\<close>, \<^verbatim>\<open>=== undefined\<close>, \<^verbatim>\<open>Number.isNaN\<close>) only the last can hold.
\<close>

definition prepare_row :: "(string \<Rightarrow> jsnum) \<Rightarrow> colmap \<Rightarrow> raw_row \<Rightarrow> sample option" where
  "prepare_row str_num cols row =
     (let depthHeader = cols ''depth'';
          densityHeader = cols ''density'';
          vpHeader = cols ''vp'';
          vsHeader = cols ''vs'';
          depthMult = detectUnitMultiplier depthHeader ''depth'';
          densMult = detectUnitMultiplier densityHeader ''density'';
          vpMult = detectUnitMultiplier vpHeader ''velocity'';
          vsMult = detectUnitMultiplier vsHeader ''velocity'';
          dRaw = Number str_num (cell_of row depthHeader);
          rhoRaw = Number str_num (cell_of row densityHeader);
          vpRaw = Number str_num (cell_of row vpHeader);
          vsRaw = Number str_num (cell_of row vsHeader);
          d = (if isFinite dRaw then jmul dRaw depthMult else dRaw);
          rho = (if isFinite rhoRaw then jmul rhoRaw densMult else rhoRaw);
          vpv = (if isFinite vpRaw then jmul vpRaw vpMult else vpRaw);
          vsv = (if isFinite vsRaw then jmul vsRaw vsMult else vsRaw)
      in if list_ex isNaN [d, rho, vpv, vsv] then None
         else Some \<lparr>depth = d, density = rho, vp = vpv, vs = vsv\<rparr>)"

definition row_step :: "(string \<Rightarrow> jsnum) \<Rightarrow> colmap \<Rightarrow> raw_row \<Rightarrow> sample list \<Rightarrow> sample list" where
  "row_step str_num cols row arr =
     (case prepare_row str_num cols row of None \<Rightarrow> arr | Some s \<Rightarrow> arr @ [s])"

text \<open>
  \<^verbatim>\<open>arr.sort(cmp)\<close>. ECMAScript specifies the sort as stable and, for a comparator that
  is consistent on the array, as producing the order of the comparator; a comparator result
  \<open>NaN\<close> counts as \<open>0\<close>. The model is the stable insertion sort driven by the comparator: an
  element moves behind another one only when the comparator, applied to the two in this
  order, is positive.
\<close>

fun insert_cmp :: "('a \<Rightarrow> 'a \<Rightarrow> jsnum) \<Rightarrow> 'a \<Rightarrow> 'a list \<Rightarrow> 'a list" where
  "insert_cmp cmp x [] = [x]"
| "insert_cmp cmp x (y # ys) =
     (if jlt (Fin 0) (cmp x y) then y # insert_cmp cmp x ys else x # y # ys)"

definition Array_sort :: "('a \<Rightarrow> 'a \<Rightarrow> jsnum) \<Rightarrow> 'a list \<Rightarrow> 'a list" where
  "Array_sort cmp xs = foldr (insert_cmp cmp) xs []"

definition validateAndPrepare ::
  "(string \<Rightarrow> jsnum) \<Rightarrow> raw_row list \<Rightarrow> colmap \<Rightarrow> error + sample list" where
  "validateAndPrepare str_num data cols =
     (let keys = [''depth'', ''density'', ''vp'', ''vs''];
          missing = filter (\<lambda>k. falsy (cols k)) keys
      in if length missing \<noteq> 0 then Inl (Error (''Missing columns: '' @ join '', '' missing))
         else
           (let arr = fold (row_step str_num cols) data []
            in if length arr = 0 then Inl (Error ''No valid numeric rows found.'')
               else Inr (Array_sort (\<lambda>a b. jsub (depth a) (depth b)) arr)))"

subsection \<open>The stress integral as the specification words it\<close>


subsection \<open>The patterns of a canonical field\<close>

text \<open>
  A header matches a field when one of the patterns that \<^verbatim>\<open>detectColumns\<close> tests for
  the field matches the cleaned header.
\<close>

definition header_matches :: "string \<Rightarrow> string \<Rightarrow> bool" where
  "header_matches k h =
     (let cleaned = cleaned_of (normalizeHeader (Some h))
      in if k = ''depth'' then test re_depth1 cleaned \<or> test re_depth2 cleaned
         else if k = ''density'' then test re_density cleaned
         else if k = ''vp'' then test re_vp cleaned \<or> test re_vp_start cleaned
         else if k = ''vs'' then test re_vs cleaned \<or> test re_vs_start cleaned
         else False)"

subsection \<open>Closed forms used in the statements\<close>



text \<open>The real numbers among a list of JavaScript numbers.\<close>

fun finite_vals :: "jsnum list \<Rightarrow> real list" where
  "finite_vals [] = []"
| "finite_vals (Fin e # xs) = e # finite_vals xs"
| "finite_vals (x # xs) = finite_vals xs"

subsection \<open>Example inputs\<close>

text \<open>
  Three samples of which the second has equal velocities, and two samples at the same
  depth.
\<close>

definition example_rows :: "sample list" where
  "example_rows =
     [\<lparr>depth = Fin 0, density = Fin 2500, vp = Fin 3000, vs = Fin 1500\<rparr>,
      \<lparr>depth = Fin 10, density = Fin 2600, vp = Fin 3200, vs = Fin 3200\<rparr>,
      \<lparr>depth = Fin 20, density = Fin 2600, vp = Fin 3200, vs = Fin 1600\<rparr>]"


subsection \<open>Notions used in the statements about validateAndPrepare\<close>

text \<open>The order of two numbers neither of which is \<open>NaN\<close>.\<close>

definition jle :: "jsnum \<Rightarrow> jsnum \<Rightarrow> bool" where
  "jle a b = (a \<noteq> NaN \<and> b \<noteq> NaN \<and> (a = b \<or> jlt a b))"

text \<open>
  The value of the field \<open>k\<close> of a row after the lookup under the mapped header, the
  conversion to a number and the multiplication by the unit multiplier of the kind \<open>hint\<close>.
\<close>

definition coerced :: "(string \<Rightarrow> jsnum) \<Rightarrow> colmap \<Rightarrow> raw_row \<Rightarrow> string \<Rightarrow> string \<Rightarrow> jsnum" where
  "coerced str_num cols row k hint =
     (let raw = Number str_num (cell_of row (cols k))
      in if isFinite raw then jmul raw (detectUnitMultiplier (cols k) hint) else raw)"

text \<open>The samples that the loop over the rows pushes, in the order of the rows.\<close>

definition survivors :: "(string \<Rightarrow> jsnum) \<Rightarrow> colmap \<Rightarrow> raw_row list \<Rightarrow> sample list" where
  "survivors str_num cols data = List.map_filter (prepare_row str_num cols) data"

subsection \<open>Example mappings and rows\<close>

text \<open>
  No numeric string occurs in the examples: they take for the conversion of strings the
  function that is \<open>NaN\<close> everywhere, which is what ECMAScript gives for their only string
  cell, \<^verbatim>\<open>n/a\<close>.
\<close>

definition str_num_nan :: "string \<Rightarrow> jsnum" where
  "str_num_nan s = NaN"

definition example_cols :: colmap where
  "example_cols = [''depth'' \<mapsto> ''Depth'', ''density'' \<mapsto> ''Density'', ''vp'' \<mapsto> ''Vp_Km/s'', ''vs'' \<mapsto> ''Vs'']"

definition partial_cols :: colmap where
  "partial_cols = [''depth'' \<mapsto> ''Depth'', ''density'' \<mapsto> [], ''vp'' \<mapsto> ''Vp_Km/s'']"

definition example_data :: "raw_row list" where
  "example_data =
     [[''Depth'' \<mapsto> CNum (Fin 20), ''Density'' \<mapsto> CNum (Fin 2600), ''Vp_Km/s'' \<mapsto> CNum (Fin (32 / 10)), ''Vs'' \<mapsto> CNum (Fin 1600)],
      [''Depth'' \<mapsto> CNum (Fin 10), ''Density'' \<mapsto> CNull, ''Vp_Km/s'' \<mapsto> CNum (Fin 3), ''Vs'' \<mapsto> CNum (Fin 1500)],
      [''Depth'' \<mapsto> CNum (Fin 15), ''Density'' \<mapsto> CNum (Fin 2500), ''Vp_Km/s'' \<mapsto> CStr ''n/a'', ''Vs'' \<mapsto> CNum (Fin 1500)],
      [''Depth'' \<mapsto> CNum PInf, ''Density'' \<mapsto> CNum (Fin 2500), ''Vp_Km/s'' \<mapsto> CNum (Fin 3), ''Vs'' \<mapsto> CNum (Fin 1500)],
      [''Depth'' \<mapsto> CNum (Fin 12), ''Density'' \<mapsto> CNum (Fin 2400), ''Vp_Km/s'' \<mapsto> CNum (Fin 3)],
      [''Depth'' \<mapsto> CNum (Fin 10), ''Density'' \<mapsto> CNum (Fin 2700), ''Vp_Km/s'' \<mapsto> CNum (Fin (33 / 10)), ''Vs'' \<mapsto> CNum (Fin 1700)]]"

definition invalid_data :: "raw_row list" where
  "invalid_data =
     [[''Depth'' \<mapsto> CNum (Fin 15), ''Density'' \<mapsto> CNum (Fin 2500), ''Vp_Km/s'' \<mapsto> CStr ''n/a'', ''Vs'' \<mapsto> CNum (Fin 1500)],
      [''Depth'' \<mapsto> CNum (Fin 12), ''Density'' \<mapsto> CNum (Fin 2400), ''Vp_Km/s'' \<mapsto> CNum (Fin 3)],
      [''Depth'' \<mapsto> CNum NaN, ''Density'' \<mapsto> CNum (Fin 2400), ''Vp_Km/s'' \<mapsto> CNum (Fin 3), ''Vs'' \<mapsto> CUndefined]]"

text \<open>The headers of a file with two columns for the P-wave velocity.\<close>

definition example_headers :: "string list" where
  "example_headers = [''Depth (m)'', ''Density'', ''Vp_Km/s'', ''Vs_Km/s'', ''vp2'', ''Vp (m/s)'']"

subsection \<open>computeParameters in the arithmetic of doubles\<close>

text \<open>
  The definitions above compute on finite numbers exactly. An operation on doubles rounds
  its exact result to a double and overflows to an infinity. The following copy of
  \<^verbatim>\<open>computeParameters\<close> takes this arithmetic as two parameters. \<open>fl x\<close> is the double that
  an operation \<^verbatim>\<open>+\<close>, \<^verbatim>\<open>-\<close>, \<^verbatim>\<open>*\<close> or \<^verbatim>\<open>/\<close> on finite operands returns when its exact
  result is \<open>x\<close>, a finite number or an infinity, and the value of the decimal literal \<open>x\<close>;
  \<open>pw x\<close> is the result of \<^verbatim>\<open>Math.pow(x, 2)\<close> for a finite \<open>x\<close>. The operations on an
  infinity or \<open>NaN\<close> are the ones above. With \<open>fl = Fin\<close> and \<open>pw x = Fin (x * x)\<close> the copy is
  the function above.
\<close>

fun jadd_fl :: "(real \<Rightarrow> jsnum) \<Rightarrow> jsnum \<Rightarrow> jsnum \<Rightarrow> jsnum" where
  "jadd_fl fl (Fin x) (Fin y) = fl (x + y)"
| "jadd_fl fl a b = jadd a b"

definition jsub_fl :: "(real \<Rightarrow> jsnum) \<Rightarrow> jsnum \<Rightarrow> jsnum \<Rightarrow> jsnum" where
  "jsub_fl fl a b = jadd_fl fl a (jneg b)"

fun jmul_fl :: "(real \<Rightarrow> jsnum) \<Rightarrow> jsnum \<Rightarrow> jsnum \<Rightarrow> jsnum" where
  "jmul_fl fl (Fin x) (Fin y) = fl (x * y)"
| "jmul_fl fl a b = jmul a b"

fun jdiv_fl :: "(real \<Rightarrow> jsnum) \<Rightarrow> jsnum \<Rightarrow> jsnum \<Rightarrow> jsnum" where
  "jdiv_fl fl (Fin x) (Fin y) = (if y = 0 then jdiv (Fin x) (Fin y) else fl (x / y))"
| "jdiv_fl fl a b = jdiv a b"

fun Math_pow2_fl :: "(real \<Rightarrow> jsnum) \<Rightarrow> jsnum \<Rightarrow> jsnum" where
  "Math_pow2_fl pw (Fin x) = pw x"
| "Math_pow2_fl pw a = Math_pow2 a"

text \<open>\<^verbatim>\<open>const g = 9.81;\<close>\<close>

definition g_fl :: "(real \<Rightarrow> jsnum) \<Rightarrow> jsnum" where
  "g_fl fl = fl (981 / 100)"

text \<open>
  The loops and the callbacks of \<^verbatim>\<open>computeParameters\<close> once more, in the order of the
  source; \<^verbatim>\<open>4/3\<close> is a division of doubles and \<^verbatim>\<open>1e-12\<close> a decimal literal.
\<close>

definition sigma_step_fl :: "(real \<Rightarrow> jsnum) \<Rightarrow> jsnum list \<Rightarrow> jsnum list \<Rightarrow> nat \<Rightarrow> jsnum \<times> jsnum list \<Rightarrow> jsnum \<times> jsnum list" where
  "sigma_step_fl fl depths rho i st =
     (let acc = fst st; sigma_v = snd st;
          dz = jsub_fl fl (arr_at depths i) (arr_at depths (i - 1));
          area = jmul_fl fl (jmul_fl fl (Fin (1 / 2)) (jadd_fl fl (arr_at rho i) (arr_at rho (i - 1)))) dz;
          acc' = jadd_fl fl acc area
      in (acc', sigma_v[i := jmul_fl fl acc' (g_fl fl)]))"

definition sigma_v_of_fl :: "(real \<Rightarrow> jsnum) \<Rightarrow> jsnum list \<Rightarrow> jsnum list \<Rightarrow> jsnum list" where
  "sigma_v_of_fl fl depths rho =
     (let n = length depths;
          sigma_v0 = (if n = 0 then [Fin 0] else (replicate n (Fin 0))[0 := Fin 0])
      in snd (fold (sigma_step_fl fl depths rho) [1..<n] (Fin 0, sigma_v0)))"

definition grad_step_fl :: "(real \<Rightarrow> jsnum) \<Rightarrow> jsnum list \<Rightarrow> jsnum list \<Rightarrow> nat \<Rightarrow> jsnum list \<Rightarrow> jsnum list" where
  "grad_step_fl fl depths acousticZ i impedanceGrad =
     (let n = length depths in
      if i = 0 then
        (let dz = jsub_fl fl (arr_at depths (i + 1)) (arr_at depths i)
         in impedanceGrad[i := (if truthy dz then jdiv_fl fl (jsub_fl fl (arr_at acousticZ 1) (arr_at acousticZ 0)) dz else NaN)])
      else if i = n - 1 then
        (let dz = jsub_fl fl (arr_at depths i) (arr_at depths (i - 1))
         in impedanceGrad[i := (if truthy dz then jdiv_fl fl (jsub_fl fl (arr_at acousticZ i) (arr_at acousticZ (i - 1))) dz else NaN)])
      else
        (let dz = jsub_fl fl (arr_at depths (i + 1)) (arr_at depths (i - 1))
         in impedanceGrad[i := (if truthy dz then jdiv_fl fl (jsub_fl fl (arr_at acousticZ (i + 1)) (arr_at acousticZ (i - 1))) dz else NaN)]))"

definition impedanceGrad_of_fl :: "(real \<Rightarrow> jsnum) \<Rightarrow> jsnum list \<Rightarrow> jsnum list \<Rightarrow> jsnum list" where
  "impedanceGrad_of_fl fl depths acousticZ =
     (let n = length depths
      in fold (grad_step_fl fl depths acousticZ) [0..<n] (replicate n NaN))"

definition deltaZPrev_of_fl :: "(real \<Rightarrow> jsnum) \<Rightarrow> jsnum list \<Rightarrow> jsnum list" where
  "deltaZPrev_of_fl fl acousticZ =
     (let n = length acousticZ
      in fold (\<lambda>i deltaZPrev. deltaZPrev[i := jsub_fl fl (arr_at acousticZ i) (arr_at acousticZ (i - 1))])
           [1..<n] (replicate n (Fin 0)))"

definition poisson_of_fl :: "(real \<Rightarrow> jsnum) \<Rightarrow> (real \<Rightarrow> jsnum) \<Rightarrow> jsnum list \<Rightarrow> jsnum list \<Rightarrow> jsnum list" where
  "poisson_of_fl fl pw vpa vsa =
     mapi (\<lambda>vpi i.
       (let denom = jmul_fl fl (Fin 2) (jsub_fl fl (Math_pow2_fl pw vpi) (Math_pow2_fl pw (arr_at vsa i)))
        in if jlt (Math_abs denom) (fl (1 / 10 ^ 12)) then NaN
           else jdiv_fl fl (jsub_fl fl (Math_pow2_fl pw vpi) (jmul_fl fl (Fin 2) (Math_pow2_fl pw (arr_at vsa i)))) denom)) vpa"

definition young_of_fl :: "(real \<Rightarrow> jsnum) \<Rightarrow> jsnum list \<Rightarrow> jsnum list \<Rightarrow> jsnum list" where
  "young_of_fl fl shearModulus poisson =
     mapi (\<lambda>G i.
       (let nu = arr_at poisson i
        in if \<not> isFinite nu then NaN else jmul_fl fl (jmul_fl fl (Fin 2) G) (jadd_fl fl (Fin 1) nu))) shearModulus"

definition poisson_from_moduli_of_fl :: "(real \<Rightarrow> jsnum) \<Rightarrow> jsnum list \<Rightarrow> jsnum list \<Rightarrow> jsnum list" where
  "poisson_from_moduli_of_fl fl bulkModulus shearModulus =
     mapi (\<lambda>K i.
       (let G = arr_at shearModulus i;
            denom = jmul_fl fl (Fin 2) (jadd_fl fl (jmul_fl fl (Fin 3) K) G)
        in if jlt (Math_abs denom) (fl (1 / 10 ^ 12)) then NaN
           else jdiv_fl fl (jsub_fl fl (jmul_fl fl (Fin 3) K) (jmul_fl fl (Fin 2) G)) denom)) bulkModulus"

definition Evals_of_fl :: "(real \<Rightarrow> jsnum) \<Rightarrow> jsnum list \<Rightarrow> jsnum list \<Rightarrow> jsnum list" where
  "Evals_of_fl fl shearModulus poisson =
     filter isFinite
       (mapi (\<lambda>G i.
          (let nu = arr_at poisson i
           in if isFinite nu then jmul_fl fl (jmul_fl fl (Fin 2) G) (jadd_fl fl (Fin 1) nu) else NaN)) shearModulus)"

definition brittlenessE_of_fl :: "(real \<Rightarrow> jsnum) \<Rightarrow> jsnum list \<Rightarrow> jsnum list \<Rightarrow> jsnum list" where
  "brittlenessE_of_fl fl young Evals =
     (let E_min = (if length Evals \<noteq> 0 then Math_min Evals else NaN);
          E_max = (if length Evals \<noteq> 0 then Math_max Evals else NaN)
      in mapi (\<lambda>E i.
           if \<not> isFinite E \<or> \<not> isFinite E_min \<or> strict_eq E_max E_min then NaN
           else jdiv_fl fl (jsub_fl fl E E_min) (jsub_fl fl E_max E_min)) young)"

definition computeParameters_fl :: "(real \<Rightarrow> jsnum) \<Rightarrow> (real \<Rightarrow> jsnum) \<Rightarrow> sample list \<Rightarrow> derived list" where
  "computeParameters_fl fl pw rows =
     (let depths = map depth rows;
          rho = map density rows;
          vpa = map vp rows;
          vsa = map vs rows;
          sigma_v = sigma_v_of_fl fl depths rho;
          shearModulus = mapi (\<lambda>r i. jmul_fl fl r (Math_pow2_fl pw (arr_at vsa i))) rho;
          bulkModulus = mapi (\<lambda>r i. jmul_fl fl r (jsub_fl fl (Math_pow2_fl pw (arr_at vpa i))
                                   (jmul_fl fl (jdiv_fl fl (Fin 4) (Fin 3)) (Math_pow2_fl pw (arr_at vsa i))))) rho;
          lambda = mapi (\<lambda>r i. jmul_fl fl r (jsub_fl fl (Math_pow2_fl pw (arr_at vpa i))
                                   (jmul_fl fl (Fin 2) (Math_pow2_fl pw (arr_at vsa i))))) rho;
          poisson = poisson_of_fl fl pw vpa vsa;
          young = young_of_fl fl shearModulus poisson;
          acousticZ = mapi (\<lambda>r i. jmul_fl fl r (arr_at vpa i)) rho;
          shearZ = mapi (\<lambda>r i. jmul_fl fl r (arr_at vsa i)) rho;
          pModulus = mapi (\<lambda>r i. jmul_fl fl r (Math_pow2_fl pw (arr_at vpa i))) rho;
          vpVsRatio = mapi (\<lambda>vpi i. if \<not> strict_eq (arr_at vsa i) (Fin 0) then jdiv_fl fl vpi (arr_at vsa i) else NaN) vpa;
          impedanceGrad = impedanceGrad_of_fl fl depths acousticZ;
          deltaZPrev = deltaZPrev_of_fl fl acousticZ;
          lambdaOverMu = mapi (\<lambda>lam i. if truthy (arr_at shearModulus i)
                                         then jdiv_fl fl lam (arr_at shearModulus i) else NaN) lambda;
          poisson_from_modulia = poisson_from_moduli_of_fl fl bulkModulus shearModulus;
          brittlenessE = brittlenessE_of_fl fl young (Evals_of_fl fl shearModulus poisson)
      in mapi (\<lambda>row i.
           \<lparr> depth = depth row, density = density row, vp = vp row, vs = vs row,
             vertical_stress_pa = arr_at sigma_v i,
             shear_modulus_pa = arr_at shearModulus i,
             bulk_modulus_pa = arr_at bulkModulus i,
             lame_lambda_pa = arr_at lambda i,
             youngs_modulus_pa = arr_at young i,
             poisson_ratio = arr_at poisson i,
             acoustic_impedance = arr_at acousticZ i,
             shear_impedance = arr_at shearZ i,
             p_modulus_pa = arr_at pModulus i,
             vp_vs_ratio = arr_at vpVsRatio i,
             impedance_gradient_per_m = arr_at impedanceGrad i,
             delta_impedance_prev = arr_at deltaZPrev i,
             lambda_over_mu = arr_at lambdaOverMu i,
             poisson_from_moduli = arr_at poisson_from_modulia i,
             brittleness_e = arr_at brittlenessE i \<rparr>) rows)"

text \<open>
  The properties of rounding to the nearest double that the statements on the brittleness
  use: zero and one are doubles, the literal \<^verbatim>\<open>1e-12\<close> is positive, no rounding gives
  \<open>NaN\<close>, a rounded number is a double (\<open>fl y = Fin y\<close> says that \<open>y\<close> is a double), and the
  difference of two distinct doubles does not round to zero.
\<close>

definition rounding :: "(real \<Rightarrow> jsnum) \<Rightarrow> bool" where
  "rounding fl =
     (fl 0 = Fin 0 \<and> fl 1 = Fin 1 \<and> jlt (Fin 0) (fl (1 / 10 ^ 12)) \<and>
      (\<forall>x. fl x \<noteq> NaN) \<and>
      (\<forall>x y. fl x = Fin y \<longrightarrow> fl y = Fin y) \<and>
      (\<forall>a b. fl a = Fin a \<and> fl b = Fin b \<and> a \<noteq> b \<longrightarrow> fl (b - a) \<noteq> Fin 0))"

text \<open>A number is finite and at most \<open>b\<close> in absolute value.\<close>

fun in_range :: "jsnum \<Rightarrow> real \<Rightarrow> bool" where
  "in_range (Fin y) b = (\<bar>y\<bar> \<le> b)"
| "in_range a b = False"

text \<open>
  The further properties of the doubles that the statements on the range of the results
  use. A natural number up to \<open>2\<^sup>5\<^sup>3\<close> times a power of two up to \<open>2\<^sup>9\<^sup>7\<^sup>0\<close> is a double.
  Rounding is monotone: a number that is at most the double \<open>b\<close> in absolute value rounds
  to a finite number that is at most \<open>b\<close>, and so does \<^verbatim>\<open>Math.pow(x, 2)\<close> when \<open>x\<^sup>2\<close> is at
  most \<open>b\<close>. The result of \<^verbatim>\<open>Math.pow(x, 2)\<close> is a double when it is finite. Rounding
  commutes with the change of sign. The double of a double up to \<open>2\<^sup>1\<^sup>0\<^sup>2\<^sup>2\<close> is a double. The
  literal \<^verbatim>\<open>1e-12\<close> is greater than \<open>2\<^sup>-\<^sup>4\<^sup>0\<close>.
\<close>

definition bounded_rounding :: "(real \<Rightarrow> jsnum) \<Rightarrow> (real \<Rightarrow> jsnum) \<Rightarrow> bool" where
  "bounded_rounding fl pw =
     ((\<forall>m k. m \<le> 2 ^ 53 \<and> k \<le> 970 \<longrightarrow> fl (real m * 2 ^ k) = Fin (real m * 2 ^ k)) \<and>
      (\<forall>x b. fl b = Fin b \<and> \<bar>x\<bar> \<le> b \<longrightarrow> in_range (fl x) b) \<and>
      (\<forall>x b. fl b = Fin b \<and> x * x \<le> b \<longrightarrow> in_range (pw x) b) \<and>
      (\<forall>x y. pw x = Fin y \<longrightarrow> fl y = Fin y) \<and>
      (\<forall>x. fl (- x) = jneg (fl x)) \<and>
      (\<forall>y. fl y = Fin y \<and> \<bar>y\<bar> \<le> 2 ^ 1022 \<longrightarrow> fl (2 * y) = Fin (2 * y)) \<and>
      jlt (Fin (1 / 2 ^ 40)) (fl (1 / 10 ^ 12)))"

text \<open>
  An arithmetic that is exact within the range of the doubles and gives an infinity from
  \<open>2\<^sup>1\<^sup>0\<^sup>2\<^sup>4\<close> on. It has the properties above. It agrees with the doubles on every operation
  whose exact result is a double or is at least \<open>2\<^sup>1\<^sup>0\<^sup>2\<^sup>4\<close> in absolute value, and differs
  from them only in that it does not round. In the examples below this concerns the literals
  \<^verbatim>\<open>9.81\<close> and \<^verbatim>\<open>1e-12\<close>, the quotient \<^verbatim>\<open>4/3\<close> and the products with them. A value that is
  stated for an example and depends on one of them is the outcome of the comparison of zero
  or of sixteen with \<^verbatim>\<open>1e-12\<close>, a product with zero or with an infinity, or the finiteness of
  a result far below \<open>2\<^sup>1\<^sup>0\<^sup>2\<^sup>3\<close>; these are the same in both arithmetics.
\<close>

definition fl_overflow :: "real \<Rightarrow> jsnum" where
  "fl_overflow x = (if 2 ^ 1024 \<le> x then PInf else if x \<le> - (2 ^ 1024) then NInf else Fin x)"

definition pw_overflow :: "real \<Rightarrow> jsnum" where
  "pw_overflow x = fl_overflow (x * x)"

text \<open>
  Poisson's ratio and Young's modulus of one sample, as the callbacks of \<^verbatim>\<open>poisson\<close> and
  \<^verbatim>\<open>young\<close> compute them from the density and the two velocities.
\<close>

definition poisson_val_fl :: "(real \<Rightarrow> jsnum) \<Rightarrow> (real \<Rightarrow> jsnum) \<Rightarrow> jsnum \<Rightarrow> jsnum \<Rightarrow> jsnum" where
  "poisson_val_fl fl pw vpi vsi =
     (let denom = jmul_fl fl (Fin 2) (jsub_fl fl (Math_pow2_fl pw vpi) (Math_pow2_fl pw vsi))
      in if jlt (Math_abs denom) (fl (1 / 10 ^ 12)) then NaN
         else jdiv_fl fl (jsub_fl fl (Math_pow2_fl pw vpi) (jmul_fl fl (Fin 2) (Math_pow2_fl pw vsi))) denom)"

definition young_val_fl :: "(real \<Rightarrow> jsnum) \<Rightarrow> (real \<Rightarrow> jsnum) \<Rightarrow> jsnum \<Rightarrow> jsnum \<Rightarrow> jsnum \<Rightarrow> jsnum" where
  "young_val_fl fl pw r vpi vsi =
     (let G = jmul_fl fl r (Math_pow2_fl pw vsi); nu = poisson_val_fl fl pw vpi vsi
      in if \<not> isFinite nu then NaN else jmul_fl fl (jmul_fl fl (Fin 2) G) (jadd_fl fl (Fin 1) nu))"

text \<open>
  The area that iteration \<open>i\<close> of the loop over \<^verbatim>\<open>sigma_v\<close> adds, and the value of \<^verbatim>\<open>acc\<close> after
  iteration \<open>i\<close>.
\<close>

definition area_fl :: "(real \<Rightarrow> jsnum) \<Rightarrow> jsnum list \<Rightarrow> jsnum list \<Rightarrow> nat \<Rightarrow> jsnum" where
  "area_fl fl depths rho i =
     (let dz = jsub_fl fl (arr_at depths i) (arr_at depths (i - 1))
      in jmul_fl fl (jmul_fl fl (Fin (1 / 2)) (jadd_fl fl (arr_at rho i) (arr_at rho (i - 1)))) dz)"

primrec acc_fl :: "(real \<Rightarrow> jsnum) \<Rightarrow> jsnum list \<Rightarrow> jsnum list \<Rightarrow> nat \<Rightarrow> jsnum" where
  "acc_fl fl depths rho 0 = Fin 0"
| "acc_fl fl depths rho (Suc i) = jadd_fl fl (acc_fl fl depths rho i) (area_fl fl depths rho (Suc i))"

text \<open>
  The depth span \<^verbatim>\<open>dz\<close> of the branch that the loop over \<^verbatim>\<open>impedanceGrad\<close> takes at index
  \<open>i\<close>, and the value that it assigns.
\<close>

definition grad_span_fl :: "(real \<Rightarrow> jsnum) \<Rightarrow> jsnum list \<Rightarrow> nat \<Rightarrow> jsnum" where
  "grad_span_fl fl depths i =
     (let n = length depths;
          hi = (if i = 0 then i + 1 else if i = n - 1 then i else i + 1);
          lo = (if i = 0 then i else i - 1)
      in jsub_fl fl (arr_at depths hi) (arr_at depths lo))"

definition grad_val_fl :: "(real \<Rightarrow> jsnum) \<Rightarrow> jsnum list \<Rightarrow> jsnum list \<Rightarrow> nat \<Rightarrow> jsnum" where
  "grad_val_fl fl depths acousticZ i =
     (let n = length depths;
          hi = (if i = 0 then i + 1 else if i = n - 1 then i else i + 1);
          lo = (if i = 0 then i else i - 1);
          dz = jsub_fl fl (arr_at depths hi) (arr_at depths lo)
      in if truthy dz then jdiv_fl fl (jsub_fl fl (arr_at acousticZ hi) (arr_at acousticZ lo)) dz else NaN)"

text \<open>
  Inputs in which every number is a double. The samples of \<open>small_rows\<close>, \<open>big_rows\<close> and
  \<open>infinite_rows\<close> have the Poisson ratio \<open>7/16\<close> and differ in the density, so that their
  Young's moduli are \<open>23/8\<close> times the density; in \<open>big_rows\<close> the difference of the largest
  and the smallest modulus exceeds the doubles, in \<open>infinite_rows\<close> the largest modulus
  does. \<open>still_rows\<close> is one sample with both velocities zero; in \<open>huge_rows\<close> the squares of
  the velocities exceed the doubles.
\<close>

definition small_rows :: "sample list" where
  "small_rows =
     [\<lparr>depth = Fin 0, density = Fin 1, vp = Fin 3, vs = Fin 1\<rparr>,
      \<lparr>depth = Fin 10, density = Fin 2, vp = Fin 3, vs = Fin 1\<rparr>,
      \<lparr>depth = Fin 20, density = Fin 4, vp = Fin 3, vs = Fin 1\<rparr>]"

definition big_rows :: "sample list" where
  "big_rows =
     [\<lparr>depth = Fin 0, density = Fin (2 ^ 1022), vp = Fin 3, vs = Fin 1\<rparr>,
      \<lparr>depth = Fin 10, density = Fin (- (2 ^ 1022)), vp = Fin 3, vs = Fin 1\<rparr>,
      \<lparr>depth = Fin 20, density = Fin 1, vp = Fin 3, vs = Fin 1\<rparr>]"

definition infinite_rows :: "sample list" where
  "infinite_rows =
     [\<lparr>depth = Fin 0, density = Fin (2 ^ 1023), vp = Fin 3, vs = Fin 1\<rparr>,
      \<lparr>depth = Fin 10, density = Fin 2, vp = Fin 3, vs = Fin 1\<rparr>,
      \<lparr>depth = Fin 20, density = Fin 1, vp = Fin 3, vs = Fin 1\<rparr>]"

definition still_rows :: "sample list" where
  "still_rows = [\<lparr>depth = Fin 0, density = Fin 2500, vp = Fin 0, vs = Fin 0\<rparr>]"

definition huge_rows :: "sample list" where
  "huge_rows =
     [\<lparr>depth = Fin 0, density = Fin (2 ^ 1000), vp = Fin (2 ^ 600), vs = Fin (2 ^ 600)\<rparr>,
      \<lparr>depth = Fin (2 ^ 100), density = Fin (2 ^ 1000), vp = Fin (2 ^ 600), vs = Fin (2 ^ 600)\<rparr>]"

section \<open>Properties\<close>

subsection \<open>The arithmetic of doubles\<close>

text \<open>
  With the exact operations for \<open>fl\<close> and \<open>pw\<close>, the copy of \<^verbatim>\<open>computeParameters\<close> with an
  arithmetic as parameter is the function on exact numbers.
\<close>

lemma jadd_fl_exact: "jadd_fl Fin = jadd"
proof (intro ext)
  fix a b show "jadd_fl Fin a b = jadd a b"
    by (cases a; cases b) simp_all
qed

lemma jmul_fl_exact: "jmul_fl Fin = jmul"
proof (intro ext)
  fix a b show "jmul_fl Fin a b = jmul a b"
    by (cases a; cases b) simp_all
qed

lemma jdiv_fl_exact: "jdiv_fl Fin = jdiv"
proof (intro ext)
  fix a b show "jdiv_fl Fin a b = jdiv a b"
    by (cases a; cases b) simp_all
qed

lemma jsub_fl_exact: "jsub_fl Fin = jsub"
  by (intro ext) (simp add: jsub_fl_def jsub_def jadd_fl_exact)

lemma Math_pow2_fl_exact: "Math_pow2_fl (\<lambda>x. Fin (x * x)) = Math_pow2"
proof (intro ext)
  fix a show "Math_pow2_fl (\<lambda>x. Fin (x * x)) a = Math_pow2 a"
    by (cases a) simp_all
qed

lemma sigma_v_of_fl_exact: "sigma_v_of_fl Fin = sigma_v_of"
proof -
  have step: "sigma_step_fl Fin = sigma_step"
    by (intro ext, unfold sigma_step_fl_def sigma_step_def g_fl_def g_def jadd_fl_exact jmul_fl_exact jsub_fl_exact) (rule refl)
  show ?thesis
    by (intro ext, unfold sigma_v_of_fl_def sigma_v_of_def step) (rule refl)
qed

lemma impedanceGrad_of_fl_exact: "impedanceGrad_of_fl Fin = impedanceGrad_of"
proof -
  have step: "grad_step_fl Fin = grad_step"
    by (intro ext, unfold grad_step_fl_def grad_step_def jdiv_fl_exact jsub_fl_exact) (rule refl)
  show ?thesis
    by (intro ext, unfold impedanceGrad_of_fl_def impedanceGrad_of_def step) (rule refl)
qed

lemma deltaZPrev_of_fl_exact: "deltaZPrev_of_fl Fin = deltaZPrev_of"
  by (intro ext, unfold deltaZPrev_of_fl_def deltaZPrev_of_def jsub_fl_exact) (rule refl)

lemma poisson_of_fl_exact: "poisson_of_fl Fin (\<lambda>x. Fin (x * x)) = poisson_of"
  by (intro ext, unfold poisson_of_fl_def poisson_of_def jdiv_fl_exact jsub_fl_exact jmul_fl_exact Math_pow2_fl_exact) (rule refl)

lemma young_of_fl_exact: "young_of_fl Fin = young_of"
  by (intro ext, unfold young_of_fl_def young_of_def jadd_fl_exact jmul_fl_exact) (rule refl)

lemma poisson_from_moduli_of_fl_exact: "poisson_from_moduli_of_fl Fin = poisson_from_moduli_of"
  by (intro ext, unfold poisson_from_moduli_of_fl_def poisson_from_moduli_of_def jdiv_fl_exact jsub_fl_exact jmul_fl_exact jadd_fl_exact) (rule refl)

lemma Evals_of_fl_exact: "Evals_of_fl Fin = Evals_of"
  by (intro ext, unfold Evals_of_fl_def Evals_of_def jadd_fl_exact jmul_fl_exact) (rule refl)

lemma brittlenessE_of_fl_exact: "brittlenessE_of_fl Fin = brittlenessE_of"
  by (intro ext, unfold brittlenessE_of_fl_def brittlenessE_of_def jdiv_fl_exact jsub_fl_exact) (rule refl)

lemma four_thirds: "jdiv (Fin 4) (Fin 3) = Fin (4 / 3)"
  by simp

lemma computeParameters_fl_exact:
  "computeParameters_fl Fin (\<lambda>x. Fin (x * x)) rows = computeParameters rows"
  unfolding computeParameters_fl_def computeParameters_def
    sigma_v_of_fl_exact impedanceGrad_of_fl_exact deltaZPrev_of_fl_exact poisson_of_fl_exact
    young_of_fl_exact poisson_from_moduli_of_fl_exact Evals_of_fl_exact brittlenessE_of_fl_exact
    jadd_fl_exact jmul_fl_exact jdiv_fl_exact jsub_fl_exact Math_pow2_fl_exact four_thirds ..

lemma rounding_fl_overflow: "rounding fl_overflow"
  unfolding rounding_def fl_overflow_def
  by (auto split: if_splits)

lemma bounded_rounding_fl_overflow: "bounded_rounding fl_overflow pw_overflow"
proof -
  have big: "(2::real) ^ 1023 < 2 ^ 1024" by simp
  have 1: "fl_overflow (real m * 2 ^ k) = Fin (real m * 2 ^ k)" if "m \<le> 2 ^ 53" "k \<le> 970" for m k
  proof -
    have "real m \<le> 2 ^ 53" using that(1) by (metis of_nat_le_iff of_nat_numeral of_nat_power)
    moreover have "(2::real) ^ k \<le> 2 ^ 970" using that(2) by (intro power_increasing) simp_all
    ultimately have "real m * 2 ^ k \<le> 2 ^ 53 * 2 ^ 970"
      by (intro mult_mono) simp_all
    also have "\<dots> < (2::real) ^ 1024" by simp
    finally have "real m * 2 ^ k < 2 ^ 1024" .
    moreover have "- (2 ^ 1024) < real m * 2 ^ k"
      by (rule less_le_trans [of _ 0]) simp_all
    ultimately show ?thesis by (simp add: fl_overflow_def)
  qed
  have 2: "in_range (fl_overflow x) b" if "fl_overflow b = Fin b" "\<bar>x\<bar> \<le> b" for x b
  proof -
    from that(1) have "b < 2 ^ 1024" by (auto simp add: fl_overflow_def split: if_splits)
    with that(2) have "x < 2 ^ 1024" "- (2 ^ 1024) < x" by linarith+
    then show ?thesis using that(2) by (simp add: fl_overflow_def)
  qed
  have 3: "in_range (pw_overflow x) b" if "fl_overflow b = Fin b" "x * x \<le> b" for x b
  proof -
    from that(1) have "b < 2 ^ 1024" by (auto simp add: fl_overflow_def split: if_splits)
    with that(2) have "x * x < 2 ^ 1024" by linarith
    moreover have "- (2 ^ 1024) < x * x"
      by (rule less_le_trans [of _ 0]) simp_all
    ultimately show ?thesis using that(2) by (simp add: pw_overflow_def fl_overflow_def)
  qed
  have 4: "fl_overflow y = Fin y" if "pw_overflow x = Fin y" for x y
    using that by (auto simp add: pw_overflow_def fl_overflow_def split: if_splits)
  have 5: "fl_overflow (- x) = jneg (fl_overflow x)" for x
    by (simp add: fl_overflow_def)
  have 6: "fl_overflow (2 * y) = Fin (2 * y)" if "fl_overflow y = Fin y" "\<bar>y\<bar> \<le> 2 ^ 1022" for y
  proof -
    have "\<bar>2 * y\<bar> \<le> 2 ^ 1023" using that(2) by simp
    then have "2 * y < 2 ^ 1024" "- (2 ^ 1024) < 2 * y" using big by linarith+
    then show ?thesis by (simp add: fl_overflow_def)
  qed
  have 7: "jlt (Fin (1 / 2 ^ 40)) (fl_overflow (1 / 10 ^ 12))"
    by (simp add: fl_overflow_def)
  show ?thesis
    unfolding bounded_rounding_def using 1 2 3 4 5 6 7 by blast
qed

lemma in_range_Fin: "in_range a b \<Longrightarrow> \<exists>y. a = Fin y \<and> \<bar>y\<bar> \<le> b"
  by (cases a) simp_all

lemma in_range_finite: "in_range a b \<Longrightarrow> isFinite a"
  by (cases a) simp_all

lemma in_range_jneg: "in_range a b \<Longrightarrow> in_range (jneg a) b"
  by (cases a) simp_all

lemma double_scaled:
  "bounded_rounding fl pw \<Longrightarrow> m \<le> 2 ^ 53 \<Longrightarrow> k \<le> 970 \<Longrightarrow> fl (real m * 2 ^ k) = Fin (real m * 2 ^ k)"
  unfolding bounded_rounding_def by blast

lemma double_pow2: "bounded_rounding fl pw \<Longrightarrow> k \<le> 970 \<Longrightarrow> fl (2 ^ k) = Fin (2 ^ k)"
  using double_scaled [of fl pw 1 k] by simp

lemma fl_in_range: "bounded_rounding fl pw \<Longrightarrow> fl b = Fin b \<Longrightarrow> \<bar>x\<bar> \<le> b \<Longrightarrow> in_range (fl x) b"
  unfolding bounded_rounding_def by blast

lemma pw_in_range: "bounded_rounding fl pw \<Longrightarrow> fl b = Fin b \<Longrightarrow> x * x \<le> b \<Longrightarrow> in_range (pw x) b"
  unfolding bounded_rounding_def by blast

lemma add_in_range:
  assumes "bounded_rounding fl pw" and "in_range a A" and "in_range b B" and "fl C = Fin C" and "A + B \<le> C"
  shows "in_range (jadd_fl fl a b) C"
proof -
  obtain x where x: "a = Fin x" "\<bar>x\<bar> \<le> A" using in_range_Fin [OF assms(2)] by blast
  obtain y where y: "b = Fin y" "\<bar>y\<bar> \<le> B" using in_range_Fin [OF assms(3)] by blast
  have "\<bar>x + y\<bar> \<le> C" using x(2) y(2) assms(5) by linarith
  then show ?thesis
    unfolding x(1) y(1) jadd_fl.simps by (rule fl_in_range [OF assms(1) assms(4)])
qed

lemma sub_in_range:
  assumes "bounded_rounding fl pw" and "in_range a A" and "in_range b B" and "fl C = Fin C" and "A + B \<le> C"
  shows "in_range (jsub_fl fl a b) C"
  unfolding jsub_fl_def
  by (rule add_in_range [OF assms(1) assms(2) in_range_jneg [OF assms(3)] assms(4) assms(5)])

lemma mul_in_range:
  assumes "bounded_rounding fl pw" and "in_range a A" and "in_range b B" and "fl C = Fin C" and "A * B \<le> C"
  shows "in_range (jmul_fl fl a b) C"
proof -
  obtain x where x: "a = Fin x" "\<bar>x\<bar> \<le> A" using in_range_Fin [OF assms(2)] by blast
  obtain y where y: "b = Fin y" "\<bar>y\<bar> \<le> B" using in_range_Fin [OF assms(3)] by blast
  have "\<bar>x\<bar> * \<bar>y\<bar> \<le> A * B"
    using x(2) y(2) by (intro mult_mono) simp_all
  then have "\<bar>x * y\<bar> \<le> C" using assms(5) by (simp add: abs_mult)
  then show ?thesis
    unfolding x(1) y(1) jmul_fl.simps by (rule fl_in_range [OF assms(1) assms(4)])
qed

lemma pow_in_range:
  assumes "bounded_rounding fl pw" and "in_range a A" and "fl C = Fin C" and "A * A \<le> C"
  shows "in_range (Math_pow2_fl pw a) C"
proof -
  obtain x where x: "a = Fin x" "\<bar>x\<bar> \<le> A" using in_range_Fin [OF assms(2)] by blast
  have "\<bar>x\<bar> * \<bar>x\<bar> \<le> A * A"
    using x(2) by (intro mult_mono) simp_all
  then have "x * x \<le> C" using assms(4) by simp
  then show ?thesis
    unfolding x(1) Math_pow2_fl.simps by (rule pw_in_range [OF assms(1) assms(3)])
qed

lemma div_in_range:
  assumes "bounded_rounding fl pw" and "in_range a A" and "0 < L" and "L \<le> \<bar>y\<bar>" and "fl C = Fin C" and "A / L \<le> C"
  shows "in_range (jdiv_fl fl a (Fin y)) C"
proof -
  obtain x where x: "a = Fin x" "\<bar>x\<bar> \<le> A" using in_range_Fin [OF assms(2)] by blast
  have y: "y \<noteq> 0" using assms(3,4) by auto
  have "\<bar>x\<bar> / \<bar>y\<bar> \<le> A / L"
    using x(2) assms(3,4) by (intro frac_le) simp_all
  then have "\<bar>x / y\<bar> \<le> C" using assms(6) by simp
  then have "in_range (fl (x / y)) C"
    by (rule fl_in_range [OF assms(1) assms(5)])
  then show ?thesis
    unfolding x(1) using y by simp
qed

subsection \<open>Arrays and the output rows\<close>

lemma length_mapi [simp]: "length (mapi f xs) = length xs"
  by (simp add: mapi_def)

lemma nth_mapi [simp]: "i < length xs \<Longrightarrow> mapi f xs ! i = f (xs ! i) i"
  by (simp add: mapi_def)

lemma arr_at_in [simp]: "i < length xs \<Longrightarrow> arr_at xs i = xs ! i"
  by (simp add: arr_at_def)

lemma arr_at_out [simp]: "\<not> i < length xs \<Longrightarrow> arr_at xs i = NaN"
  by (simp add: arr_at_def)

lemma length_computeParameters [simp]: "length (computeParameters rows) = length rows"
  by (simp add: computeParameters_def Let_def)









lemma p_modulus_nth:
  "i < length rows \<Longrightarrow>
   p_modulus_pa (computeParameters rows ! i) = jmul (density (rows ! i)) (Math_pow2 (vp (rows ! i)))"
  by (simp add: computeParameters_def Let_def)

subsection \<open>Vertical stress\<close>



subsection \<open>Header detection\<close>

lemma positions_head: "(prev, s) \<in> set (positions prev s)"
  by (cases s) simp_all

lemma positions_later: "p \<in> set (positions prev s) \<Longrightarrow> p \<noteq> (prev, s) \<Longrightarrow> fst p \<noteq> None"
proof (induction s arbitrary: prev)
  case Nil
  then show ?case by simp
next
  case (Cons c cs)
  show ?case
  proof (cases "p = (Some c, cs)")
    case True
    then show ?thesis by simp
  next
    case False
    with Cons.prems have "p \<in> set (positions (Some c) cs)" by simp
    with False show ?thesis by (rule Cons.IH [rotated])
  qed
qed

lemma test_at_start: "rmatch r (None, s) \<noteq> [] \<Longrightarrow> test r s"
  unfolding test_def list_ex_iff using positions_head by blast

lemma Bol_only_start:
  assumes "test (Seq Bol r) s"
  shows "rmatch r (None, s) \<noteq> []"
proof -
  from assms obtain p where p: "p \<in> set (positions None s)" and m: "rmatch (Seq Bol r) p \<noteq> []"
    unfolding test_def list_ex_iff by blast
  from m have "fst p = None" by (auto split: if_splits)
  with positions_later [OF p] have "p = (None, s)" by blast
  with m show ?thesis by simp
qed

lemma start_word_is_bounded:
  assumes "rmatch (Seq (lit [a, b]) Bnd) (None, s) \<noteq> []" and "is_word a"
  shows "rmatch (bounded (lit [a, b])) (None, s) \<noteq> []"
  using assms
  by (auto simp add: lit_def bounded_def word_before_def word_after_def split: list.splits if_splits)

lemma vp_start_implies_vp: "test re_vp_start s \<Longrightarrow> test re_vp s"
proof -
  assume "test re_vp_start s"
  then have "rmatch (Seq (lit ''vp'') Bnd) (None, s) \<noteq> []"
    unfolding re_vp_start_def by (rule Bol_only_start)
  then have "rmatch (bounded (lit ''vp'')) (None, s) \<noteq> []"
    by (rule start_word_is_bounded) (simp add: is_word_def)
  then have "rmatch re_vp (None, s) \<noteq> []"
    unfolding re_vp_def by simp
  then show ?thesis by (rule test_at_start)
qed

lemma vs_start_implies_vs: "test re_vs_start s \<Longrightarrow> test re_vs s"
proof -
  assume "test re_vs_start s"
  then have "rmatch (Seq (lit ''vs'') Bnd) (None, s) \<noteq> []"
    unfolding re_vs_start_def by (rule Bol_only_start)
  then have "rmatch (bounded (lit ''vs'')) (None, s) \<noteq> []"
    by (rule start_word_is_bounded) (simp add: is_word_def)
  then have "rmatch re_vs (None, s) \<noteq> []"
    unfolding re_vs_def by simp
  then show ?thesis by (rule test_at_start)
qed

lemma detect_step_key:
  "detect_step h m k = (if header_matches k h then Some h else m k)"
proof -
  let ?c = "cleaned_of (normalizeHeader (Some h))"
  consider (depth) "k = ''depth''" | (density) "k = ''density''" | (vp) "k = ''vp''" | (vs) "k = ''vs''"
    | (other) "k \<noteq> ''depth''" "k \<noteq> ''density''" "k \<noteq> ''vp''" "k \<noteq> ''vs''"
    by blast
  then show ?thesis
  proof cases
    case depth
    then show ?thesis
      by (simp add: detect_step_def header_matches_def Let_def)
  next
    case density
    then show ?thesis
      by (simp add: detect_step_def header_matches_def Let_def)
  next
    case vp
    show ?thesis
    proof (cases "test re_vp ?c")
      case True
      with vp show ?thesis
        by (simp add: detect_step_def header_matches_def Let_def)
    next
      case False
      then have "\<not> test re_vp_start ?c"
        using vp_start_implies_vp by blast
      with vp False show ?thesis
        by (simp add: detect_step_def header_matches_def Let_def)
    qed
  next
    case vs
    show ?thesis
    proof (cases "test re_vs ?c")
      case True
      with vs show ?thesis
        by (simp add: detect_step_def header_matches_def Let_def)
    next
      case False
      then have "\<not> test re_vs_start ?c"
        using vs_start_implies_vs by blast
      with vs False show ?thesis
        by (simp add: detect_step_def header_matches_def Let_def)
    qed
  next
    case other
    then show ?thesis
      by (simp add: detect_step_def header_matches_def Let_def)
  qed
qed

lemma fold_detect_step:
  "fold detect_step hs m k =
     (case filter (header_matches k) hs of [] \<Rightarrow> m k | x # xs \<Rightarrow> Some (last (x # xs)))"
proof (induction hs arbitrary: m)
  case Nil
  show ?case by simp
next
  case (Cons h hs)
  have "fold detect_step (h # hs) m k = fold detect_step hs (detect_step h m) k"
    by simp
  also have "\<dots> = (case filter (header_matches k) hs of
                      [] \<Rightarrow> detect_step h m k | x # xs \<Rightarrow> Some (last (x # xs)))"
    by (rule Cons.IH)
  also have "\<dots> = (case filter (header_matches k) (h # hs) of
                      [] \<Rightarrow> m k | x # xs \<Rightarrow> Some (last (x # xs)))"
    by (simp add: detect_step_key split: list.splits)
  finally show ?case .
qed

text \<open>
  Claim C9. \<open>detectColumns\<close> is a total function: for every list of headers it returns a
  mapping, and under each key the mapping holds the last header of the list that matches
  the patterns of that field, or nothing when no header matches; a key other than the four
  canonical ones is never set. The fallback patterns \<^verbatim>\<open>^vp\b\<close> and \<^verbatim>\<open>^vs\b\<close> match only
  where the main pattern of the field matches already.
\<close>

theorem detectColumns_last_match:
  "detectColumns headers k =
     (case filter (header_matches k) headers of [] \<Rightarrow> None | x # xs \<Rightarrow> Some (last (x # xs)))"
  by (simp add: detectColumns_def fold_detect_step)

lemma example_header_matches:
  "\<not> header_matches ''vp'' ''Depth (m)''"
  "\<not> header_matches ''vp'' ''Density''"
  "header_matches ''vp'' ''Vp_Km/s''"
  "\<not> header_matches ''vp'' ''Vs_Km/s''"
  "\<not> header_matches ''vp'' ''vp2''"
  "header_matches ''vp'' ''Vp (m/s)''"
  "header_matches ''depth'' ''Depth (m)''"
  "\<not> header_matches ''depth'' ''Density''"
  "\<not> header_matches ''depth'' ''Vp_Km/s''"
  "\<not> header_matches ''depth'' ''Vs_Km/s''"
  "\<not> header_matches ''depth'' ''vp2''"
  "\<not> header_matches ''depth'' ''Vp (m/s)''"
  by code_simp+

theorem detectColumns_last_match_witness:
  "detectColumns example_headers ''vp'' = Some ''Vp (m/s)'' \<and>
   detectColumns example_headers ''depth'' = Some ''Depth (m)'' \<and>
   detectColumns example_headers ''porosity'' = None"
proof -
  have o: "\<And>h. \<not> header_matches ''porosity'' h"
    by (simp add: header_matches_def)
  show ?thesis
    using detectColumns_last_match [of example_headers "''vp''"]
      detectColumns_last_match [of example_headers "''depth''"]
      detectColumns_last_match [of example_headers "''porosity''"]
    by (simp add: example_headers_def example_header_matches o)
qed

subsection \<open>Unit multipliers\<close>

text \<open>
  Claim C4. The label \<^verbatim>\<open>Vp_Km/s\<close> has the multiplier \<open>1000\<close>, so that the raw value \<open>3.0\<close>
  becomes \<open>3000\<close>; an absent or empty label has the multiplier \<open>1\<close>; the density labels
  \<^verbatim>\<open>g cm3\<close>, \<^verbatim>\<open>gcm3\<close> and \<^verbatim>\<open>g/cm3\<close> have the multiplier \<open>1000\<close>. A density label that
  spells the unit \<^verbatim>\<open>g/cc\<close> has the multiplier \<open>1\<close>: the label is cleaned to \<^verbatim>\<open>g cc\<close>
  before the pattern \<^verbatim>\<open>g\/?cc\<close> is tested, and the pattern has no space.
\<close>

theorem detectUnitMultiplier_g_per_cc:
  "detectUnitMultiplier (Some ''g/cc'') ''density'' = Fin 1 \<and>
   detectUnitMultiplier (Some ''Density_g/cc'') ''density'' = Fin 1 \<and>
   detectUnitMultiplier (Some ''Density (g/cc)'') ''density'' = Fin 1 \<and>
   cleaned_of (normalizeHeader (Some ''Density_g/cc'')) = ''density g cc'' \<and>
   detectUnitMultiplier (Some ''g cm3'') ''density'' = Fin 1000 \<and>
   detectUnitMultiplier (Some ''gcm3'') ''density'' = Fin 1000 \<and>
   detectUnitMultiplier (Some ''Density (g/cm3)'') ''density'' = Fin 1000 \<and>
   detectUnitMultiplier (Some ''Vp_Km/s'') ''velocity'' = Fin 1000 \<and>
   jmul (Fin 3) (detectUnitMultiplier (Some ''Vp_Km/s'') ''velocity'') = Fin 3000 \<and>
   detectUnitMultiplier (Some ''Vs (m/s)'') ''velocity'' = Fin 1 \<and>
   detectUnitMultiplier (Some ''Depth (km)'') ''depth'' = Fin 1000 \<and>
   detectUnitMultiplier (Some ''Depth (m)'') ''depth'' = Fin 1 \<and>
   detectUnitMultiplier None ''density'' = Fin 1 \<and>
   detectUnitMultiplier (Some []) ''velocity'' = Fin 1"
proof -
  have 1: "detectUnitMultiplier (Some ''g/cc'') ''density'' = Fin 1" by code_simp
  have 2: "detectUnitMultiplier (Some ''Density_g/cc'') ''density'' = Fin 1" by code_simp
  have 3: "detectUnitMultiplier (Some ''Density (g/cc)'') ''density'' = Fin 1" by code_simp
  have 4: "cleaned_of (normalizeHeader (Some ''Density_g/cc'')) = ''density g cc''" by code_simp
  have 5: "detectUnitMultiplier (Some ''g cm3'') ''density'' = Fin 1000" by code_simp
  have 6: "detectUnitMultiplier (Some ''gcm3'') ''density'' = Fin 1000" by code_simp
  have 7: "detectUnitMultiplier (Some ''Density (g/cm3)'') ''density'' = Fin 1000" by code_simp
  have 8: "detectUnitMultiplier (Some ''Vp_Km/s'') ''velocity'' = Fin 1000" by code_simp
  have 9: "jmul (Fin 3) (detectUnitMultiplier (Some ''Vp_Km/s'') ''velocity'') = Fin 3000"
    unfolding 8 by simp
  have 10: "detectUnitMultiplier (Some ''Vs (m/s)'') ''velocity'' = Fin 1" by code_simp
  have 11: "detectUnitMultiplier (Some ''Depth (km)'') ''depth'' = Fin 1000" by code_simp
  have 12: "detectUnitMultiplier (Some ''Depth (m)'') ''depth'' = Fin 1" by code_simp
  have 13: "detectUnitMultiplier None ''density'' = Fin 1"
    by (simp add: detectUnitMultiplier_def falsy_def)
  have 14: "detectUnitMultiplier (Some []) ''velocity'' = Fin 1"
    by (simp add: detectUnitMultiplier_def falsy_def)
  show ?thesis
    using 1 2 3 4 5 6 7 8 9 10 11 12 13 14 by blast
qed

subsection \<open>Impedance gradient and the single sample\<close>

lemma fold_update_upt:
  assumes "length xs = n" and "b \<le> n"
  shows "fold (\<lambda>i ys. ys[i := f i]) [a..<b] xs = map (\<lambda>j. if a \<le> j \<and> j < b then f j else xs ! j) [0..<n]"
  using assms(2)
proof (induction b)
  case 0
  show ?case using assms(1) by (auto intro!: nth_equalityI)
next
  case (Suc b)
  show ?case
  proof (cases "a \<le> b")
    case True
    then have upt: "[a..<Suc b] = [a..<b] @ [b]" by simp
    have IH: "fold (\<lambda>i ys. ys[i := f i]) [a..<b] xs = map (\<lambda>j. if a \<le> j \<and> j < b then f j else xs ! j) [0..<n]"
      using Suc by simp
    show ?thesis
      unfolding upt fold_append comp_def IH
      using Suc.prems True
      by (auto intro!: nth_equalityI simp add: nth_list_update)
  next
    case False
    then show ?thesis using assms(1) by (auto intro!: nth_equalityI)
  qed
qed















subsection \<open>Young's modulus and brittleness\<close>

lemma filter_isFinite: "filter isFinite xs = map Fin (finite_vals xs)"
  by (induction xs rule: finite_vals.induct) simp_all

lemma fold_jmin_Fin: "fold (\<lambda>x m. jmin m x) (map Fin xs) (Fin a) = Fin (fold min xs a)"
  by (induction xs arbitrary: a) (auto simp add: jmin_def min_def)

lemma fold_jmax_Fin: "fold (\<lambda>x m. jmax m x) (map Fin xs) (Fin a) = Fin (fold max xs a)"
  by (induction xs arbitrary: a) (auto simp add: jmax_def max_def)

lemma Math_min_Fin: "es \<noteq> [] \<Longrightarrow> Math_min (map Fin es) = Fin (Min (set es))"
proof -
  assume "es \<noteq> []"
  then obtain e es' where es: "es = e # es'" by (cases es) auto
  have "Math_min (map Fin es) = fold (\<lambda>x m. jmin m x) (map Fin es') (Fin e)"
    by (simp add: es Math_min_def jmin_def)
  also have "\<dots> = Fin (fold min es' e)"
    by (rule fold_jmin_Fin)
  also have "fold min es' e = Min (set es)"
    unfolding es by (rule Min.set_eq_fold [symmetric])
  finally show ?thesis .
qed

lemma Math_max_Fin: "es \<noteq> [] \<Longrightarrow> Math_max (map Fin es) = Fin (Max (set es))"
proof -
  assume "es \<noteq> []"
  then obtain e es' where es: "es = e # es'" by (cases es) auto
  have "Math_max (map Fin es) = fold (\<lambda>x m. jmax m x) (map Fin es') (Fin e)"
    by (simp add: es Math_max_def jmax_def)
  also have "\<dots> = Fin (fold max es' e)"
    by (rule fold_jmax_Fin)
  also have "fold max es' e = Max (set es)"
    unfolding es by (rule Max.set_eq_fold [symmetric])
  finally show ?thesis .
qed

lemma finite_vals_mem: "e \<in> set (finite_vals xs) \<longleftrightarrow> Fin e \<in> set xs"
  by (induction xs rule: finite_vals.induct) auto

lemma jsub_fl_Fin_Fin: "jsub_fl fl (Fin x) (Fin y) = fl (x - y)"
  by (simp add: jsub_fl_def)

lemma length_sigma_v_of_fl: "d \<noteq> [] \<Longrightarrow> length (sigma_v_of_fl fl d r) = length d"
proof -
  have "\<And>js st. length (snd (fold (sigma_step_fl fl d r) js st)) = length (snd st)"
    subgoal for js st
      by (induction js arbitrary: st) (simp_all add: sigma_step_fl_def Let_def)
    done
  then show "d \<noteq> [] \<Longrightarrow> length (sigma_v_of_fl fl d r) = length d"
    by (simp add: sigma_v_of_fl_def Let_def)
qed

lemma length_poisson_of_fl [simp]: "length (poisson_of_fl fl pw vpa vsa) = length vpa"
  by (simp add: poisson_of_fl_def)

lemma length_young_of_fl [simp]: "length (young_of_fl fl G nu) = length G"
  by (simp add: young_of_fl_def)

lemma length_brittlenessE_of_fl [simp]: "length (brittlenessE_of_fl fl young Evals) = length young"
  by (simp add: brittlenessE_of_fl_def Let_def)

lemma length_computeParameters_fl [simp]: "length (computeParameters_fl fl pw rows) = length rows"
  by (simp add: computeParameters_fl_def Let_def)

lemma poisson_of_fl_nth:
  "i < length vpa \<Longrightarrow> length vsa = length vpa \<Longrightarrow>
   poisson_of_fl fl pw vpa vsa ! i = poisson_val_fl fl pw (vpa ! i) (vsa ! i)"
  by (simp add: poisson_of_fl_def poisson_val_fl_def Let_def)

lemma poisson_ratio_fl_nth:
  "i < length rows \<Longrightarrow>
   poisson_ratio (computeParameters_fl fl pw rows ! i) = poisson_val_fl fl pw (vp (rows ! i)) (vs (rows ! i))"
  by (simp add: computeParameters_fl_def Let_def poisson_of_fl_nth)

lemma youngs_modulus_fl_nth:
  "i < length rows \<Longrightarrow>
   youngs_modulus_pa (computeParameters_fl fl pw rows ! i) =
     young_val_fl fl pw (density (rows ! i)) (vp (rows ! i)) (vs (rows ! i))"
  by (simp add: computeParameters_fl_def Let_def poisson_of_fl_nth young_of_fl_def young_val_fl_def)

lemma Evals_fl_are_finite_young:
  "Evals_of_fl fl shearModulus poisson = filter isFinite (young_of_fl fl shearModulus poisson)"
proof -
  have "(\<lambda>G i. let nu = arr_at poisson i
                in if isFinite nu then jmul_fl fl (jmul_fl fl (Fin 2) G) (jadd_fl fl (Fin 1) nu) else NaN)
      = (\<lambda>G i. let nu = arr_at poisson i
                in if \<not> isFinite nu then NaN else jmul_fl fl (jmul_fl fl (Fin 2) G) (jadd_fl fl (Fin 1) nu))"
    by (intro ext) (simp add: Let_def)
  then show ?thesis
    by (simp add: Evals_of_fl_def young_of_fl_def)
qed

lemma brittleness_fl_nth:
  "i < length rows \<Longrightarrow>
   brittleness_e (computeParameters_fl fl pw rows ! i) =
     brittlenessE_of_fl fl (map youngs_modulus_pa (computeParameters_fl fl pw rows))
       (map Fin (finite_vals (map youngs_modulus_pa (computeParameters_fl fl pw rows)))) ! i"
proof -
  assume i: "i < length rows"
  let ?G = "mapi (\<lambda>r i. jmul_fl fl r (Math_pow2_fl pw (arr_at (map vs rows) i))) (map density rows)"
  let ?nu = "poisson_of_fl fl pw (map vp rows) (map vs rows)"
  have y: "map youngs_modulus_pa (computeParameters_fl fl pw rows) = young_of_fl fl ?G ?nu"
    by (rule nth_equalityI) (simp_all add: computeParameters_fl_def Let_def)
  have "brittleness_e (computeParameters_fl fl pw rows ! i) =
          brittlenessE_of_fl fl (young_of_fl fl ?G ?nu) (Evals_of_fl fl ?G ?nu) ! i"
    using i by (simp add: computeParameters_fl_def Let_def)
  then show ?thesis
    by (simp add: y Evals_fl_are_finite_young filter_isFinite)
qed

lemma brittleness_fl_core:
  "(if \<not> isFinite E \<or> \<not> isFinite (Fin a) \<or> strict_eq (Fin b) (Fin a) then NaN
    else jdiv_fl fl (jsub_fl fl E (Fin a)) (jsub_fl fl (Fin b) (Fin a))) =
   (case E of Fin e \<Rightarrow> if b = a then NaN else jdiv_fl fl (fl (e - a)) (fl (b - a)) | _ \<Rightarrow> NaN)"
  by (cases E) (simp_all add: strict_eq_def jsub_fl_Fin_Fin)

lemma brittlenessE_of_fl_Fin:
  assumes "i < length ys"
  shows "brittlenessE_of_fl fl ys (map Fin es) ! i =
           (case ys ! i of
              Fin e \<Rightarrow> if es = [] \<or> Max (set es) = Min (set es) then NaN
                       else jdiv_fl fl (fl (e - Min (set es))) (fl (Max (set es) - Min (set es)))
            | _ \<Rightarrow> NaN)"
proof (cases "es = []")
  case True
  then show ?thesis using assms
    by (simp add: brittlenessE_of_fl_def Let_def split: jsnum.splits)
next
  case False
  define a where "a = Min (set es)"
  define b where "b = Max (set es)"
  have "brittlenessE_of_fl fl ys (map Fin es) ! i =
      (if \<not> isFinite (ys ! i) \<or> \<not> isFinite (Fin a) \<or> strict_eq (Fin b) (Fin a) then NaN
       else jdiv_fl fl (jsub_fl fl (ys ! i) (Fin a)) (jsub_fl fl (Fin b) (Fin a)))"
    using assms False
    by (simp add: brittlenessE_of_fl_def Let_def Math_min_Fin Math_max_Fin a_def b_def)
  also have "\<dots> = (case ys ! i of Fin e \<Rightarrow> if b = a then NaN else jdiv_fl fl (fl (e - a)) (fl (b - a))
                     | _ \<Rightarrow> NaN)"
    by (rule brittleness_fl_core)
  finally show ?thesis
    using False unfolding a_def b_def by (simp split: jsnum.splits)
qed

lemma brittleness_fl_value:
  assumes "i < length rows"
  shows "brittleness_e (computeParameters_fl fl pw rows ! i) =
      (let es = finite_vals (map youngs_modulus_pa (computeParameters_fl fl pw rows))
       in case youngs_modulus_pa (computeParameters_fl fl pw rows ! i) of
         Fin e \<Rightarrow> if es = [] \<or> Max (set es) = Min (set es) then NaN
                  else jdiv_fl fl (fl (e - Min (set es))) (fl (Max (set es) - Min (set es)))
       | _ \<Rightarrow> NaN)"
proof -
  have len: "i < length (map youngs_modulus_pa (computeParameters_fl fl pw rows))"
    using assms by simp
  show ?thesis
    unfolding Let_def brittleness_fl_nth [OF assms] brittlenessE_of_fl_Fin [OF len]
    using assms by simp
qed

lemma jmul_fl_rounded: "jmul_fl fl a b = Fin e \<Longrightarrow> \<exists>r. fl r = Fin e"
  by (cases a; cases b) (auto simp add: inf_times_def split: if_splits)

lemma young_fl_representable:
  assumes "rounding fl" and "Fin e \<in> set (map youngs_modulus_pa (computeParameters_fl fl pw rows))"
  shows "fl e = Fin e"
proof -
  from assms(2) obtain i where i: "i < length rows"
    and e: "youngs_modulus_pa (computeParameters_fl fl pw rows ! i) = Fin e"
    by (auto simp add: in_set_conv_nth)
  from e have "young_val_fl fl pw (density (rows ! i)) (vp (rows ! i)) (vs (rows ! i)) = Fin e"
    using i by (simp add: youngs_modulus_fl_nth)
  then obtain r where "fl r = Fin e"
    unfolding young_val_fl_def Let_def
    by (auto split: if_splits dest: jmul_fl_rounded)
  then show ?thesis
    using assms(1) unfolding rounding_def by blast
qed

lemma brittleness_fl_parts:
  assumes r: "rounding fl" and i: "i < length rows"
    and out: "out = computeParameters_fl fl pw rows"
    and es: "es = finite_vals (map youngs_modulus_pa out)"
    and a: "a = Min (set es)" and b: "b = Max (set es)"
  shows "youngs_modulus_pa (out ! i) = Fin e \<and> a \<noteq> b \<longrightarrow>
            brittleness_e (out ! i) = jdiv_fl fl (jsub_fl fl (Fin e) (Fin a)) (jsub_fl fl (Fin b) (Fin a)) \<and>
            (e = a \<longrightarrow> brittleness_e (out ! i) = Fin 0) \<and>
            (e = b \<longrightarrow> brittleness_e (out ! i) =
                          (if isFinite (jsub_fl fl (Fin b) (Fin a)) then Fin 1 else NaN))"
    and "Fin e1 \<in> set (map youngs_modulus_pa out) \<and> Fin e2 \<in> set (map youngs_modulus_pa out) \<and>
            e1 \<noteq> e2 \<longrightarrow> a \<noteq> b \<and> Fin a \<in> set (map youngs_modulus_pa out) \<and>
            Fin b \<in> set (map youngs_modulus_pa out)"
    and "es = [] \<or> b = a \<or> \<not> isFinite (youngs_modulus_pa (out ! i)) \<longrightarrow>
            brittleness_e (out ! i) = NaN"
proof -
  have v: "brittleness_e (out ! i) =
      (case youngs_modulus_pa (out ! i) of
         Fin e \<Rightarrow> if es = [] \<or> b = a then NaN else jdiv_fl fl (fl (e - a)) (fl (b - a))
       | _ \<Rightarrow> NaN)"
    using brittleness_fl_value [OF i, of fl pw] unfolding out es a b Let_def .
  have mem: "\<And>x. x \<in> set es \<longleftrightarrow> Fin x \<in> set (map youngs_modulus_pa out)"
    unfolding es by (rule finite_vals_mem)
  have rep: "\<And>x. x \<in> set es \<Longrightarrow> fl x = Fin x"
    using young_fl_representable [OF r, of _ pw rows] mem unfolding out by blast
  have f0: "fl 0 = Fin 0" and f1: "fl 1 = Fin 1" and nn: "\<And>x. fl x \<noteq> NaN"
    using r unfolding rounding_def by blast+
  show "youngs_modulus_pa (out ! i) = Fin e \<and> a \<noteq> b \<longrightarrow>
            brittleness_e (out ! i) = jdiv_fl fl (jsub_fl fl (Fin e) (Fin a)) (jsub_fl fl (Fin b) (Fin a)) \<and>
            (e = a \<longrightarrow> brittleness_e (out ! i) = Fin 0) \<and>
            (e = b \<longrightarrow> brittleness_e (out ! i) =
                          (if isFinite (jsub_fl fl (Fin b) (Fin a)) then Fin 1 else NaN))"
  proof
    assume h: "youngs_modulus_pa (out ! i) = Fin e \<and> a \<noteq> b"
    have "i < length out" using i out by simp
    then have "youngs_modulus_pa (out ! i) \<in> set (map youngs_modulus_pa out)"
      by simp
    with h have "e \<in> set es" using mem by simp
    then have ne: "es \<noteq> []" by auto
    then have "a \<in> set es" "b \<in> set es"
      unfolding a b by (simp_all add: Min_in Max_in)
    then have "fl a = Fin a" "fl b = Fin b"
      using rep by blast+
    with h have d0: "fl (b - a) \<noteq> Fin 0"
      using r unfolding rounding_def by blast
    from h ne have val: "brittleness_e (out ! i) = jdiv_fl fl (fl (e - a)) (fl (b - a))"
      unfolding v by simp
    have mn: "jdiv_fl fl (fl (a - a)) (fl (b - a)) = Fin 0"
      using d0 nn [of "b - a"] f0 by (cases "fl (b - a)") simp_all
    have mx: "jdiv_fl fl (fl (b - a)) (fl (b - a)) = (if isFinite (fl (b - a)) then Fin 1 else NaN)"
      using d0 nn [of "b - a"] f1 by (cases "fl (b - a)") simp_all
    show "brittleness_e (out ! i) = jdiv_fl fl (jsub_fl fl (Fin e) (Fin a)) (jsub_fl fl (Fin b) (Fin a)) \<and>
            (e = a \<longrightarrow> brittleness_e (out ! i) = Fin 0) \<and>
            (e = b \<longrightarrow> brittleness_e (out ! i) =
                          (if isFinite (jsub_fl fl (Fin b) (Fin a)) then Fin 1 else NaN))"
      unfolding val jsub_fl_Fin_Fin using mn mx by blast
  qed
  show "Fin e1 \<in> set (map youngs_modulus_pa out) \<and> Fin e2 \<in> set (map youngs_modulus_pa out) \<and>
            e1 \<noteq> e2 \<longrightarrow> a \<noteq> b \<and> Fin a \<in> set (map youngs_modulus_pa out) \<and>
            Fin b \<in> set (map youngs_modulus_pa out)"
  proof
    assume "Fin e1 \<in> set (map youngs_modulus_pa out) \<and> Fin e2 \<in> set (map youngs_modulus_pa out) \<and> e1 \<noteq> e2"
    then have e: "e1 \<in> set es" "e2 \<in> set es" "e1 \<noteq> e2"
      using mem by simp_all
    then have ne: "set es \<noteq> {}" by auto
    have "a \<le> e1" "a \<le> e2" "e1 \<le> b" "e2 \<le> b"
      unfolding a b using e by simp_all
    with e(3) have neq: "a \<noteq> b" by linarith
    have "a \<in> set es" "b \<in> set es"
      unfolding a b using ne by (simp_all add: Min_in Max_in)
    then have "Fin a \<in> set (map youngs_modulus_pa out)" "Fin b \<in> set (map youngs_modulus_pa out)"
      using mem by simp_all
    with neq show "a \<noteq> b \<and> Fin a \<in> set (map youngs_modulus_pa out) \<and>
            Fin b \<in> set (map youngs_modulus_pa out)"
      by simp
  qed
  show "es = [] \<or> b = a \<or> \<not> isFinite (youngs_modulus_pa (out ! i)) \<longrightarrow>
            brittleness_e (out ! i) = NaN"
    unfolding v by (cases "youngs_modulus_pa (out ! i)") simp_all
qed

lemma big_young:
  "map youngs_modulus_pa (computeParameters_fl fl_overflow pw_overflow big_rows) =
     [Fin (23 * 2 ^ 1019), Fin (- (23 * 2 ^ 1019)), Fin (23 / 8)]"
  by (rule nth_equalityI)
     (auto simp add: big_rows_def youngs_modulus_fl_nth young_val_fl_def poisson_val_fl_def Let_def
        jsub_fl_def fl_overflow_def pw_overflow_def less_Suc_eq numeral_3_eq_3)

lemma infinite_young:
  "map youngs_modulus_pa (computeParameters_fl fl_overflow pw_overflow infinite_rows) =
     [PInf, Fin (23 / 4), Fin (23 / 8)]"
  by (rule nth_equalityI)
     (auto simp add: infinite_rows_def youngs_modulus_fl_nth young_val_fl_def poisson_val_fl_def Let_def
        jsub_fl_def fl_overflow_def pw_overflow_def inf_times_def less_Suc_eq numeral_3_eq_3)

lemma small_young:
  "map youngs_modulus_pa (computeParameters_fl fl_overflow pw_overflow small_rows) =
     [Fin (23 / 8), Fin (23 / 4), Fin (23 / 2)]"
  by (rule nth_equalityI)
     (auto simp add: small_rows_def youngs_modulus_fl_nth young_val_fl_def poisson_val_fl_def Let_def
        jsub_fl_def fl_overflow_def pw_overflow_def less_Suc_eq numeral_3_eq_3)

lemma example_lengths:
  "length big_rows = 3" "length infinite_rows = 3" "length small_rows = 3"
  by (simp_all add: big_rows_def infinite_rows_def small_rows_def)

lemma big_brittle_first:
  "brittleness_e (computeParameters_fl fl_overflow pw_overflow big_rows ! 0) = NaN"
proof -
  have i: "0 < length big_rows" by (simp add: example_lengths)
  have y: "youngs_modulus_pa (computeParameters_fl fl_overflow pw_overflow big_rows ! 0) = Fin (23 * 2 ^ 1019)"
    using arg_cong [OF big_young, of "\<lambda>xs. xs ! 0"] by (simp add: example_lengths)
  show ?thesis
    unfolding brittleness_fl_value [OF i] Let_def y big_young
    by (simp add: fl_overflow_def)
qed

lemma infinite_brittle:
  "brittleness_e (computeParameters_fl fl_overflow pw_overflow infinite_rows ! 0) = NaN"
  "brittleness_e (computeParameters_fl fl_overflow pw_overflow infinite_rows ! 1) = Fin 1"
  "brittleness_e (computeParameters_fl fl_overflow pw_overflow infinite_rows ! 2) = Fin 0"
proof -
  have i: "0 < length infinite_rows" "1 < length infinite_rows" "2 < length infinite_rows"
    by (simp_all add: example_lengths)
  have y: "youngs_modulus_pa (computeParameters_fl fl_overflow pw_overflow infinite_rows ! 0) = PInf"
    "youngs_modulus_pa (computeParameters_fl fl_overflow pw_overflow infinite_rows ! 1) = Fin (23 / 4)"
    "youngs_modulus_pa (computeParameters_fl fl_overflow pw_overflow infinite_rows ! 2) = Fin (23 / 8)"
    using arg_cong [OF infinite_young, of "\<lambda>xs. xs ! 0"]
      arg_cong [OF infinite_young, of "\<lambda>xs. xs ! 1"]
      arg_cong [OF infinite_young, of "\<lambda>xs. xs ! 2"]
    by (simp_all add: example_lengths)
  show "brittleness_e (computeParameters_fl fl_overflow pw_overflow infinite_rows ! 0) = NaN"
    unfolding brittleness_fl_value [OF i(1)] Let_def y infinite_young by simp
  show "brittleness_e (computeParameters_fl fl_overflow pw_overflow infinite_rows ! 1) = Fin 1"
    unfolding brittleness_fl_value [OF i(2)] Let_def y infinite_young
    by (simp add: fl_overflow_def)
  show "brittleness_e (computeParameters_fl fl_overflow pw_overflow infinite_rows ! 2) = Fin 0"
    unfolding brittleness_fl_value [OF i(3)] Let_def y infinite_young
    by (simp add: fl_overflow_def)
qed

text \<open>
  Claim C7, as stated: whenever two distinct finite values of Young's modulus exist, the
  brittleness is \<open>(E - E_min) / (E_max - E_min)\<close> over the samples with non-sentinel Young's
  modulus, exactly \<open>0\<close> for the sample with the minimum and exactly \<open>1\<close> for the sample with
  the maximum. In \<open>big_rows\<close> the three values of Young's modulus are the doubles
  \<open>23 * 2\<^sup>1\<^sup>0\<^sup>1\<^sup>9\<close>, \<open>- 23 * 2\<^sup>1\<^sup>0\<^sup>1\<^sup>9\<close> and \<open>23/8\<close>; the difference \<open>E_max - E_min\<close> is \<open>Infinity\<close> in
  doubles, and the first sample, which has the maximum, gets \<open>Infinity / Infinity\<close>, the
  sentinel, instead of \<open>1\<close>. In \<open>infinite_rows\<close> the Young's modulus of the first sample is
  \<open>Infinity\<close>, which is not the sentinel: it is left out of the minimum and the maximum, which
  are taken over the finite values, and the brittleness of that sample is the sentinel.
\<close>

theorem brittleness_min_max_counterexample:
  "map youngs_modulus_pa (computeParameters_fl fl_overflow pw_overflow big_rows) =
     [Fin (23 * 2 ^ 1019), Fin (- (23 * 2 ^ 1019)), Fin (23 / 8)] \<and>
   brittleness_e (computeParameters_fl fl_overflow pw_overflow big_rows ! 0) \<noteq> Fin 1 \<and>
   brittleness_e (computeParameters_fl fl_overflow pw_overflow big_rows ! 0) = NaN \<and>
   map youngs_modulus_pa (computeParameters_fl fl_overflow pw_overflow infinite_rows) =
     [PInf, Fin (23 / 4), Fin (23 / 8)] \<and>
   brittleness_e (computeParameters_fl fl_overflow pw_overflow infinite_rows ! 0) = NaN \<and>
   brittleness_e (computeParameters_fl fl_overflow pw_overflow infinite_rows ! 1) = Fin 1 \<and>
   brittleness_e (computeParameters_fl fl_overflow pw_overflow infinite_rows ! 2) = Fin 0"
  using big_young big_brittle_first infinite_young infinite_brittle by simp

text \<open>
  Claim C7, amended. In the arithmetic of doubles (any \<open>fl\<close> with the properties of
  \<open>rounding\<close>, any \<open>pw\<close>), let \<open>es\<close> be the finite values of Young's modulus over all samples and
  \<open>E_min\<close> and \<open>E_max\<close> their minimum and maximum. A sample whose Young's modulus is the finite
  value \<open>e\<close> has, when \<open>E_min \<noteq> E_max\<close>, the brittleness \<open>(e - E_min) / (E_max - E_min)\<close> in the
  operations of doubles; it is exactly \<open>0\<close> for \<open>e = E_min\<close>; for \<open>e = E_max\<close> it is exactly \<open>1\<close>
  when the difference \<open>E_max - E_min\<close> is finite in doubles and the sentinel \<open>NaN\<close> when that
  difference overflows. Two distinct finite values among the samples give \<open>E_min \<noteq> E_max\<close>,
  and both extremes are the Young's modulus of some sample. The brittleness is the sentinel
  when \<open>es\<close> is empty, when \<open>E_max = E_min\<close>, or when the sample's own Young's modulus is not
  finite (\<open>NaN\<close> or an infinity).
\<close>

theorem brittleness_min_max:
  "rounding fl \<and> i < length rows \<longrightarrow>
   (let out = computeParameters_fl fl pw rows;
        es = finite_vals (map youngs_modulus_pa out);
        E_min = Min (set es);
        E_max = Max (set es)
    in (youngs_modulus_pa (out ! i) = Fin e \<and> E_min \<noteq> E_max \<longrightarrow>
          brittleness_e (out ! i) =
            jdiv_fl fl (jsub_fl fl (Fin e) (Fin E_min)) (jsub_fl fl (Fin E_max) (Fin E_min)) \<and>
          (e = E_min \<longrightarrow> brittleness_e (out ! i) = Fin 0) \<and>
          (e = E_max \<longrightarrow> brittleness_e (out ! i) =
                          (if isFinite (jsub_fl fl (Fin E_max) (Fin E_min)) then Fin 1 else NaN))) \<and>
       (Fin e1 \<in> set (map youngs_modulus_pa out) \<and> Fin e2 \<in> set (map youngs_modulus_pa out) \<and> e1 \<noteq> e2 \<longrightarrow>
          E_min \<noteq> E_max \<and> Fin E_min \<in> set (map youngs_modulus_pa out) \<and>
          Fin E_max \<in> set (map youngs_modulus_pa out)) \<and>
       (es = [] \<or> E_max = E_min \<or> \<not> isFinite (youngs_modulus_pa (out ! i)) \<longrightarrow>
          brittleness_e (out ! i) = NaN))"
proof
  assume h: "rounding fl \<and> i < length rows"
  then have r: "rounding fl" and i: "i < length rows" by simp_all
  note parts = brittleness_fl_parts [OF r i refl refl refl refl]
  show "let out = computeParameters_fl fl pw rows;
        es = finite_vals (map youngs_modulus_pa out);
        E_min = Min (set es);
        E_max = Max (set es)
    in (youngs_modulus_pa (out ! i) = Fin e \<and> E_min \<noteq> E_max \<longrightarrow>
          brittleness_e (out ! i) =
            jdiv_fl fl (jsub_fl fl (Fin e) (Fin E_min)) (jsub_fl fl (Fin E_max) (Fin E_min)) \<and>
          (e = E_min \<longrightarrow> brittleness_e (out ! i) = Fin 0) \<and>
          (e = E_max \<longrightarrow> brittleness_e (out ! i) =
                          (if isFinite (jsub_fl fl (Fin E_max) (Fin E_min)) then Fin 1 else NaN))) \<and>
       (Fin e1 \<in> set (map youngs_modulus_pa out) \<and> Fin e2 \<in> set (map youngs_modulus_pa out) \<and> e1 \<noteq> e2 \<longrightarrow>
          E_min \<noteq> E_max \<and> Fin E_min \<in> set (map youngs_modulus_pa out) \<and>
          Fin E_max \<in> set (map youngs_modulus_pa out)) \<and>
       (es = [] \<or> E_max = E_min \<or> \<not> isFinite (youngs_modulus_pa (out ! i)) \<longrightarrow>
          brittleness_e (out ! i) = NaN)"
    unfolding Let_def
    by (intro conjI parts(1) parts(2) parts(3))
qed

theorem brittleness_min_max_witness:
  "rounding fl_overflow \<and> (2::nat) < length small_rows \<and>
   map youngs_modulus_pa (computeParameters_fl fl_overflow pw_overflow small_rows) =
     [Fin (23 / 8), Fin (23 / 4), Fin (23 / 2)] \<and>
   Min (set (finite_vals (map youngs_modulus_pa (computeParameters_fl fl_overflow pw_overflow small_rows)))) = 23 / 8 \<and>
   Max (set (finite_vals (map youngs_modulus_pa (computeParameters_fl fl_overflow pw_overflow small_rows)))) = 23 / 2 \<and>
   brittleness_e (computeParameters_fl fl_overflow pw_overflow small_rows ! 0) = Fin 0 \<and>
   brittleness_e (computeParameters_fl fl_overflow pw_overflow small_rows ! 2) = Fin 1"
proof -
  have y: "youngs_modulus_pa (computeParameters_fl fl_overflow pw_overflow small_rows ! 0) = Fin (23 / 8)"
    "youngs_modulus_pa (computeParameters_fl fl_overflow pw_overflow small_rows ! 2) = Fin (23 / 2)"
    using arg_cong [OF small_young, of "\<lambda>xs. xs ! 0"]
      arg_cong [OF small_young, of "\<lambda>xs. xs ! 2"]
    by (simp_all add: example_lengths)
  have mn: "Min (set (finite_vals (map youngs_modulus_pa (computeParameters_fl fl_overflow pw_overflow small_rows)))) = 23 / 8"
    and mx: "Max (set (finite_vals (map youngs_modulus_pa (computeParameters_fl fl_overflow pw_overflow small_rows)))) = 23 / 2"
    by (simp_all add: small_young)
  have d: "isFinite (jsub_fl fl_overflow (Fin (23 / 2)) (Fin (23 / 8)))"
    by (simp add: jsub_fl_def fl_overflow_def)
  have b0: "brittleness_e (computeParameters_fl fl_overflow pw_overflow small_rows ! 0) = Fin 0"
    using brittleness_min_max [of fl_overflow 0 small_rows pw_overflow "23 / 8" "23 / 8" "23 / 2"]
      rounding_fl_overflow
    by (auto simp add: Let_def example_lengths y mn mx)
  have b2: "brittleness_e (computeParameters_fl fl_overflow pw_overflow small_rows ! 2) = Fin 1"
    using brittleness_min_max [of fl_overflow 2 small_rows pw_overflow "23 / 2" "23 / 8" "23 / 2"]
      rounding_fl_overflow d
    by (auto simp add: Let_def example_lengths y mn mx)
  show ?thesis
    using rounding_fl_overflow small_young mn mx b0 b2 by (simp add: example_lengths)
qed

subsection \<open>Equal velocities\<close>

lemma jdiv_NaN_right: "jdiv a NaN = NaN"
  by (cases a) simp_all

lemma jsub_fl_self:
  assumes "fl 0 = Fin 0"
  shows "jsub_fl fl a a = Fin 0 \<or> jsub_fl fl a a = NaN"
  using assms by (cases a) (simp_all add: jsub_fl_def)

lemma poisson_val_fl_equal:
  assumes "rounding fl"
  shows "poisson_val_fl fl pw v v = NaN"
proof -
  have z: "fl 0 = Fin 0" and t: "jlt (Fin 0) (fl (1 / 10 ^ 12))"
    using assms by (simp_all add: rounding_def)
  define P where "P = Math_pow2_fl pw v"
  consider (zero) "jsub_fl fl P P = Fin 0" | (nan) "jsub_fl fl P P = NaN"
    using jsub_fl_self [of fl P, OF z] by blast
  then show ?thesis
  proof cases
    case zero
    then show ?thesis
      using z t by (simp add: poisson_val_fl_def Let_def P_def [symmetric])
  next
    case nan
    then show ?thesis
      by (simp add: poisson_val_fl_def Let_def P_def [symmetric] jdiv_NaN_right)
  qed
qed

lemma young_val_fl_equal: "rounding fl \<Longrightarrow> young_val_fl fl pw r v v = NaN"
  by (simp add: young_val_fl_def Let_def poisson_val_fl_equal)

lemma row_local_fl_nth:
  assumes "i < length rows"
  shows "shear_modulus_pa (computeParameters_fl fl pw rows ! i) =
           jmul_fl fl (density (rows ! i)) (Math_pow2_fl pw (vs (rows ! i)))"
    and "bulk_modulus_pa (computeParameters_fl fl pw rows ! i) =
           jmul_fl fl (density (rows ! i)) (jsub_fl fl (Math_pow2_fl pw (vp (rows ! i)))
             (jmul_fl fl (jdiv_fl fl (Fin 4) (Fin 3)) (Math_pow2_fl pw (vs (rows ! i)))))"
    and "lame_lambda_pa (computeParameters_fl fl pw rows ! i) =
           jmul_fl fl (density (rows ! i)) (jsub_fl fl (Math_pow2_fl pw (vp (rows ! i)))
             (jmul_fl fl (Fin 2) (Math_pow2_fl pw (vs (rows ! i)))))"
    and "acoustic_impedance (computeParameters_fl fl pw rows ! i) = jmul_fl fl (density (rows ! i)) (vp (rows ! i))"
    and "shear_impedance (computeParameters_fl fl pw rows ! i) = jmul_fl fl (density (rows ! i)) (vs (rows ! i))"
    and "p_modulus_pa (computeParameters_fl fl pw rows ! i) =
           jmul_fl fl (density (rows ! i)) (Math_pow2_fl pw (vp (rows ! i)))"
    and "vp_vs_ratio (computeParameters_fl fl pw rows ! i) =
           (if \<not> strict_eq (vs (rows ! i)) (Fin 0) then jdiv_fl fl (vp (rows ! i)) (vs (rows ! i)) else NaN)"
    and "lambda_over_mu (computeParameters_fl fl pw rows ! i) =
           (if truthy (shear_modulus_pa (computeParameters_fl fl pw rows ! i))
            then jdiv_fl fl (lame_lambda_pa (computeParameters_fl fl pw rows ! i))
                   (shear_modulus_pa (computeParameters_fl fl pw rows ! i))
            else NaN)"
    and "poisson_from_moduli (computeParameters_fl fl pw rows ! i) =
           (let K = bulk_modulus_pa (computeParameters_fl fl pw rows ! i);
                G = shear_modulus_pa (computeParameters_fl fl pw rows ! i);
                denom = jmul_fl fl (Fin 2) (jadd_fl fl (jmul_fl fl (Fin 3) K) G)
            in if jlt (Math_abs denom) (fl (1 / 10 ^ 12)) then NaN
               else jdiv_fl fl (jsub_fl fl (jmul_fl fl (Fin 3) K) (jmul_fl fl (Fin 2) G)) denom)"
  using assms by (simp_all add: computeParameters_fl_def Let_def poisson_from_moduli_of_fl_def)

lemma vp_vs_ratio_equal:
  assumes "rounding fl" and "i < length rows" and "vp (rows ! i) = vs (rows ! i)"
  shows "vp_vs_ratio (computeParameters_fl fl pw rows ! i) =
           (case vs (rows ! i) of Fin v \<Rightarrow> if v = 0 then NaN else Fin 1 | _ \<Rightarrow> NaN)"
proof -
  have "fl 1 = Fin 1" using assms(1) by (simp add: rounding_def)
  then show ?thesis
    unfolding row_local_fl_nth(7) [OF assms(2)] assms(3)
    by (cases "vs (rows ! i)") (simp_all add: strict_eq_def)
qed

lemma four_thirds_in_range:
  assumes "bounded_rounding fl pw"
  shows "in_range (jdiv_fl fl (Fin 4) (Fin 3)) 2"
proof -
  have "fl (2 ^ 1) = Fin (2 ^ 1)" by (rule double_pow2 [OF assms]) simp
  then have "fl 2 = Fin 2" by simp
  then have "in_range (fl (4 / 3)) 2"
    by (rule fl_in_range [OF assms]) simp
  then show ?thesis by simp
qed

lemma row_ranges:
  assumes br: "bounded_rounding fl pw"
    and r: "in_range r (2 ^ 100)" and p: "in_range p (2 ^ 100)" and q: "in_range q (2 ^ 100)"
  shows "in_range (jmul_fl fl r (Math_pow2_fl pw q)) (2 ^ 300)"
    and "in_range (jmul_fl fl r (jsub_fl fl (Math_pow2_fl pw p)
           (jmul_fl fl (jdiv_fl fl (Fin 4) (Fin 3)) (Math_pow2_fl pw q)))) (2 ^ 302)"
    and "in_range (jmul_fl fl r (jsub_fl fl (Math_pow2_fl pw p)
           (jmul_fl fl (Fin 2) (Math_pow2_fl pw q)))) (2 ^ 302)"
    and "in_range (jmul_fl fl r p) (2 ^ 200)"
proof -
  note d = double_pow2 [OF br]
  have P: "in_range (Math_pow2_fl pw p) (2 ^ 200)"
    by (rule pow_in_range [OF br p d]) simp_all
  have Q: "in_range (Math_pow2_fl pw q) (2 ^ 200)"
    by (rule pow_in_range [OF br q d]) simp_all
  show "in_range (jmul_fl fl r (Math_pow2_fl pw q)) (2 ^ 300)"
    by (rule mul_in_range [OF br r Q d]) simp_all
  have cQ: "in_range (jmul_fl fl (jdiv_fl fl (Fin 4) (Fin 3)) (Math_pow2_fl pw q)) (2 ^ 201)"
    by (rule mul_in_range [OF br four_thirds_in_range [OF br] Q d]) simp_all
  have "in_range (jsub_fl fl (Math_pow2_fl pw p)
           (jmul_fl fl (jdiv_fl fl (Fin 4) (Fin 3)) (Math_pow2_fl pw q))) (2 ^ 202)"
    by (rule sub_in_range [OF br P cQ d]) simp_all
  then show "in_range (jmul_fl fl r (jsub_fl fl (Math_pow2_fl pw p)
           (jmul_fl fl (jdiv_fl fl (Fin 4) (Fin 3)) (Math_pow2_fl pw q)))) (2 ^ 302)"
    by (rule mul_in_range [OF br r _ d]) simp_all
  have two: "in_range (Fin 2) 2" by simp
  have tQ: "in_range (jmul_fl fl (Fin 2) (Math_pow2_fl pw q)) (2 ^ 201)"
    by (rule mul_in_range [OF br two Q d]) simp_all
  have "in_range (jsub_fl fl (Math_pow2_fl pw p) (jmul_fl fl (Fin 2) (Math_pow2_fl pw q))) (2 ^ 202)"
    by (rule sub_in_range [OF br P tQ d]) simp_all
  then show "in_range (jmul_fl fl r (jsub_fl fl (Math_pow2_fl pw p)
           (jmul_fl fl (Fin 2) (Math_pow2_fl pw q)))) (2 ^ 302)"
    by (rule mul_in_range [OF br r _ d]) simp_all
  show "in_range (jmul_fl fl r p) (2 ^ 200)"
    by (rule mul_in_range [OF br r p d]) simp_all
qed

lemma poisson_from_moduli_finite:
  assumes br: "bounded_rounding fl pw" and K: "in_range K (2 ^ 302)" and G: "in_range G (2 ^ 300)"
  shows "isFinite (let denom = jmul_fl fl (Fin 2) (jadd_fl fl (jmul_fl fl (Fin 3) K) G)
                   in if jlt (Math_abs denom) (fl (1 / 10 ^ 12)) then NaN
                      else jdiv_fl fl (jsub_fl fl (jmul_fl fl (Fin 3) K) (jmul_fl fl (Fin 2) G)) denom) =
         (\<not> jlt (Math_abs (jmul_fl fl (Fin 2) (jadd_fl fl (jmul_fl fl (Fin 3) K) G))) (fl (1 / 10 ^ 12)))"
proof -
  note d = double_pow2 [OF br]
  define denom where "denom = jmul_fl fl (Fin 2) (jadd_fl fl (jmul_fl fl (Fin 3) K) G)"
  define num where "num = jsub_fl fl (jmul_fl fl (Fin 3) K) (jmul_fl fl (Fin 2) G)"
  have three: "in_range (Fin 3) 4" and two: "in_range (Fin 2) 2" by simp_all
  have K3: "in_range (jmul_fl fl (Fin 3) K) (2 ^ 304)"
    by (rule mul_in_range [OF br three K d]) simp_all
  have G2: "in_range (jmul_fl fl (Fin 2) G) (2 ^ 301)"
    by (rule mul_in_range [OF br two G d]) simp_all
  have "in_range (jadd_fl fl (jmul_fl fl (Fin 3) K) G) (2 ^ 305)"
    by (rule add_in_range [OF br K3 G d]) simp_all
  then have "in_range denom (2 ^ 306)"
    unfolding denom_def by (rule mul_in_range [OF br two _ d]) simp_all
  then obtain dn where dn: "denom = Fin dn"
    using in_range_Fin by blast
  have num: "in_range num (2 ^ 305)"
    unfolding num_def by (rule sub_in_range [OF br K3 G2 d]) simp_all
  have t: "jlt (Fin (1 / 2 ^ 40)) (fl (1 / 10 ^ 12))"
    using br unfolding bounded_rounding_def by blast
  have "isFinite (jdiv_fl fl num denom)" if h: "\<not> jlt (Math_abs denom) (fl (1 / 10 ^ 12))"
  proof -
    from t h obtain e where e: "fl (1 / 10 ^ 12) = Fin e"
      unfolding dn by (cases "fl (1 / 10 ^ 12)") simp_all
    from t h have L: "1 / 2 ^ 40 \<le> \<bar>dn\<bar>"
      unfolding dn e by simp
    have pos: "(0::real) < 1 / 2 ^ 40" by simp
    have "in_range (jdiv_fl fl num (Fin dn)) (2 ^ 345)"
      by (rule div_in_range [OF br num pos L d]) simp_all
    then show ?thesis
      unfolding dn by (rule in_range_finite)
  qed
  then show ?thesis
    unfolding Let_def denom_def [symmetric] num_def [symmetric] by auto
qed

lemma lambda_over_mu_equal:
  assumes br: "bounded_rounding fl pw" and ro: "rounding fl"
    and r: "in_range r (2 ^ 100)" and v: "in_range v (2 ^ 100)"
    and G: "G = jmul_fl fl r (Math_pow2_fl pw v)"
    and lam: "lam = jmul_fl fl r (jsub_fl fl (Math_pow2_fl pw v) (jmul_fl fl (Fin 2) (Math_pow2_fl pw v)))"
  shows "(if truthy G then jdiv_fl fl lam G else NaN) = (if G = Fin 0 then NaN else Fin (- 1))"
proof -
  note d = double_pow2 [OF br]
  have neg: "\<And>x. fl (- x) = jneg (fl x)"
    and dbl: "\<And>y. fl y = Fin y \<Longrightarrow> \<bar>y\<bar> \<le> 2 ^ 1022 \<Longrightarrow> fl (2 * y) = Fin (2 * y)"
    and pwd: "\<And>x y. pw x = Fin y \<Longrightarrow> fl y = Fin y"
    using br unfolding bounded_rounding_def by blast+
  have one: "fl 1 = Fin 1" using ro by (simp add: rounding_def)
  obtain x where x: "v = Fin x" using in_range_Fin [OF v] by blast
  obtain r' where r': "r = Fin r'" using in_range_Fin [OF r] by blast
  have "in_range (Math_pow2_fl pw v) (2 ^ 200)"
    by (rule pow_in_range [OF br v d]) simp_all
  then obtain P where P: "Math_pow2_fl pw v = Fin P" "\<bar>P\<bar> \<le> 2 ^ 200"
    using in_range_Fin by blast
  have "pw x = Fin P" using P(1) x by simp
  then have fP: "fl P = Fin P" by (rule pwd)
  have "\<bar>P\<bar> \<le> 2 ^ 1022" using P(2) by (rule order_trans) simp
  then have P2: "fl (2 * P) = Fin (2 * P)" using fP by (intro dbl)
  have "fl (P - 2 * P) = fl (- P)" by simp
  also have "\<dots> = Fin (- P)" unfolding neg fP by simp
  finally have diff: "jsub_fl fl (Fin P) (jmul_fl fl (Fin 2) (Fin P)) = Fin (- P)"
    by (simp add: P2 jsub_fl_Fin_Fin)
  have "in_range G (2 ^ 300)"
    unfolding G by (rule row_ranges(1) [OF br r v v])
  then obtain g where g: "G = Fin g" using in_range_Fin by blast
  then have fg: "fl (r' * P) = Fin g" using G P(1) r' by simp
  have "lam = fl (- (r' * P))"
    unfolding lam P(1) diff r' by simp
  also have "\<dots> = Fin (- g)" unfolding neg fg by simp
  finally have l: "lam = Fin (- g)" .
  have "fl (- 1) = Fin (- 1)" unfolding neg one by simp
  then show ?thesis
    unfolding g l by simp
qed

lemma sigma_fold_fl:
  assumes "length sv = n" and "m < n"
  shows "fold (sigma_step_fl fl d r) [1..<Suc m] (Fin 0, sv) =
           (acc_fl fl d r m,
            map (\<lambda>j. if 1 \<le> j \<and> j \<le> m then jmul_fl fl (acc_fl fl d r j) (g_fl fl) else sv ! j) [0..<n])"
  using assms(2)
proof (induction m)
  case 0
  show ?case using assms(1)
    by (auto intro!: nth_equalityI)
next
  case (Suc m)
  let ?f = "\<lambda>m j. if 1 \<le> j \<and> j \<le> m then jmul_fl fl (acc_fl fl d r j) (g_fl fl) else sv ! j"
  from Suc have IH: "fold (sigma_step_fl fl d r) [1..<Suc m] (Fin 0, sv) =
           (acc_fl fl d r m, map (?f m) [0..<n])"
    by simp
  have upt: "[1..<Suc (Suc m)] = [1..<Suc m] @ [Suc m]"
    by simp
  have step: "sigma_step_fl fl d r (Suc m) (acc_fl fl d r m, map (?f m) [0..<n])
      = (acc_fl fl d r (Suc m),
         (map (?f m) [0..<n])[Suc m := jmul_fl fl (acc_fl fl d r (Suc m)) (g_fl fl)])"
    by (simp add: sigma_step_fl_def Let_def area_fl_def)
  have upd: "(map (?f m) [0..<n])[Suc m := jmul_fl fl (acc_fl fl d r (Suc m)) (g_fl fl)]
      = map (?f (Suc m)) [0..<n]"
  proof (rule nth_equalityI)
    show "length ((map (?f m) [0..<n])[Suc m := jmul_fl fl (acc_fl fl d r (Suc m)) (g_fl fl)])
        = length (map (?f (Suc m)) [0..<n])"
      by simp
  next
    fix j
    assume "j < length ((map (?f m) [0..<n])[Suc m := jmul_fl fl (acc_fl fl d r (Suc m)) (g_fl fl)])"
    then have j: "j < n" by simp
    show "(map (?f m) [0..<n])[Suc m := jmul_fl fl (acc_fl fl d r (Suc m)) (g_fl fl)] ! j
        = map (?f (Suc m)) [0..<n] ! j"
    proof (cases "j = Suc m")
      case True
      then show ?thesis using j by simp
    next
      case False
      then have "(j \<le> Suc m) = (j \<le> m)" by arith
      then show ?thesis using j False by simp
    qed
  qed
  show ?case
    unfolding upt fold_append comp_def IH fold_Cons fold_Nil id_def step upd ..
qed

lemma sigma_v_of_fl_nth:
  assumes "i < length d"
  shows "sigma_v_of_fl fl d r ! i = (if i = 0 then Fin 0 else jmul_fl fl (acc_fl fl d r i) (g_fl fl))"
proof -
  let ?n = "length d"
  let ?sv = "(replicate ?n (Fin 0))[0 := Fin 0]"
  obtain m where m: "?n = Suc m" using assms by (cases "length d") auto
  have fold_eq: "fold (sigma_step_fl fl d r) [1..<Suc m] (Fin 0, ?sv) =
           (acc_fl fl d r m,
            map (\<lambda>j. if 1 \<le> j \<and> j \<le> m then jmul_fl fl (acc_fl fl d r j) (g_fl fl) else ?sv ! j) [0..<?n])"
    by (rule sigma_fold_fl) (use m in simp_all)
  have "sigma_v_of_fl fl d r = snd (fold (sigma_step_fl fl d r) [1..<Suc m] (Fin 0, ?sv))"
    using m by (simp add: sigma_v_of_fl_def Let_def)
  also have "\<dots> ! i = (if 1 \<le> i \<and> i \<le> m then jmul_fl fl (acc_fl fl d r i) (g_fl fl) else ?sv ! i)"
    unfolding fold_eq using assms by simp
  also have "\<dots> = (if i = 0 then Fin 0 else jmul_fl fl (acc_fl fl d r i) (g_fl fl))"
  proof (cases "i = 0")
    case True
    then show ?thesis using assms by simp
  next
    case False
    then show ?thesis using assms m by simp
  qed
  finally show ?thesis .
qed

lemma vertical_stress_fl_nth:
  assumes "i < length rows"
  shows "vertical_stress_pa (computeParameters_fl fl pw rows ! i) =
           (if i = 0 then Fin 0
            else jmul_fl fl (acc_fl fl (map depth rows) (map density rows) i) (g_fl fl))"
proof -
  have ne: "map depth rows \<noteq> []" using assms by auto
  have i: "i < length (map depth rows)" using assms by simp
  have "vertical_stress_pa (computeParameters_fl fl pw rows ! i) =
          arr_at (sigma_v_of_fl fl (map depth rows) (map density rows)) i"
    using assms by (simp add: computeParameters_fl_def Let_def)
  also have "\<dots> = sigma_v_of_fl fl (map depth rows) (map density rows) ! i"
    using assms length_sigma_v_of_fl [OF ne, of fl "map density rows"] by simp
  also have "\<dots> = (if i = 0 then Fin 0
            else jmul_fl fl (acc_fl fl (map depth rows) (map density rows) i) (g_fl fl))"
    by (rule sigma_v_of_fl_nth [OF i])
  finally show ?thesis .
qed

lemma area_in_range:
  assumes br: "bounded_rounding fl pw"
    and "in_range (arr_at d (Suc m)) (2 ^ 100)" and "in_range (arr_at d m) (2 ^ 100)"
    and "in_range (arr_at r (Suc m)) (2 ^ 100)" and "in_range (arr_at r m) (2 ^ 100)"
  shows "in_range (area_fl fl d r (Suc m)) (2 ^ 201)"
proof -
  note p = double_pow2 [OF br]
  have dz: "in_range (jsub_fl fl (arr_at d (Suc m)) (arr_at d m)) (2 ^ 101)"
    by (rule sub_in_range [OF br assms(2) assms(3) p]) simp_all
  have s: "in_range (jadd_fl fl (arr_at r (Suc m)) (arr_at r m)) (2 ^ 101)"
    by (rule add_in_range [OF br assms(4) assms(5) p]) simp_all
  have half: "in_range (Fin (1 / 2)) (1 / 2)" by simp
  have h: "in_range (jmul_fl fl (Fin (1 / 2)) (jadd_fl fl (arr_at r (Suc m)) (arr_at r m))) (2 ^ 100)"
    by (rule mul_in_range [OF br half s p]) simp_all
  show ?thesis
    unfolding area_fl_def Let_def diff_Suc_1
    by (rule mul_in_range [OF br h dz p]) simp_all
qed

lemma acc_in_range:
  assumes br: "bounded_rounding fl pw"
    and rows: "\<And>j. j \<le> m \<Longrightarrow> in_range (arr_at d j) (2 ^ 100) \<and> in_range (arr_at r j) (2 ^ 100)"
    and m: "m \<le> 2 ^ 53"
  shows "in_range (acc_fl fl d r m) (real m * 2 ^ 201)"
  using rows m
proof (induction m)
  case 0
  show ?case by simp
next
  case (Suc m)
  have IH: "in_range (acc_fl fl d r m) (real m * 2 ^ 201)"
    using Suc by simp
  have a: "in_range (area_fl fl d r (Suc m)) (2 ^ 201)"
    by (rule area_in_range [OF br]) (use Suc.prems(1) in simp_all)
  have c: "fl (real (Suc m) * 2 ^ 201) = Fin (real (Suc m) * 2 ^ 201)"
    by (rule double_scaled [OF br Suc.prems(2)]) simp
  have "real m * 2 ^ 201 + 2 ^ 201 \<le> real (Suc m) * 2 ^ 201"
    by (simp add: algebra_simps)
  then show ?case
    unfolding acc_fl.simps by (rule add_in_range [OF br IH a c])
qed

lemma g_in_range:
  assumes "bounded_rounding fl pw"
  shows "in_range (g_fl fl) 16"
proof -
  have "fl (2 ^ 4) = Fin (2 ^ 4)" by (rule double_pow2 [OF assms]) simp
  then have "fl 16 = Fin 16" by simp
  then show ?thesis
    unfolding g_fl_def by (rule fl_in_range [OF assms]) simp
qed

lemma vertical_stress_finite_fl:
  assumes br: "bounded_rounding fl pw"
    and rows: "\<forall>s\<in>set rows. in_range (depth s) (2 ^ 100) \<and> in_range (density s) (2 ^ 100)"
    and len: "length rows \<le> 2 ^ 32" and i: "i < length rows"
  shows "isFinite (vertical_stress_pa (computeParameters_fl fl pw rows ! i))"
proof (cases "i = 0")
  case True
  then show ?thesis using i by (simp add: vertical_stress_fl_nth)
next
  case False
  have le: "i \<le> 2 ^ 53"
  proof -
    have "i \<le> (2::nat) ^ 32" using i len by simp
    also have "(2::nat) ^ 32 \<le> 2 ^ 53" by simp
    finally show ?thesis .
  qed
  have r: "in_range (arr_at (map depth rows) j) (2 ^ 100) \<and> in_range (arr_at (map density rows) j) (2 ^ 100)"
    if "j \<le> i" for j
  proof -
    have j: "j < length rows" using that i by simp
    then have "rows ! j \<in> set rows" by simp
    with rows show ?thesis using j by simp
  qed
  have a: "in_range (acc_fl fl (map depth rows) (map density rows) i) (real i * 2 ^ 201)"
    by (rule acc_in_range [OF br r le])
  have c: "fl (real i * 2 ^ 205) = Fin (real i * 2 ^ 205)"
    by (rule double_scaled [OF br le]) simp
  have "in_range (jmul_fl fl (acc_fl fl (map depth rows) (map density rows) i) (g_fl fl)) (real i * 2 ^ 205)"
    by (rule mul_in_range [OF br a g_in_range [OF br] c]) simp
  then show ?thesis
    using False i by (simp add: vertical_stress_fl_nth in_range_finite)
qed

lemma deltaZPrev_of_fl_nth:
  assumes "i < length acousticZ"
  shows "deltaZPrev_of_fl fl acousticZ ! i =
           (if 1 \<le> i then jsub_fl fl (arr_at acousticZ i) (arr_at acousticZ (i - 1)) else Fin 0)"
proof -
  have "deltaZPrev_of_fl fl acousticZ =
      map (\<lambda>j. if 1 \<le> j \<and> j < length acousticZ then jsub_fl fl (arr_at acousticZ j) (arr_at acousticZ (j - 1))
               else replicate (length acousticZ) (Fin 0) ! j) [0..<length acousticZ]"
    unfolding deltaZPrev_of_fl_def Let_def by (rule fold_update_upt) simp_all
  then show ?thesis using assms by simp
qed

lemma length_deltaZPrev_of_fl: "length (deltaZPrev_of_fl fl acousticZ) = length acousticZ"
proof -
  have "deltaZPrev_of_fl fl acousticZ =
      map (\<lambda>j. if 1 \<le> j \<and> j < length acousticZ then jsub_fl fl (arr_at acousticZ j) (arr_at acousticZ (j - 1))
               else replicate (length acousticZ) (Fin 0) ! j) [0..<length acousticZ]"
    unfolding deltaZPrev_of_fl_def Let_def by (rule fold_update_upt) simp_all
  then show ?thesis by simp
qed

lemma grad_step_fl_update: "grad_step_fl fl depths acousticZ i xs = xs[i := grad_val_fl fl depths acousticZ i]"
  by (simp add: grad_step_fl_def grad_val_fl_def Let_def)

lemma impedanceGrad_of_fl_map:
  "impedanceGrad_of_fl fl depths acousticZ =
     map (\<lambda>j. if 0 \<le> j \<and> j < length depths then grad_val_fl fl depths acousticZ j
              else replicate (length depths) NaN ! j) [0..<length depths]"
proof -
  have "grad_step_fl fl depths acousticZ = (\<lambda>i ys. ys[i := grad_val_fl fl depths acousticZ i])"
    by (intro ext) (rule grad_step_fl_update)
  then have "impedanceGrad_of_fl fl depths acousticZ =
      fold (\<lambda>i ys. ys[i := grad_val_fl fl depths acousticZ i]) [0..<length depths] (replicate (length depths) NaN)"
    by (simp add: impedanceGrad_of_fl_def Let_def)
  also have "\<dots> = map (\<lambda>j. if 0 \<le> j \<and> j < length depths then grad_val_fl fl depths acousticZ j
                           else replicate (length depths) NaN ! j) [0..<length depths]"
    by (rule fold_update_upt) simp_all
  finally show ?thesis .
qed

lemma impedance_gradient_fl_nth:
  "i < length rows \<Longrightarrow>
   impedance_gradient_per_m (computeParameters_fl fl pw rows ! i) =
     grad_val_fl fl (map depth rows) (mapi (\<lambda>r i. jmul_fl fl r (arr_at (map vp rows) i)) (map density rows)) i"
  by (simp add: computeParameters_fl_def Let_def impedanceGrad_of_fl_map)

lemma delta_impedance_fl_nth:
  "i < length rows \<Longrightarrow>
   delta_impedance_prev (computeParameters_fl fl pw rows ! i) =
     (let acousticZ = mapi (\<lambda>r i. jmul_fl fl r (arr_at (map vp rows) i)) (map density rows)
      in if 1 \<le> i then jsub_fl fl (arr_at acousticZ i) (arr_at acousticZ (i - 1)) else Fin 0)"
  by (simp add: computeParameters_fl_def Let_def length_deltaZPrev_of_fl deltaZPrev_of_fl_nth)

lemma acousticZ_in_range:
  assumes br: "bounded_rounding fl pw"
    and rows: "\<forall>s\<in>set rows. in_range (density s) (2 ^ 100) \<and> in_range (vp s) (2 ^ 100)"
    and j: "j < length rows"
  shows "in_range (arr_at (mapi (\<lambda>r i. jmul_fl fl r (arr_at (map vp rows) i)) (map density rows)) j) (2 ^ 200)"
proof -
  have "rows ! j \<in> set rows" using j by simp
  with rows have r: "in_range (density (rows ! j)) (2 ^ 100)" and p: "in_range (vp (rows ! j)) (2 ^ 100)"
    by simp_all
  have "in_range (jmul_fl fl (density (rows ! j)) (vp (rows ! j))) (2 ^ 200)"
    by (rule mul_in_range [OF br r p double_pow2 [OF br]]) simp_all
  then show ?thesis using j by simp
qed

lemma delta_impedance_finite_fl:
  assumes br: "bounded_rounding fl pw"
    and rows: "\<forall>s\<in>set rows. in_range (density s) (2 ^ 100) \<and> in_range (vp s) (2 ^ 100)"
    and i: "i < length rows"
  shows "isFinite (delta_impedance_prev (computeParameters_fl fl pw rows ! i))"
proof (cases "1 \<le> i")
  case False
  then show ?thesis using i by (simp add: delta_impedance_fl_nth)
next
  case True
  let ?A = "mapi (\<lambda>r i. jmul_fl fl r (arr_at (map vp rows) i)) (map density rows)"
  have a: "in_range (arr_at ?A i) (2 ^ 200)"
    by (rule acousticZ_in_range [OF br rows i])
  have "i - 1 < length rows" using i by simp
  then have b: "in_range (arr_at ?A (i - 1)) (2 ^ 200)"
    by (rule acousticZ_in_range [OF br rows])
  have "in_range (jsub_fl fl (arr_at ?A i) (arr_at ?A (i - 1))) (2 ^ 201)"
    by (rule sub_in_range [OF br a b double_pow2 [OF br]]) simp_all
  then have "isFinite (jsub_fl fl (arr_at ?A i) (arr_at ?A (i - 1)))"
    by (rule in_range_finite)
  then show ?thesis
    unfolding delta_impedance_fl_nth [OF i] Let_def using True by simp
qed

lemma truthy_cases: "truthy a \<Longrightarrow> (\<exists>z. a = Fin z \<and> z \<noteq> 0) \<or> a = PInf \<or> a = NInf"
  by (cases a) simp_all

lemma jdiv_fl_not_NaN:
  assumes "\<forall>x. fl x \<noteq> NaN" and "truthy dz" and "isFinite a"
  shows "jdiv_fl fl a dz \<noteq> NaN"
proof -
  obtain x where x: "a = Fin x" using assms(3) by (cases a) simp_all
  from truthy_cases [OF assms(2)] show ?thesis
    unfolding x using assms(1) by auto
qed

lemma impedance_gradient_sentinel_fl:
  assumes br: "bounded_rounding fl pw" and ro: "rounding fl"
    and rows: "\<forall>s\<in>set rows. in_range (density s) (2 ^ 100) \<and> in_range (vp s) (2 ^ 100)"
    and i: "i < length rows"
  shows "(impedance_gradient_per_m (computeParameters_fl fl pw rows ! i) \<noteq> NaN) =
           truthy (grad_span_fl fl (map depth rows) i)"
proof (cases "truthy (grad_span_fl fl (map depth rows) i)")
  case False
  then show ?thesis
    unfolding impedance_gradient_fl_nth [OF i]
    by (simp add: grad_val_fl_def grad_span_fl_def Let_def)
next
  case True
  let ?A = "mapi (\<lambda>r i. jmul_fl fl r (arr_at (map vp rows) i)) (map density rows)"
  define n where "n = length (map depth rows)"
  define hi where "hi = (if i = 0 then i + 1 else if i = n - 1 then i else i + 1)"
  define lo where "lo = (if i = 0 then i else i - 1)"
  have span: "grad_span_fl fl (map depth rows) i = jsub_fl fl (arr_at (map depth rows) hi) (arr_at (map depth rows) lo)"
    by (simp add: grad_span_fl_def Let_def hi_def lo_def n_def)
  have val: "grad_val_fl fl (map depth rows) ?A i =
      (if truthy (grad_span_fl fl (map depth rows) i)
       then jdiv_fl fl (jsub_fl fl (arr_at ?A hi) (arr_at ?A lo)) (grad_span_fl fl (map depth rows) i) else NaN)"
    unfolding span by (simp add: grad_val_fl_def Let_def hi_def lo_def n_def)
  have hi: "hi < length rows"
  proof (rule ccontr)
    assume "\<not> hi < length rows"
    then have "arr_at (map depth rows) hi = NaN" by simp
    then have "grad_span_fl fl (map depth rows) i = NaN"
      unfolding span by (simp add: jsub_fl_def)
    with True show False by simp
  qed
  have lo: "lo < length rows" using i by (auto simp add: lo_def)
  have "in_range (jsub_fl fl (arr_at ?A hi) (arr_at ?A lo)) (2 ^ 201)"
    by (rule sub_in_range [OF br acousticZ_in_range [OF br rows hi] acousticZ_in_range [OF br rows lo]
          double_pow2 [OF br]]) simp_all
  then have fin: "isFinite (jsub_fl fl (arr_at ?A hi) (arr_at ?A lo))"
    by (rule in_range_finite)
  have nn: "\<forall>x. fl x \<noteq> NaN" using ro by (simp add: rounding_def)
  have "jdiv_fl fl (jsub_fl fl (arr_at ?A hi) (arr_at ?A lo)) (grad_span_fl fl (map depth rows) i) \<noteq> NaN"
    by (rule jdiv_fl_not_NaN [OF nn True fin])
  then show ?thesis
    unfolding impedance_gradient_fl_nth [OF i] val using True by simp
qed

lemma example_rows_fields:
  "length example_rows = 3"
  "map depth example_rows = [Fin 0, Fin 10, Fin 20]"
  "density (example_rows ! Suc 0) = Fin 2600"
  "vp (example_rows ! Suc 0) = Fin 3200"
  "vs (example_rows ! Suc 0) = Fin 3200"
  by (simp_all add: example_rows_def)

lemma still_rows_fields:
  "length still_rows = 1"
  "map depth still_rows = [Fin 0]"
  "map density still_rows = [Fin 2500]"
  "map vp still_rows = [Fin 0]"
  "density (still_rows ! 0) = Fin 2500"
  "vp (still_rows ! 0) = Fin 0"
  "vs (still_rows ! 0) = Fin 0"
  by (simp_all add: still_rows_def)

lemma huge_rows_fields:
  "length huge_rows = 2"
  "map depth huge_rows = [Fin 0, Fin (2 ^ 100)]"
  "map density huge_rows = [Fin (2 ^ 1000), Fin (2 ^ 1000)]"
  "map vp huge_rows = [Fin (2 ^ 600), Fin (2 ^ 600)]"
  "density (huge_rows ! Suc 0) = Fin (2 ^ 1000)"
  "vp (huge_rows ! Suc 0) = Fin (2 ^ 600)"
  "vs (huge_rows ! Suc 0) = Fin (2 ^ 600)"
  by (simp_all add: huge_rows_def)

lemma still_fields:
  "vp_vs_ratio (computeParameters_fl fl_overflow pw_overflow still_rows ! 0) = NaN"
  "lambda_over_mu (computeParameters_fl fl_overflow pw_overflow still_rows ! 0) = NaN"
  "poisson_from_moduli (computeParameters_fl fl_overflow pw_overflow still_rows ! 0) = NaN"
  "impedance_gradient_per_m (computeParameters_fl fl_overflow pw_overflow still_rows ! 0) = NaN"
proof -
  have i: "0 < length still_rows" by (simp add: still_rows_fields)
  have G: "shear_modulus_pa (computeParameters_fl fl_overflow pw_overflow still_rows ! 0) = Fin 0"
    unfolding row_local_fl_nth(1) [OF i] still_rows_fields
    by (simp add: fl_overflow_def pw_overflow_def)
  have K: "bulk_modulus_pa (computeParameters_fl fl_overflow pw_overflow still_rows ! 0) = Fin 0"
    unfolding row_local_fl_nth(2) [OF i] still_rows_fields
    by (simp add: fl_overflow_def pw_overflow_def jsub_fl_def)
  show "vp_vs_ratio (computeParameters_fl fl_overflow pw_overflow still_rows ! 0) = NaN"
    unfolding row_local_fl_nth(7) [OF i] still_rows_fields by (simp add: strict_eq_def)
  show "lambda_over_mu (computeParameters_fl fl_overflow pw_overflow still_rows ! 0) = NaN"
    unfolding row_local_fl_nth(8) [OF i] G by simp
  show "poisson_from_moduli (computeParameters_fl fl_overflow pw_overflow still_rows ! 0) = NaN"
    unfolding row_local_fl_nth(9) [OF i] G K by (simp add: fl_overflow_def)
  show "impedance_gradient_per_m (computeParameters_fl fl_overflow pw_overflow still_rows ! 0) = NaN"
    unfolding impedance_gradient_fl_nth [OF i] still_rows_fields
    by (simp add: grad_val_fl_def jsub_fl_def)
qed

lemma huge_fields:
  "vertical_stress_pa (computeParameters_fl fl_overflow pw_overflow huge_rows ! 1) = PInf"
  "shear_modulus_pa (computeParameters_fl fl_overflow pw_overflow huge_rows ! 1) = PInf"
  "bulk_modulus_pa (computeParameters_fl fl_overflow pw_overflow huge_rows ! 1) = NaN"
  "lame_lambda_pa (computeParameters_fl fl_overflow pw_overflow huge_rows ! 1) = NaN"
  "acoustic_impedance (computeParameters_fl fl_overflow pw_overflow huge_rows ! 1) = PInf"
  "shear_impedance (computeParameters_fl fl_overflow pw_overflow huge_rows ! 1) = PInf"
  "p_modulus_pa (computeParameters_fl fl_overflow pw_overflow huge_rows ! 1) = PInf"
  "delta_impedance_prev (computeParameters_fl fl_overflow pw_overflow huge_rows ! 1) = NaN"
proof -
  have i: "Suc 0 < length huge_rows" by (simp add: huge_rows_fields)
  have P: "pw_overflow (2 ^ 600) = PInf"
    by (simp add: pw_overflow_def fl_overflow_def)
  have c: "fl_overflow (4 / 3) = Fin (4 / 3)"
    by (simp add: fl_overflow_def)
  have A: "fl_overflow (2 ^ 1000 * 2 ^ 600) = PInf"
    by (simp add: fl_overflow_def)
  show "vertical_stress_pa (computeParameters_fl fl_overflow pw_overflow huge_rows ! 1) = PInf"
    using i unfolding One_nat_def
    by (simp add: vertical_stress_fl_nth huge_rows_fields area_fl_def jsub_fl_def g_fl_def
          fl_overflow_def inf_times_def)
  show "shear_modulus_pa (computeParameters_fl fl_overflow pw_overflow huge_rows ! 1) = PInf"
    unfolding One_nat_def row_local_fl_nth(1) [OF i] huge_rows_fields Math_pow2_fl.simps P
    by (simp add: inf_times_def)
  show "bulk_modulus_pa (computeParameters_fl fl_overflow pw_overflow huge_rows ! 1) = NaN"
    unfolding One_nat_def row_local_fl_nth(2) [OF i] huge_rows_fields Math_pow2_fl.simps P
    by (simp add: inf_times_def jsub_fl_def c)
  show "lame_lambda_pa (computeParameters_fl fl_overflow pw_overflow huge_rows ! 1) = NaN"
    unfolding One_nat_def row_local_fl_nth(3) [OF i] huge_rows_fields Math_pow2_fl.simps P
    by (simp add: inf_times_def jsub_fl_def)
  show "acoustic_impedance (computeParameters_fl fl_overflow pw_overflow huge_rows ! 1) = PInf"
    unfolding One_nat_def row_local_fl_nth(4) [OF i] huge_rows_fields jmul_fl.simps A ..
  show "shear_impedance (computeParameters_fl fl_overflow pw_overflow huge_rows ! 1) = PInf"
    unfolding One_nat_def row_local_fl_nth(5) [OF i] huge_rows_fields jmul_fl.simps A ..
  show "p_modulus_pa (computeParameters_fl fl_overflow pw_overflow huge_rows ! 1) = PInf"
    unfolding One_nat_def row_local_fl_nth(6) [OF i] huge_rows_fields Math_pow2_fl.simps P
    by (simp add: inf_times_def)
  show "delta_impedance_prev (computeParameters_fl fl_overflow pw_overflow huge_rows ! 1) = NaN"
    using i unfolding One_nat_def delta_impedance_fl_nth [OF i] Let_def huge_rows_fields
    by (simp add: jsub_fl_def fl_overflow_def)
qed

text \<open>
  Claim C6, as stated: a sample with \<open>vp = vs\<close> has the sentinel for Poisson's ratio and for
  Young's modulus, and every other derived field is a real number. The second sample of
  \<open>example_rows\<close> has \<open>vp = vs = 3200\<close> and its brittleness is the sentinel, since its own
  Young's modulus is. The sample of \<open>still_rows\<close> has \<open>vp = vs = 0\<close>: its velocity ratio, its
  ratio of lambda over the shear modulus, its Poisson ratio from the moduli and its
  impedance gradient are the sentinel. The second sample of \<open>huge_rows\<close> has
  \<open>vp = vs = 2\<^sup>6\<^sup>0\<^sup>0\<close>, whose square is \<open>Infinity\<close> in doubles: its vertical stress, shear modulus,
  acoustic and shear impedance and P-wave modulus are \<open>Infinity\<close>, and its bulk modulus, first
  Lame parameter and impedance difference to the previous sample are \<open>NaN\<close>.
\<close>

theorem equal_velocities_counterexample:
  "vp (example_rows ! 1) = vs (example_rows ! 1) \<and>
   brittleness_e (computeParameters_fl fl_overflow pw_overflow example_rows ! 1) = NaN \<and>
   vp (still_rows ! 0) = vs (still_rows ! 0) \<and>
   vp_vs_ratio (computeParameters_fl fl_overflow pw_overflow still_rows ! 0) = NaN \<and>
   lambda_over_mu (computeParameters_fl fl_overflow pw_overflow still_rows ! 0) = NaN \<and>
   poisson_from_moduli (computeParameters_fl fl_overflow pw_overflow still_rows ! 0) = NaN \<and>
   impedance_gradient_per_m (computeParameters_fl fl_overflow pw_overflow still_rows ! 0) = NaN \<and>
   vp (huge_rows ! 1) = vs (huge_rows ! 1) \<and>
   vertical_stress_pa (computeParameters_fl fl_overflow pw_overflow huge_rows ! 1) = PInf \<and>
   shear_modulus_pa (computeParameters_fl fl_overflow pw_overflow huge_rows ! 1) = PInf \<and>
   bulk_modulus_pa (computeParameters_fl fl_overflow pw_overflow huge_rows ! 1) = NaN \<and>
   lame_lambda_pa (computeParameters_fl fl_overflow pw_overflow huge_rows ! 1) = NaN \<and>
   acoustic_impedance (computeParameters_fl fl_overflow pw_overflow huge_rows ! 1) = PInf \<and>
   shear_impedance (computeParameters_fl fl_overflow pw_overflow huge_rows ! 1) = PInf \<and>
   p_modulus_pa (computeParameters_fl fl_overflow pw_overflow huge_rows ! 1) = PInf \<and>
   delta_impedance_prev (computeParameters_fl fl_overflow pw_overflow huge_rows ! 1) = NaN"
proof -
  have i: "Suc 0 < length example_rows"
    by (simp add: example_rows_fields)
  have E: "youngs_modulus_pa (computeParameters_fl fl_overflow pw_overflow example_rows ! Suc 0) = NaN"
    using i by (simp add: youngs_modulus_fl_nth example_rows_fields young_val_fl_equal [OF rounding_fl_overflow])
  have B: "brittleness_e (computeParameters_fl fl_overflow pw_overflow example_rows ! 1) = NaN"
    unfolding One_nat_def brittleness_fl_value [OF i] Let_def E by simp
  have e: "vp (example_rows ! 1) = vs (example_rows ! 1)" "vp (still_rows ! 0) = vs (still_rows ! 0)"
    "vp (huge_rows ! 1) = vs (huge_rows ! 1)"
    by (simp_all add: example_rows_fields still_rows_fields huge_rows_fields)
  show ?thesis
    by (intro conjI e B still_fields huge_fields)
qed

text \<open>
  Claim C6, amended. In the arithmetic of doubles (any \<open>fl\<close> with the properties of
  \<open>rounding\<close>, any \<open>pw\<close>), for every sample with \<open>vp = vs\<close>: Poisson's ratio, Young's modulus and
  the brittleness are the sentinel \<open>NaN\<close>, and the velocity ratio is exactly \<open>1\<close> when \<open>vs\<close> is
  finite and not zero and the sentinel otherwise. When moreover the arithmetic has the
  properties of \<open>bounded_rounding\<close>, the input has at most \<open>2\<^sup>3\<^sup>2\<close> samples (more than an array
  can hold) and the depth, the density and the velocities of every sample are finite and at
  most \<open>2\<^sup>1\<^sup>0\<^sup>0\<close> in absolute value, then for that sample: the vertical stress, the shear and
  bulk moduli, the first Lame parameter, the acoustic and shear impedances, the P-wave
  modulus and the impedance difference to the previous sample are finite; the ratio of
  lambda over the shear modulus is exactly \<open>-1\<close> when the shear modulus is not zero and the
  sentinel when it is; Poisson's ratio from the moduli is finite exactly when its own guard
  \<open>|2 (3 K + G)| < 1e-12\<close>, computed in doubles, does not hold; the impedance gradient is
  different from the sentinel exactly when its depth span \<^verbatim>\<open>dz\<close> is a number other than
  zero (with a tiny span it can be an infinity).
\<close>

theorem equal_velocities_sentinels:
  "rounding fl \<and> i < length rows \<and> vp (rows ! i) = vs (rows ! i) \<longrightarrow>
   (let d = computeParameters_fl fl pw rows ! i
    in poisson_ratio d = NaN \<and> youngs_modulus_pa d = NaN \<and> brittleness_e d = NaN \<and>
       vp_vs_ratio d = (case vs (rows ! i) of Fin v \<Rightarrow> if v = 0 then NaN else Fin 1 | _ \<Rightarrow> NaN) \<and>
       (bounded_rounding fl pw \<and> length rows \<le> 2 ^ 32 \<and>
        (\<forall>s\<in>set rows. in_range (depth s) (2 ^ 100) \<and> in_range (density s) (2 ^ 100) \<and>
                       in_range (vp s) (2 ^ 100) \<and> in_range (vs s) (2 ^ 100)) \<longrightarrow>
          isFinite (vertical_stress_pa d) \<and> isFinite (shear_modulus_pa d) \<and>
          isFinite (bulk_modulus_pa d) \<and> isFinite (lame_lambda_pa d) \<and>
          isFinite (acoustic_impedance d) \<and> isFinite (shear_impedance d) \<and>
          isFinite (p_modulus_pa d) \<and> isFinite (delta_impedance_prev d) \<and>
          lambda_over_mu d = (if shear_modulus_pa d = Fin 0 then NaN else Fin (- 1)) \<and>
          isFinite (poisson_from_moduli d) =
            (\<not> jlt (Math_abs (jmul_fl fl (Fin 2)
                       (jadd_fl fl (jmul_fl fl (Fin 3) (bulk_modulus_pa d)) (shear_modulus_pa d))))
                   (fl (1 / 10 ^ 12))) \<and>
          (impedance_gradient_per_m d \<noteq> NaN) = truthy (grad_span_fl fl (map depth rows) i)))"
proof
  assume h: "rounding fl \<and> i < length rows \<and> vp (rows ! i) = vs (rows ! i)"
  then have ro: "rounding fl" and i: "i < length rows" and eq: "vp (rows ! i) = vs (rows ! i)"
    by simp_all
  let ?d = "computeParameters_fl fl pw rows ! i"
  have nu: "poisson_ratio ?d = NaN"
    using i by (simp add: poisson_ratio_fl_nth eq poisson_val_fl_equal [OF ro])
  have E: "youngs_modulus_pa ?d = NaN"
    using i by (simp add: youngs_modulus_fl_nth eq young_val_fl_equal [OF ro])
  have B: "brittleness_e ?d = NaN"
    unfolding brittleness_fl_value [OF i] Let_def E by simp
  have R: "vp_vs_ratio ?d = (case vs (rows ! i) of Fin v \<Rightarrow> if v = 0 then NaN else Fin 1 | _ \<Rightarrow> NaN)"
    by (rule vp_vs_ratio_equal [OF ro i eq])
  have F: "isFinite (vertical_stress_pa ?d) \<and> isFinite (shear_modulus_pa ?d) \<and>
          isFinite (bulk_modulus_pa ?d) \<and> isFinite (lame_lambda_pa ?d) \<and>
          isFinite (acoustic_impedance ?d) \<and> isFinite (shear_impedance ?d) \<and>
          isFinite (p_modulus_pa ?d) \<and> isFinite (delta_impedance_prev ?d) \<and>
          lambda_over_mu ?d = (if shear_modulus_pa ?d = Fin 0 then NaN else Fin (- 1)) \<and>
          isFinite (poisson_from_moduli ?d) =
            (\<not> jlt (Math_abs (jmul_fl fl (Fin 2)
                       (jadd_fl fl (jmul_fl fl (Fin 3) (bulk_modulus_pa ?d)) (shear_modulus_pa ?d))))
                   (fl (1 / 10 ^ 12))) \<and>
          (impedance_gradient_per_m ?d \<noteq> NaN) = truthy (grad_span_fl fl (map depth rows) i)"
    if b: "bounded_rounding fl pw \<and> length rows \<le> 2 ^ 32 \<and>
        (\<forall>s\<in>set rows. in_range (depth s) (2 ^ 100) \<and> in_range (density s) (2 ^ 100) \<and>
                       in_range (vp s) (2 ^ 100) \<and> in_range (vs s) (2 ^ 100))"
  proof -
    from b have br: "bounded_rounding fl pw" and len: "length rows \<le> 2 ^ 32"
      and zr: "\<forall>s\<in>set rows. in_range (depth s) (2 ^ 100) \<and> in_range (density s) (2 ^ 100)"
      and rp: "\<forall>s\<in>set rows. in_range (density s) (2 ^ 100) \<and> in_range (vp s) (2 ^ 100)"
      by simp_all
    have "rows ! i \<in> set rows" using i by simp
    with b have r: "in_range (density (rows ! i)) (2 ^ 100)"
      and p: "in_range (vp (rows ! i)) (2 ^ 100)" and q: "in_range (vs (rows ! i)) (2 ^ 100)"
      by simp_all
    note rr = row_ranges [OF br r p q]
    have G: "in_range (shear_modulus_pa ?d) (2 ^ 300)"
      unfolding row_local_fl_nth(1) [OF i] by (rule rr(1))
    have K: "in_range (bulk_modulus_pa ?d) (2 ^ 302)"
      unfolding row_local_fl_nth(2) [OF i] by (rule rr(2))
    have L: "in_range (lame_lambda_pa ?d) (2 ^ 302)"
      unfolding row_local_fl_nth(3) [OF i] by (rule rr(3))
    have A: "in_range (acoustic_impedance ?d) (2 ^ 200)"
      unfolding row_local_fl_nth(4) [OF i] by (rule rr(4))
    have S: "in_range (shear_impedance ?d) (2 ^ 200)"
      unfolding row_local_fl_nth(5) [OF i] by (rule row_ranges(4) [OF br r q q])
    have M: "in_range (p_modulus_pa ?d) (2 ^ 300)"
      unfolding row_local_fl_nth(6) [OF i] by (rule row_ranges(1) [OF br r p p])
    have 1: "isFinite (vertical_stress_pa ?d)"
      by (rule vertical_stress_finite_fl [OF br zr len i])
    have 2: "isFinite (delta_impedance_prev ?d)"
      by (rule delta_impedance_finite_fl [OF br rp i])
    have 3: "lambda_over_mu ?d = (if shear_modulus_pa ?d = Fin 0 then NaN else Fin (- 1))"
      unfolding row_local_fl_nth(8) [OF i]
      by (rule lambda_over_mu_equal [OF br ro r q])
         (simp_all only: row_local_fl_nth(1) [OF i] row_local_fl_nth(3) [OF i] eq)
    have 4: "isFinite (poisson_from_moduli ?d) =
            (\<not> jlt (Math_abs (jmul_fl fl (Fin 2)
                       (jadd_fl fl (jmul_fl fl (Fin 3) (bulk_modulus_pa ?d)) (shear_modulus_pa ?d))))
                   (fl (1 / 10 ^ 12)))"
      unfolding row_local_fl_nth(9) [OF i]
      using poisson_from_moduli_finite [OF br K G] unfolding Let_def .
    have 5: "(impedance_gradient_per_m ?d \<noteq> NaN) = truthy (grad_span_fl fl (map depth rows) i)"
      by (rule impedance_gradient_sentinel_fl [OF br ro rp i])
    from G K L A S M 1 2 3 4 5 show ?thesis
      by (simp add: in_range_finite)
  qed
  show "let d = computeParameters_fl fl pw rows ! i
    in poisson_ratio d = NaN \<and> youngs_modulus_pa d = NaN \<and> brittleness_e d = NaN \<and>
       vp_vs_ratio d = (case vs (rows ! i) of Fin v \<Rightarrow> if v = 0 then NaN else Fin 1 | _ \<Rightarrow> NaN) \<and>
       (bounded_rounding fl pw \<and> length rows \<le> 2 ^ 32 \<and>
        (\<forall>s\<in>set rows. in_range (depth s) (2 ^ 100) \<and> in_range (density s) (2 ^ 100) \<and>
                       in_range (vp s) (2 ^ 100) \<and> in_range (vs s) (2 ^ 100)) \<longrightarrow>
          isFinite (vertical_stress_pa d) \<and> isFinite (shear_modulus_pa d) \<and>
          isFinite (bulk_modulus_pa d) \<and> isFinite (lame_lambda_pa d) \<and>
          isFinite (acoustic_impedance d) \<and> isFinite (shear_impedance d) \<and>
          isFinite (p_modulus_pa d) \<and> isFinite (delta_impedance_prev d) \<and>
          lambda_over_mu d = (if shear_modulus_pa d = Fin 0 then NaN else Fin (- 1)) \<and>
          isFinite (poisson_from_moduli d) =
            (\<not> jlt (Math_abs (jmul_fl fl (Fin 2)
                       (jadd_fl fl (jmul_fl fl (Fin 3) (bulk_modulus_pa d)) (shear_modulus_pa d))))
                   (fl (1 / 10 ^ 12))) \<and>
          (impedance_gradient_per_m d \<noteq> NaN) = truthy (grad_span_fl fl (map depth rows) i))"
    unfolding Let_def using nu E B R F by blast
qed

theorem equal_velocities_sentinels_witness:
  "rounding fl_overflow \<and> bounded_rounding fl_overflow pw_overflow \<and>
   (1::nat) < length example_rows \<and> vp (example_rows ! 1) = vs (example_rows ! 1) \<and>
   length example_rows \<le> 2 ^ 32 \<and>
   list_all (\<lambda>s. in_range (depth s) (2 ^ 100) \<and> in_range (density s) (2 ^ 100) \<and>
                  in_range (vp s) (2 ^ 100) \<and> in_range (vs s) (2 ^ 100)) example_rows \<and>
   poisson_ratio (computeParameters_fl fl_overflow pw_overflow example_rows ! 1) = NaN \<and>
   youngs_modulus_pa (computeParameters_fl fl_overflow pw_overflow example_rows ! 1) = NaN \<and>
   brittleness_e (computeParameters_fl fl_overflow pw_overflow example_rows ! 1) = NaN \<and>
   vp_vs_ratio (computeParameters_fl fl_overflow pw_overflow example_rows ! 1) = Fin 1 \<and>
   shear_modulus_pa (computeParameters_fl fl_overflow pw_overflow example_rows ! 1) = Fin 26624000000 \<and>
   lambda_over_mu (computeParameters_fl fl_overflow pw_overflow example_rows ! 1) = Fin (- 1) \<and>
   isFinite (vertical_stress_pa (computeParameters_fl fl_overflow pw_overflow example_rows ! 1)) \<and>
   isFinite (bulk_modulus_pa (computeParameters_fl fl_overflow pw_overflow example_rows ! 1)) \<and>
   isFinite (lame_lambda_pa (computeParameters_fl fl_overflow pw_overflow example_rows ! 1)) \<and>
   isFinite (acoustic_impedance (computeParameters_fl fl_overflow pw_overflow example_rows ! 1)) \<and>
   isFinite (shear_impedance (computeParameters_fl fl_overflow pw_overflow example_rows ! 1)) \<and>
   isFinite (p_modulus_pa (computeParameters_fl fl_overflow pw_overflow example_rows ! 1)) \<and>
   isFinite (delta_impedance_prev (computeParameters_fl fl_overflow pw_overflow example_rows ! 1)) \<and>
   impedance_gradient_per_m (computeParameters_fl fl_overflow pw_overflow example_rows ! 1) \<noteq> NaN"
proof -
  have i: "Suc 0 < length example_rows"
    by (simp add: example_rows_fields)
  have b: "list_all (\<lambda>s. in_range (depth s) (2 ^ 100) \<and> in_range (density s) (2 ^ 100) \<and>
                  in_range (vp s) (2 ^ 100) \<and> in_range (vs s) (2 ^ 100)) example_rows"
    by (simp add: example_rows_def)
  then have b': "\<forall>s\<in>set example_rows. in_range (depth s) (2 ^ 100) \<and> in_range (density s) (2 ^ 100) \<and>
                  in_range (vp s) (2 ^ 100) \<and> in_range (vs s) (2 ^ 100)"
    by (simp only: list_all_iff)
  have G: "shear_modulus_pa (computeParameters_fl fl_overflow pw_overflow example_rows ! Suc 0) = Fin 26624000000"
    unfolding row_local_fl_nth(1) [OF i] example_rows_fields
    by (simp add: fl_overflow_def pw_overflow_def)
  have dz: "truthy (grad_span_fl fl_overflow (map depth example_rows) (Suc 0))"
    unfolding example_rows_fields
    by (simp add: grad_span_fl_def jsub_fl_def fl_overflow_def)
  have len: "length example_rows \<le> 2 ^ 32"
    by (simp add: example_rows_fields)
  have eq: "vp (example_rows ! Suc 0) = vs (example_rows ! Suc 0)"
    by (simp add: example_rows_fields)
  note t = equal_velocities_sentinels [of fl_overflow "Suc 0" example_rows pw_overflow, unfolded Let_def,
      rule_format, OF conjI [OF rounding_fl_overflow conjI [OF i eq]]]
  note u = t [THEN conjunct2, THEN conjunct2, THEN conjunct2, THEN conjunct2, rule_format,
      OF conjI [OF bounded_rounding_fl_overflow conjI [OF len b']]]
  from t u show ?thesis
    unfolding One_nat_def
    using rounding_fl_overflow bounded_rounding_fl_overflow i eq len b G dz
    by (simp add: example_rows_fields)
qed

subsection \<open>Validation: the loop over the rows and the sort\<close>

lemma fold_row_step:
  "fold (row_step str_num cols) data arr = arr @ List.map_filter (prepare_row str_num cols) data"
  by (induction data arbitrary: arr) (simp_all add: row_step_def map_filter_simps split: option.splits)

lemma prepare_row_coerced:
  "prepare_row str_num cols row =
     (let d = coerced str_num cols row ''depth'' ''depth'';
          rho = coerced str_num cols row ''density'' ''density'';
          vpv = coerced str_num cols row ''vp'' ''velocity'';
          vsv = coerced str_num cols row ''vs'' ''velocity''
      in if d = NaN \<or> rho = NaN \<or> vpv = NaN \<or> vsv = NaN then None
         else Some \<lparr>depth = d, density = rho, vp = vpv, vs = vsv\<rparr>)"
proof -
  have nan: "\<And>x. isNaN x = (x = NaN)"
    by (case_tac x) simp_all
  show ?thesis
    by (simp add: prepare_row_def coerced_def Let_def nan)
qed

lemma prepare_row_no_NaN:
  assumes "prepare_row str_num cols row = Some s"
  shows "depth s \<noteq> NaN \<and> density s \<noteq> NaN \<and> vp s \<noteq> NaN \<and> vs s \<noteq> NaN"
  using assms unfolding prepare_row_coerced Let_def
  by (auto split: if_splits)

lemma survivors_no_NaN:
  assumes "s \<in> set (survivors str_num cols data)"
  shows "depth s \<noteq> NaN \<and> density s \<noteq> NaN \<and> vp s \<noteq> NaN \<and> vs s \<noteq> NaN"
proof -
  from assms obtain row where "prepare_row str_num cols row = Some s"
    by (auto simp add: survivors_def List.map_filter_def)
  then show ?thesis by (rule prepare_row_no_NaN)
qed

lemma survivors_empty:
  "survivors str_num cols data = [] \<longleftrightarrow> (\<forall>row \<in> set data. prepare_row str_num cols row = None)"
  by (induction data) (simp_all add: survivors_def map_filter_simps split: option.splits)

lemma mset_insert_cmp: "mset (insert_cmp cmp x ys) = add_mset x (mset ys)"
  by (induction ys) simp_all

lemma mset_Array_sort: "mset (Array_sort cmp xs) = mset xs"
  by (induction xs) (simp_all add: Array_sort_def mset_insert_cmp)

lemma set_Array_sort: "set (Array_sort cmp xs) = set xs"
  by (metis mset_Array_sort set_mset_mset)

lemma length_Array_sort: "length (Array_sort cmp xs) = length xs"
  by (metis mset_Array_sort size_mset)

lemma cmp_positive: "a \<noteq> NaN \<Longrightarrow> b \<noteq> NaN \<Longrightarrow> jlt (Fin 0) (jsub a b) = jlt b a"
  by (cases a; cases b) (simp_all add: jsub_def)

lemma cmp_equal: "\<not> jlt (Fin 0) (jsub a a)"
  by (cases a) (simp_all add: jsub_def)

lemma jle_total: "a \<noteq> NaN \<Longrightarrow> b \<noteq> NaN \<Longrightarrow> \<not> jlt b a \<Longrightarrow> jle a b"
  by (cases a; cases b) (auto simp add: jle_def)

lemma jlt_jle: "jlt a b \<Longrightarrow> jle a b"
  by (cases a; cases b) (simp_all add: jle_def)

lemma jle_trans: "jle a b \<Longrightarrow> jle b c \<Longrightarrow> jle a c"
  by (cases a; cases b; cases c) (auto simp add: jle_def)

lemma sorted_insert_cmp:
  assumes "sorted_wrt (\<lambda>a b. jle (depth a) (depth b)) ys"
    and "depth x \<noteq> NaN" and "\<forall>y \<in> set ys. depth y \<noteq> NaN"
  shows "sorted_wrt (\<lambda>a b. jle (depth a) (depth b)) (insert_cmp (\<lambda>a b. jsub (depth a) (depth b)) x ys)"
  using assms
proof (induction ys)
  case Nil
  then show ?case by simp
next
  case (Cons y ys)
  have y: "depth y \<noteq> NaN" using Cons.prems(3) by simp
  show ?case
  proof (cases "jlt (depth y) (depth x)")
    case True
    have "set (insert_cmp (\<lambda>a b. jsub (depth a) (depth b)) x ys) = insert x (set ys)"
      by (metis mset_insert_cmp set_mset_mset set_mset_add_mset_insert)
    with True Cons show ?thesis
      by (auto simp add: cmp_positive jlt_jle)
  next
    case False
    then have xy: "jle (depth x) (depth y)"
      using Cons.prems(2) y by (intro jle_total)
    have "\<forall>z \<in> set ys. jle (depth x) (depth z)"
      using Cons.prems(1) xy by (auto intro: jle_trans)
    with False xy Cons.prems show ?thesis
      by (simp add: cmp_positive)
  qed
qed

lemma sorted_Array_sort:
  assumes "\<forall>y \<in> set xs. depth y \<noteq> NaN"
  shows "sorted_wrt (\<lambda>a b. jle (depth a) (depth b)) (Array_sort (\<lambda>a b. jsub (depth a) (depth b)) xs)"
  using assms
proof (induction xs)
  case Nil
  show ?case by (simp add: Array_sort_def)
next
  case (Cons x xs)
  have "sorted_wrt (\<lambda>a b. jle (depth a) (depth b))
          (insert_cmp (\<lambda>a b. jsub (depth a) (depth b)) x (Array_sort (\<lambda>a b. jsub (depth a) (depth b)) xs))"
    using Cons by (intro sorted_insert_cmp) (simp_all add: set_Array_sort)
  then show ?case by (simp add: Array_sort_def)
qed

lemma filter_insert_cmp:
  "filter (\<lambda>s. depth s = d) (insert_cmp (\<lambda>a b. jsub (depth a) (depth b)) x ys) =
     (if depth x = d then x # filter (\<lambda>s. depth s = d) ys else filter (\<lambda>s. depth s = d) ys)"
  by (induction ys) (auto simp add: cmp_equal)

lemma filter_Array_sort:
  "filter (\<lambda>s. depth s = d) (Array_sort (\<lambda>a b. jsub (depth a) (depth b)) xs) = filter (\<lambda>s. depth s = d) xs"
  by (induction xs) (simp_all add: Array_sort_def filter_insert_cmp)

lemma validateAndPrepare_cases:
  "validateAndPrepare str_num data cols =
     (let missing = filter (\<lambda>k. falsy (cols k)) [''depth'', ''density'', ''vp'', ''vs'']
      in if missing \<noteq> [] then Inl (Error (''Missing columns: '' @ join '', '' missing))
         else if survivors str_num cols data = [] then Inl (Error ''No valid numeric rows found.'')
         else Inr (Array_sort (\<lambda>a b. jsub (depth a) (depth b)) (survivors str_num cols data)))"
  by (simp add: validateAndPrepare_def Let_def fold_row_step survivors_def)

lemma detectUnitMultiplier_values:
  "detectUnitMultiplier header hint = Fin 1 \<or> detectUnitMultiplier header hint = Fin 1000"
  by (simp add: detectUnitMultiplier_def Let_def)

lemma coerced_null:
  assumes "cell_of row (cols k) = Some CNull"
  shows "Number str_num (cell_of row (cols k)) = Fin 0"
    and "coerced str_num cols row k hint = jmul (Fin 0) (detectUnitMultiplier (cols k) hint)"
    and "coerced str_num cols row k hint = Fin 0"
proof -
  show n: "Number str_num (cell_of row (cols k)) = Fin 0"
    by (simp add: assms)
  show c: "coerced str_num cols row k hint = jmul (Fin 0) (detectUnitMultiplier (cols k) hint)"
    by (simp add: coerced_def n)
  show "coerced str_num cols row k hint = Fin 0"
    unfolding c using detectUnitMultiplier_values [of "cols k" hint] by auto
qed

subsection \<open>Validation of the example rows\<close>

lemma example_multipliers:
  "detectUnitMultiplier (Some ''Depth'') ''depth'' = Fin 1"
  "detectUnitMultiplier (Some ''Density'') ''density'' = Fin 1"
  "detectUnitMultiplier (Some ''Vp_Km/s'') ''velocity'' = Fin 1000"
  "detectUnitMultiplier (Some ''Vs'') ''velocity'' = Fin 1"
  by code_simp+

lemma example_survivors:
  "survivors str_num_nan example_cols example_data =
     [\<lparr>depth = Fin 20, density = Fin 2600, vp = Fin 3200, vs = Fin 1600\<rparr>,
      \<lparr>depth = Fin 10, density = Fin 0, vp = Fin 3000, vs = Fin 1500\<rparr>,
      \<lparr>depth = PInf, density = Fin 2500, vp = Fin 3000, vs = Fin 1500\<rparr>,
      \<lparr>depth = Fin 10, density = Fin 2700, vp = Fin 3300, vs = Fin 1700\<rparr>]"
  by (simp add: survivors_def example_data_def example_cols_def map_filter_simps prepare_row_def
        cell_of_def example_multipliers str_num_nan_def Let_def)

lemma invalid_survivors: "survivors str_num_nan example_cols invalid_data = []"
  by (simp add: survivors_def invalid_data_def example_cols_def map_filter_simps prepare_row_def
        cell_of_def example_multipliers str_num_nan_def Let_def)

lemma example_sorted:
  "Array_sort (\<lambda>a b. jsub (depth a) (depth b)) (survivors str_num_nan example_cols example_data) =
     [\<lparr>depth = Fin 10, density = Fin 0, vp = Fin 3000, vs = Fin 1500\<rparr>,
      \<lparr>depth = Fin 10, density = Fin 2700, vp = Fin 3300, vs = Fin 1700\<rparr>,
      \<lparr>depth = Fin 20, density = Fin 2600, vp = Fin 3200, vs = Fin 1600\<rparr>,
      \<lparr>depth = PInf, density = Fin 2500, vp = Fin 3000, vs = Fin 1500\<rparr>]"
  by (simp add: example_survivors Array_sort_def jsub_def)

lemma example_missing:
  "filter (\<lambda>k. falsy (example_cols k)) [''depth'', ''density'', ''vp'', ''vs''] = []"
  "filter (\<lambda>k. falsy (partial_cols k)) [''depth'', ''density'', ''vp'', ''vs''] = [''density'', ''vs'']"
  by (simp_all add: example_cols_def partial_cols_def falsy_def)

lemma example_prepared:
  "validateAndPrepare str_num_nan example_data example_cols =
     Inr [\<lparr>depth = Fin 10, density = Fin 0, vp = Fin 3000, vs = Fin 1500\<rparr>,
          \<lparr>depth = Fin 10, density = Fin 2700, vp = Fin 3300, vs = Fin 1700\<rparr>,
          \<lparr>depth = Fin 20, density = Fin 2600, vp = Fin 3200, vs = Fin 1600\<rparr>,
          \<lparr>depth = PInf, density = Fin 2500, vp = Fin 3000, vs = Fin 1500\<rparr>]"
  unfolding validateAndPrepare_cases Let_def example_missing example_sorted
  by (simp add: example_survivors)

subsection \<open>The outcomes of validateAndPrepare\<close>

text \<open>
  Claim C2. \<open>validateAndPrepare\<close> has three outcomes and no other. When one of the four
  canonical fields is absent from the mapping (or mapped to the empty label), the result is
  the error whose message is \<^verbatim>\<open>Missing columns: \<close> followed by all absent fields in
  canonical order, separated by commas, whatever the rows are. Otherwise, when no row
  survives the loop, which is the case exactly when the loop body skips every row, the
  result is the error \<^verbatim>\<open>No valid numeric rows found.\<close>. Otherwise the result is a non-empty
  sequence of samples, a permutation of the surviving rows, and \<open>computeParameters\<close>, a total
  function, gives it a derived sequence of the same length.
\<close>

theorem validateAndPrepare_outcomes:
  "(let missing = filter (\<lambda>k. falsy (cols k)) [''depth'', ''density'', ''vp'', ''vs''];
        kept = survivors str_num cols data
    in (missing \<noteq> [] \<longrightarrow>
          validateAndPrepare str_num data cols = Inl (Error (''Missing columns: '' @ join '', '' missing))) \<and>
       (missing = [] \<and> kept = [] \<longrightarrow>
          validateAndPrepare str_num data cols = Inl (Error ''No valid numeric rows found.'')) \<and>
       (missing = [] \<and> kept \<noteq> [] \<longrightarrow>
          (\<exists>out. validateAndPrepare str_num data cols = Inr out \<and> mset out = mset kept \<and> out \<noteq> [] \<and>
                 length (computeParameters out) = length out)) \<and>
       (kept = [] \<longleftrightarrow> (\<forall>row \<in> set data. prepare_row str_num cols row = None)))"
proof -
  have "mset (Array_sort (\<lambda>a b. jsub (depth a) (depth b)) (survivors str_num cols data)) =
          mset (survivors str_num cols data)"
    by (rule mset_Array_sort)
  moreover have "survivors str_num cols data \<noteq> [] \<Longrightarrow>
      Array_sort (\<lambda>a b. jsub (depth a) (depth b)) (survivors str_num cols data) \<noteq> []"
    using length_Array_sort [of "\<lambda>a b. jsub (depth a) (depth b)" "survivors str_num cols data"]
    by auto
  ultimately show ?thesis
    unfolding Let_def validateAndPrepare_cases
    using survivors_empty [of str_num cols data] by simp
qed

theorem validateAndPrepare_outcomes_witness:
  "filter (\<lambda>k. falsy (partial_cols k)) [''depth'', ''density'', ''vp'', ''vs''] = [''density'', ''vs''] \<and>
   validateAndPrepare str_num_nan example_data partial_cols = Inl (Error ''Missing columns: density, vs'') \<and>
   filter (\<lambda>k. falsy (example_cols k)) [''depth'', ''density'', ''vp'', ''vs''] = [] \<and>
   survivors str_num_nan example_cols invalid_data = [] \<and>
   validateAndPrepare str_num_nan invalid_data example_cols = Inl (Error ''No valid numeric rows found.'') \<and>
   length (survivors str_num_nan example_cols example_data) = 4 \<and>
   validateAndPrepare str_num_nan example_data example_cols =
     Inr [\<lparr>depth = Fin 10, density = Fin 0, vp = Fin 3000, vs = Fin 1500\<rparr>,
          \<lparr>depth = Fin 10, density = Fin 2700, vp = Fin 3300, vs = Fin 1700\<rparr>,
          \<lparr>depth = Fin 20, density = Fin 2600, vp = Fin 3200, vs = Fin 1600\<rparr>,
          \<lparr>depth = PInf, density = Fin 2500, vp = Fin 3000, vs = Fin 1500\<rparr>]"
proof -
  have 1: "validateAndPrepare str_num_nan example_data partial_cols = Inl (Error ''Missing columns: density, vs'')"
    using validateAndPrepare_outcomes [of partial_cols str_num_nan example_data, unfolded Let_def example_missing]
    by simp
  have 2: "validateAndPrepare str_num_nan invalid_data example_cols = Inl (Error ''No valid numeric rows found.'')"
    using validateAndPrepare_outcomes [of example_cols str_num_nan invalid_data, unfolded Let_def example_missing]
    by (simp add: invalid_survivors)
  have 3: "length (survivors str_num_nan example_cols example_data) = 4"
    by (simp add: example_survivors)
  show ?thesis
    unfolding example_missing using 1 2 3 invalid_survivors example_prepared by blast
qed

subsection \<open>Discarded rows\<close>




subsection \<open>The order of the prepared samples\<close>

text \<open>
  Claim C5. When \<open>validateAndPrepare\<close> succeeds, the depths of the returned sequence are
  non-decreasing from each sample to every later one, and for each depth the samples of
  that depth stand in the returned sequence in the order in which their rows stand in the
  input; the returned sequence is a permutation of the surviving samples.
\<close>

theorem prepared_samples_sorted_stable:
  "validateAndPrepare str_num data cols = Inr out \<longrightarrow>
     sorted_wrt (\<lambda>a b. jle (depth a) (depth b)) out \<and>
     (\<forall>d. filter (\<lambda>s. depth s = d) out = filter (\<lambda>s. depth s = d) (survivors str_num cols data)) \<and>
     mset out = mset (survivors str_num cols data)"
proof
  assume "validateAndPrepare str_num data cols = Inr out"
  then have out: "out = Array_sort (\<lambda>a b. jsub (depth a) (depth b)) (survivors str_num cols data)"
    unfolding validateAndPrepare_cases Let_def by (simp split: if_splits)
  have "\<forall>y \<in> set (survivors str_num cols data). depth y \<noteq> NaN"
    using survivors_no_NaN by blast
  then have "sorted_wrt (\<lambda>a b. jle (depth a) (depth b)) out"
    unfolding out by (rule sorted_Array_sort)
  then show "sorted_wrt (\<lambda>a b. jle (depth a) (depth b)) out \<and>
     (\<forall>d. filter (\<lambda>s. depth s = d) out = filter (\<lambda>s. depth s = d) (survivors str_num cols data)) \<and>
     mset out = mset (survivors str_num cols data)"
    unfolding out by (simp add: filter_Array_sort mset_Array_sort)
qed

theorem prepared_samples_sorted_stable_witness:
  "validateAndPrepare str_num_nan example_data example_cols =
     Inr [\<lparr>depth = Fin 10, density = Fin 0, vp = Fin 3000, vs = Fin 1500\<rparr>,
          \<lparr>depth = Fin 10, density = Fin 2700, vp = Fin 3300, vs = Fin 1700\<rparr>,
          \<lparr>depth = Fin 20, density = Fin 2600, vp = Fin 3200, vs = Fin 1600\<rparr>,
          \<lparr>depth = PInf, density = Fin 2500, vp = Fin 3000, vs = Fin 1500\<rparr>] \<and>
   filter (\<lambda>s. depth s = Fin 10) (survivors str_num_nan example_cols example_data) =
     [\<lparr>depth = Fin 10, density = Fin 0, vp = Fin 3000, vs = Fin 1500\<rparr>,
      \<lparr>depth = Fin 10, density = Fin 2700, vp = Fin 3300, vs = Fin 1700\<rparr>] \<and>
   sorted_wrt (\<lambda>a b. jle (depth a) (depth b))
     [\<lparr>depth = Fin 10, density = Fin 0, vp = Fin 3000, vs = Fin 1500\<rparr>,
      \<lparr>depth = Fin 10, density = Fin 2700, vp = Fin 3300, vs = Fin 1700\<rparr>,
      \<lparr>depth = Fin 20, density = Fin 2600, vp = Fin 3200, vs = Fin 1600\<rparr>,
      \<lparr>depth = PInf, density = Fin 2500, vp = Fin 3000, vs = Fin 1500\<rparr>]"
  using prepared_samples_sorted_stable [of str_num_nan example_data example_cols
      "[\<lparr>depth = Fin 10, density = Fin 0, vp = Fin 3000, vs = Fin 1500\<rparr>,
        \<lparr>depth = Fin 10, density = Fin 2700, vp = Fin 3300, vs = Fin 1700\<rparr>,
        \<lparr>depth = Fin 20, density = Fin 2600, vp = Fin 3200, vs = Fin 1600\<rparr>,
        \<lparr>depth = PInf, density = Fin 2500, vp = Fin 3000, vs = Fin 1500\<rparr>]"]
  by (simp add: example_prepared example_survivors)

subsection \<open>Cells that hold null\<close>

text \<open>
  Claim C10. When the cell of a row under the header mapped to a field holds \<^verbatim>\<open>null\<close>,
  \<^verbatim>\<open>Number\<close> converts it to \<open>0\<close> and the value of the field is \<open>0\<close> times the unit multiplier,
  which is \<open>0\<close> and not \<open>NaN\<close>: the cell does not make the loop skip the row. The row is kept
  exactly when none of its four values is \<open>NaN\<close>, with these values as its fields; a row
  whose four mapped cells all hold \<^verbatim>\<open>null\<close> is kept as the sample of four zeros; and every
  row that is kept has its sample in the sequence that \<open>validateAndPrepare\<close> returns.
\<close>

theorem null_cell_is_zero:
  "(cell_of row (cols k) = Some CNull \<longrightarrow>
      Number str_num (cell_of row (cols k)) = Fin 0 \<and>
      coerced str_num cols row k hint = jmul (Fin 0) (detectUnitMultiplier (cols k) hint) \<and>
      coerced str_num cols row k hint = Fin 0) \<and>
   prepare_row str_num cols row =
     (let d = coerced str_num cols row ''depth'' ''depth'';
          rho = coerced str_num cols row ''density'' ''density'';
          vpv = coerced str_num cols row ''vp'' ''velocity'';
          vsv = coerced str_num cols row ''vs'' ''velocity''
      in if d = NaN \<or> rho = NaN \<or> vpv = NaN \<or> vsv = NaN then None
         else Some \<lparr>depth = d, density = rho, vp = vpv, vs = vsv\<rparr>) \<and>
   (cell_of row (cols ''depth'') = Some CNull \<and> cell_of row (cols ''density'') = Some CNull \<and>
    cell_of row (cols ''vp'') = Some CNull \<and> cell_of row (cols ''vs'') = Some CNull \<longrightarrow>
      prepare_row str_num cols row = Some \<lparr>depth = Fin 0, density = Fin 0, vp = Fin 0, vs = Fin 0\<rparr>) \<and>
   (prepare_row str_num cols row = Some s \<and> validateAndPrepare str_num data cols = Inr out \<and>
    row \<in> set data \<longrightarrow> s \<in> set out)"
proof (intro conjI impI)
  assume h: "cell_of row (cols k) = Some CNull"
  show "Number str_num (cell_of row (cols k)) = Fin 0"
    and "coerced str_num cols row k hint = jmul (Fin 0) (detectUnitMultiplier (cols k) hint)"
    and "coerced str_num cols row k hint = Fin 0"
    using coerced_null [of row cols k, OF h] by blast+
next
  show "prepare_row str_num cols row =
     (let d = coerced str_num cols row ''depth'' ''depth'';
          rho = coerced str_num cols row ''density'' ''density'';
          vpv = coerced str_num cols row ''vp'' ''velocity'';
          vsv = coerced str_num cols row ''vs'' ''velocity''
      in if d = NaN \<or> rho = NaN \<or> vpv = NaN \<or> vsv = NaN then None
         else Some \<lparr>depth = d, density = rho, vp = vpv, vs = vsv\<rparr>)"
    by (rule prepare_row_coerced)
next
  assume "cell_of row (cols ''depth'') = Some CNull \<and> cell_of row (cols ''density'') = Some CNull \<and>
    cell_of row (cols ''vp'') = Some CNull \<and> cell_of row (cols ''vs'') = Some CNull"
  then show "prepare_row str_num cols row = Some \<lparr>depth = Fin 0, density = Fin 0, vp = Fin 0, vs = Fin 0\<rparr>"
    unfolding prepare_row_coerced Let_def by (simp add: coerced_null(3))
next
  assume h: "prepare_row str_num cols row = Some s \<and> validateAndPrepare str_num data cols = Inr out \<and>
    row \<in> set data"
  then have out: "out = Array_sort (\<lambda>a b. jsub (depth a) (depth b)) (survivors str_num cols data)"
    unfolding validateAndPrepare_cases Let_def by (simp split: if_splits)
  from h have "s \<in> set (survivors str_num cols data)"
    by (force simp add: survivors_def List.map_filter_def)
  then show "s \<in> set out"
    unfolding out set_Array_sort .
qed

theorem null_cell_is_zero_witness:
  "cell_of (example_data ! 1) (example_cols ''density'') = Some CNull \<and>
   coerced str_num_nan example_cols (example_data ! 1) ''density'' ''density'' = Fin 0 \<and>
   prepare_row str_num_nan example_cols (example_data ! 1) =
     Some \<lparr>depth = Fin 10, density = Fin 0, vp = Fin 3000, vs = Fin 1500\<rparr> \<and>
   example_data ! 1 \<in> set example_data \<and>
   validateAndPrepare str_num_nan example_data example_cols =
     Inr [\<lparr>depth = Fin 10, density = Fin 0, vp = Fin 3000, vs = Fin 1500\<rparr>,
          \<lparr>depth = Fin 10, density = Fin 2700, vp = Fin 3300, vs = Fin 1700\<rparr>,
          \<lparr>depth = Fin 20, density = Fin 2600, vp = Fin 3200, vs = Fin 1600\<rparr>,
          \<lparr>depth = PInf, density = Fin 2500, vp = Fin 3000, vs = Fin 1500\<rparr>] \<and>
   \<lparr>depth = Fin 10, density = Fin 0, vp = Fin 3000, vs = Fin 1500\<rparr> \<in>
     set [\<lparr>depth = Fin 10, density = Fin 0, vp = Fin 3000, vs = Fin 1500\<rparr>,
          \<lparr>depth = Fin 10, density = Fin 2700, vp = Fin 3300, vs = Fin 1700\<rparr>,
          \<lparr>depth = Fin 20, density = Fin 2600, vp = Fin 3200, vs = Fin 1600\<rparr>,
          \<lparr>depth = PInf, density = Fin 2500, vp = Fin 3000, vs = Fin 1500\<rparr>]"
proof -
  have c: "cell_of (example_data ! 1) (example_cols ''density'') = Some CNull"
    by (simp add: example_data_def example_cols_def cell_of_def)
  have p: "prepare_row str_num_nan example_cols (example_data ! 1) =
     Some \<lparr>depth = Fin 10, density = Fin 0, vp = Fin 3000, vs = Fin 1500\<rparr>"
    by (simp add: example_data_def example_cols_def prepare_row_def cell_of_def example_multipliers Let_def)
  have m: "example_data ! 1 \<in> set example_data"
    by (simp add: example_data_def)
  note t = null_cell_is_zero [of "example_data ! 1" example_cols "''density''" str_num_nan "''density''"
        "\<lparr>depth = Fin 10, density = Fin 0, vp = Fin 3000, vs = Fin 1500\<rparr>" example_data
        "[\<lparr>depth = Fin 10, density = Fin 0, vp = Fin 3000, vs = Fin 1500\<rparr>,
          \<lparr>depth = Fin 10, density = Fin 2700, vp = Fin 3300, vs = Fin 1700\<rparr>,
          \<lparr>depth = Fin 20, density = Fin 2600, vp = Fin 3200, vs = Fin 1600\<rparr>,
          \<lparr>depth = PInf, density = Fin 2500, vp = Fin 3000, vs = Fin 1500\<rparr>]"]
  from t c have co: "coerced str_num_nan example_cols (example_data ! 1) ''density'' ''density'' = Fin 0"
    by blast
  from t p m example_prepared
  have mem: "\<lparr>depth = Fin 10, density = Fin 0, vp = Fin 3000, vs = Fin 1500\<rparr> \<in>
     set [\<lparr>depth = Fin 10, density = Fin 0, vp = Fin 3000, vs = Fin 1500\<rparr>,
          \<lparr>depth = Fin 10, density = Fin 2700, vp = Fin 3300, vs = Fin 1700\<rparr>,
          \<lparr>depth = Fin 20, density = Fin 2600, vp = Fin 3200, vs = Fin 1600\<rparr>,
          \<lparr>depth = PInf, density = Fin 2500, vp = Fin 3000, vs = Fin 1500\<rparr>]"
    by blast
  show ?thesis
    using c co p m example_prepared mem by blast
qed

end
